(* ===== verification/Prelude.thy ===== *)
theory Prelude
  imports Main "HOL-Library.Word"
begin

text \<open>
  Shared vocabulary of the development: Go errors as values with the \<open>errors.Is\<close> walk,
  results as sums, decimal printing (\<open>strconv.Itoa\<close> on non-negative values), and the list
  lemmas the component theories share.
\<close>

section \<open>Strings\<close>

text \<open>\<open>strings.HasPrefix\<close> and \<open>strings.Contains\<close>.\<close>

fun go_has_prefix :: "string \<Rightarrow> string \<Rightarrow> bool" where
  "go_has_prefix s [] = True"
| "go_has_prefix [] (p # ps) = False"
| "go_has_prefix (c # cs) (p # ps) = (c = p \<and> go_has_prefix cs ps)"

fun go_contains :: "string \<Rightarrow> string \<Rightarrow> bool" where
  "go_contains [] sub = (sub = [])"
| "go_contains (c # cs) sub = (go_has_prefix (c # cs) sub \<or> go_contains cs sub)"

lemma go_has_prefix_append: "go_has_prefix s p \<longleftrightarrow> (\<exists>t. s = p @ t)"
  by (induction s p rule: go_has_prefix.induct) auto

section \<open>Errors\<close>

text \<open>
  A Go error is a sentinel (a package-level \<open>errors.New\<close> value, compared by identity and here
  named by its text), a one-off text, a JetStream API error carrying its code, or a
  \<open>fmt.Errorf\<close> value \<open>Wrapped pre es suf\<close> that wraps the operands \<open>es\<close> of its \<open>%w\<close> verbs.
  \<open>errors_Is\<close> is \<open>errors.Is\<close> against a sentinel, a walk of the wrap tree; \<open>error_text\<close> is the
  \<open>Error()\<close> method.
\<close>

datatype api_code = WrongLastSequence | WrongLastSequenceConstant | OtherCode nat

datatype go_error =
    Sentinel string
  | Text string
  | ApiError api_code string
  | Wrapped string "go_error list" string

fun errors_Is :: "go_error \<Rightarrow> string \<Rightarrow> bool" where
  "errors_Is (Sentinel s) t = (s = t)"
| "errors_Is (Text s) t = False"
| "errors_Is (ApiError c m) t = False"
| "errors_Is (Wrapped pre es suf) t = list_ex (\<lambda>e. errors_Is e t) es"

fun go_join :: "string \<Rightarrow> string list \<Rightarrow> string" where
  "go_join sep [] = []"
| "go_join sep [s] = s"
| "go_join sep (s # t # ts) = s @ sep @ go_join sep (t # ts)"

fun error_text :: "go_error \<Rightarrow> string" where
  "error_text (Sentinel s) = s"
| "error_text (Text s) = s"
| "error_text (ApiError c m) = m"
| "error_text (Wrapped pre es suf) = pre @ go_join '': '' (map error_text es) @ suf"

text \<open>The API error a wrap tree carries, as \<open>errors.AsType\<close> finds it (depth first).\<close>

fun errors_AsApi :: "go_error \<Rightarrow> api_code option"
  and errors_AsApi_list :: "go_error list \<Rightarrow> api_code option" where
  "errors_AsApi (Sentinel s) = None"
| "errors_AsApi (Text s) = None"
| "errors_AsApi (ApiError c m) = Some c"
| "errors_AsApi (Wrapped pre es suf) = errors_AsApi_list es"
| "errors_AsApi_list [] = None"
| "errors_AsApi_list (e # es) =
     (case errors_AsApi e of Some c \<Rightarrow> Some c | None \<Rightarrow> errors_AsApi_list es)"

text \<open>A result is an error or a value; \<open>wrap2\<close> is the common \<open>fmt.Errorf("%w: %w", a, b)\<close>.\<close>

type_synonym 'a result = "go_error + 'a"

abbreviation wrap2 :: "go_error \<Rightarrow> go_error \<Rightarrow> go_error" where
  "wrap2 a b \<equiv> Wrapped [] [a, b] []"

section \<open>Machine integers\<close>

text \<open>What a 64-bit \<open>int\<close> holds after an operation whose exact result is \<open>i\<close>.\<close>

definition int64_of :: "int \<Rightarrow> int" where
  "int64_of i = (i + 2 ^ 63) mod 2 ^ 64 - 2 ^ 63"

abbreviation MaxInt :: int where "MaxInt \<equiv> 2 ^ 63 - 1"

lemma int64_of_id: "- (2 ^ 63) \<le> i \<Longrightarrow> i \<le> MaxInt \<Longrightarrow> int64_of i = i"
  by (simp add: int64_of_def)

section \<open>Decimal printing\<close>

fun go_itoa :: "nat \<Rightarrow> string" where
  "go_itoa n = (if n < 10 then [char_of (48 + n)] else go_itoa (n div 10) @ [char_of (48 + n mod 10)])"

declare go_itoa.simps [simp del]

text \<open>\<open>strconv.Atoi\<close> for a 64-bit \<open>int\<close>: an optional sign, then decimal digits only, in range.\<close>

definition is_digit :: "char \<Rightarrow> bool" where
  "is_digit c \<longleftrightarrow> 48 \<le> (of_char c :: nat) \<and> (of_char c :: nat) \<le> 57"

definition digit_val :: "char \<Rightarrow> nat" where
  "digit_val c = of_char c - 48"

definition digits_val :: "string \<Rightarrow> nat" where
  "digits_val s = foldl (\<lambda>n c. 10 * n + digit_val c) 0 s"

definition go_atoi :: "string \<Rightarrow> int option" where
  "go_atoi s =
     (let neg = (s \<noteq> [] \<and> hd s = CHR ''-'');
          ds = (if s \<noteq> [] \<and> (hd s = CHR ''-'' \<or> hd s = CHR ''+'') then tl s else s);
          v = (if neg then - int (digits_val ds) else int (digits_val ds))
      in if ds = [] \<or> \<not> list_all is_digit ds \<or> v < - (2 ^ 63) \<or> 2 ^ 63 \<le> v then None
         else Some v)"

lemma digit_char [simp]:
  assumes "n < 10"
  shows "is_digit (char_of (48 + n))" and "digit_val (char_of (48 + n)) = n"
proof -
  have "(of_char (char_of (48 + n) :: char) :: nat) = 48 + n"
    using assms by (simp add: of_char_of)
  then show "is_digit (char_of (48 + n))" and "digit_val (char_of (48 + n)) = n"
    using assms by (simp_all add: is_digit_def digit_val_def)
qed

lemma go_itoa_digits: "list_all is_digit (go_itoa n)"
proof (induction n rule: go_itoa.induct)
  case (1 n)
  then show ?case by (subst go_itoa.simps) auto
qed

lemma go_itoa_neq_Nil [simp]: "go_itoa n \<noteq> []"
  by (subst go_itoa.simps) simp

lemma digits_val_snoc: "digits_val (s @ [c]) = 10 * digits_val s + digit_val c"
  by (simp add: digits_val_def)

lemma digits_val_itoa [simp]: "digits_val (go_itoa n) = n"
proof (induction n rule: go_itoa.induct)
  case (1 n)
  show ?case
  proof (cases "n < 10")
    case True
    then show ?thesis by (subst go_itoa.simps) (simp add: digits_val_def)
  next
    case False
    with 1 show ?thesis by (subst go_itoa.simps) (simp add: digits_val_snoc)
  qed
qed

lemma go_atoi_itoa: "n < 2 ^ 63 \<Longrightarrow> go_atoi (go_itoa n) = Some (int n)"
proof -
  assume n: "n < 2 ^ 63"
  obtain c s where cs: "go_itoa n = c # s" by (cases "go_itoa n") auto
  with go_itoa_digits [of n] have "is_digit c" by simp
  then have "c \<noteq> CHR ''-''" "c \<noteq> CHR ''+''" by (auto simp: is_digit_def)
  moreover have "int n < 2 ^ 63" using n by (metis of_nat_less_numeral_power_cancel_iff)
  ultimately show ?thesis
    using cs go_itoa_digits [of n] digits_val_itoa [of n] by (auto simp: go_atoi_def Let_def)
qed

lemma digit_chars:
  "char_of (48 :: nat) = CHR ''0''" "char_of (49 :: nat) = CHR ''1''" "char_of (50 :: nat) = CHR ''2''"
  "char_of (51 :: nat) = CHR ''3''" "char_of (52 :: nat) = CHR ''4''" "char_of (53 :: nat) = CHR ''5''"
  "char_of (54 :: nat) = CHR ''6''" "char_of (55 :: nat) = CHR ''7''" "char_of (56 :: nat) = CHR ''8''"
  "char_of (57 :: nat) = CHR ''9''"
  by (simp_all add: char_of_def bit_0)

text \<open>Evaluating decimal texts at concrete numbers.\<close>

lemmas decimal_eval = go_itoa.simps digit_chars is_digit_def digit_val_def digits_val_def go_atoi_def

section \<open>Lists\<close>

text \<open>Dropping the first element that satisfies a predicate: Go's
  \<open>append(xs[:i], xs[i+1:]...)\<close> at the first matching index.\<close>

fun remove_first :: "('a \<Rightarrow> bool) \<Rightarrow> 'a list \<Rightarrow> 'a list" where
  "remove_first P [] = []"
| "remove_first P (x # xs) = (if P x then xs else x # remove_first P xs)"

lemma remove_first_id [simp]: "\<not> list_ex P xs \<Longrightarrow> remove_first P xs = xs"
  by (induction xs) auto

lemma set_remove_first_subset: "set (remove_first P xs) \<subseteq> set xs"
  by (induction xs) auto

lemma distinct_map_remove_first:
  "distinct (map f xs) \<Longrightarrow> distinct (map f (remove_first P xs))"
  by (induction xs) (auto dest: subsetD [OF set_remove_first_subset])

lemma set_map_remove_first:
  assumes "distinct (map f xs)" and "\<And>x. P x \<longleftrightarrow> f x = a"
  shows "f ` set (remove_first P xs) = f ` set xs - {a}"
  using assms(1)
proof (induction xs)
  case (Cons x xs)
  then show ?case
    using assms(2) by (cases "f x = a") auto
qed simp

lemma length_remove_first:
  "list_ex P xs \<Longrightarrow> length xs = Suc (length (remove_first P xs))"
  by (induction xs) auto

end
