(* ===== verification/Kvutil.thy ===== *)
theory Kvutil
  imports Prelude
begin

text \<open>
  The optimistic-concurrency layer \<open>foundation/state/kvutil/cas.go\<close> over a JetStream key-value
  bucket.

  The bucket itself is third-party code, so it is a parameter: a record of functions over a
  world \<open>'w\<close> that each return a result and the next world. Everything other clients do while a
  call is in flight is part of the world transformer. What the code relies on is stated by
  \<open>kv_lawful\<close>: an acknowledged \<open>Create\<close>/\<open>Update\<close>/\<open>Delete\<close> took effect atomically on the
  revision it named, a revision names one value for ever, a read returns a value some revision
  had (a replica may lag), a revision conflict changed nothing, and any other write error leaves
  the outcome open.
\<close>

section \<open>The bucket interface\<close>

text \<open>An entry a watcher delivers: \<open>e_put\<close> is false for a delete or purge marker.\<close>

record 'd kv_entry =
  e_key :: string
  e_revision :: nat
  e_put :: bool
  e_value :: 'd

text \<open>
  \<open>kv_Watch\<close> answers with what the watcher's channel delivers until it closes, \<open>None\<close> being the
  nil entry that ends the existing values.
\<close>

record ('w, 'd) kv =
  kv_Get :: "'w \<Rightarrow> string \<Rightarrow> ('d \<times> nat) result \<times> 'w"
  kv_Create :: "'w \<Rightarrow> string \<Rightarrow> 'd \<Rightarrow> nat result \<times> 'w"
  kv_Update :: "'w \<Rightarrow> string \<Rightarrow> 'd \<Rightarrow> nat \<Rightarrow> nat result \<times> 'w"
  kv_Put :: "'w \<Rightarrow> string \<Rightarrow> 'd \<Rightarrow> nat result \<times> 'w"
  kv_Delete :: "'w \<Rightarrow> string \<Rightarrow> nat option \<Rightarrow> unit result \<times> 'w"
  kv_Purge :: "'w \<Rightarrow> string \<Rightarrow> unit result \<times> 'w"
  kv_Keys :: "'w \<Rightarrow> string list result \<times> 'w"
  kv_Watch :: "'w \<Rightarrow> string \<Rightarrow> 'd kv_entry option list result \<times> 'w"

text \<open>
  The context and the clock a retry loop selects on: \<open>pause w d\<close> waits \<open>d\<close> milliseconds
  (plus jitter) or returns the context's error if it ends first.
\<close>

type_synonym 'w pause = "'w \<Rightarrow> nat \<Rightarrow> go_error option \<times> 'w"

abbreviation ErrKeyNotFound :: string where "ErrKeyNotFound \<equiv> ''jetstream.ErrKeyNotFound''"
abbreviation ErrNoKeysFound :: string where "ErrNoKeysFound \<equiv> ''jetstream.ErrNoKeysFound''"
abbreviation ErrKeyExists :: string where "ErrKeyExists \<equiv> ''jetstream.ErrKeyExists''"
abbreviation ErrKeyRevisionMismatch :: string where
  "ErrKeyRevisionMismatch \<equiv> ''jetstream.ErrKeyRevisionMismatch''"

section \<open>The retry loop\<close>

definition casAttempts :: nat where "casAttempts = 5"

definition casBackoffBase :: nat where "casBackoffBase = 2"

definition ErrRead :: go_error where "ErrRead = Sentinel ''kvutil: read''"
definition ErrDecode :: go_error where "ErrDecode = Sentinel ''kvutil: decode''"
definition ErrEncode :: go_error where "ErrEncode = Sentinel ''kvutil: encode''"
definition ErrWrite :: go_error where "ErrWrite = Sentinel ''kvutil: write''"

lemmas cas_sentinels = ErrRead_def ErrDecode_def ErrEncode_def ErrWrite_def

record CASConfig =
  Attempts :: int
  CreateIfAbsent :: bool
  NotFound :: "go_error option"
  Exhausted :: "(string \<Rightarrow> nat \<Rightarrow> go_error) option"

definition isConflict :: "go_error \<Rightarrow> bool" where
  "isConflict err \<longleftrightarrow> errors_Is err ErrKeyExists \<or> errors_Is err ErrKeyRevisionMismatch"

definition IsRevisionConflict :: "go_error \<Rightarrow> bool" where
  "IsRevisionConflict err \<longleftrightarrow>
     isConflict err \<or>
     (case errors_AsApi err of
        Some c \<Rightarrow> c = WrongLastSequence \<or> c = WrongLastSequenceConstant
      | None \<Rightarrow> False)"

definition cas_attempts :: "CASConfig \<Rightarrow> nat" where
  "cas_attempts cfg = (if Attempts cfg \<le> 0 then casAttempts else nat (Attempts cfg))"

definition cas_exhausted :: "CASConfig \<Rightarrow> string \<Rightarrow> string \<Rightarrow> go_error option \<Rightarrow> go_error" where
  "cas_exhausted cfg op key lastErr =
     (let tail = (case lastErr of Some e \<Rightarrow> [e] | None \<Rightarrow> [])
      in case Exhausted cfg of
           Some f \<Rightarrow> Wrapped [] (f key (cas_attempts cfg) # tail) []
         | None \<Rightarrow> Wrapped (''CAS '' @ op @ '' exhausted '' @ go_itoa (cas_attempts cfg)
                            @ '' attempts for key '' @ key @ '': '') tail [])"

text \<open>One iteration per remaining attempt; \<open>i\<close> is the loop index the backoff grows with.\<close>

fun retryCAS_from ::
  "nat \<Rightarrow> nat \<Rightarrow> go_error option \<Rightarrow> CASConfig \<Rightarrow> string \<Rightarrow> string \<Rightarrow> 'w pause \<Rightarrow>
   ('w \<Rightarrow> 'r result \<times> 'w) \<Rightarrow> 'w \<Rightarrow> 'r result \<times> 'w" where
  "retryCAS_from 0 i lastErr cfg op key pause attempt w = (Inl (cas_exhausted cfg op key lastErr), w)"
| "retryCAS_from (Suc n) i lastErr cfg op key pause attempt w =
     (case attempt w of
        (Inr r, w1) \<Rightarrow> (Inr r, w1)
      | (Inl err, w1) \<Rightarrow>
          if \<not> isConflict err then (Inl err, w1)
          else (case pause w1 (casBackoffBase * (i + 1)) of
                  (Some cerr, w2) \<Rightarrow> (Inl cerr, w2)
                | (None, w2) \<Rightarrow> retryCAS_from n (Suc i) (Some err) cfg op key pause attempt w2))"

definition retryCAS ::
  "CASConfig \<Rightarrow> string \<Rightarrow> string \<Rightarrow> 'w pause \<Rightarrow> ('w \<Rightarrow> 'r result \<times> 'w) \<Rightarrow> 'w \<Rightarrow> 'r result \<times> 'w" where
  "retryCAS cfg op key pause attempt w =
     retryCAS_from (cas_attempts cfg) 0 None cfg op key pause attempt w"

section \<open>Read-modify-write\<close>

text \<open>
  \<open>json.Unmarshal\<close> and \<open>json.Marshal\<close> at the record type are the codec \<open>dec\<close>/\<open>enc\<close>, and
  \<open>zero\<close> is the type's zero value. A mutator returns whether it changed the value, the value it
  leaves behind, and what it assigned to the variables its closure captures.
\<close>

type_synonym ('v, 'a) mutator = "'v \<Rightarrow> (bool \<times> 'v \<times> 'a) result"

text \<open>The write half of an attempt: marshal, then create at revision 0 or update.\<close>

definition cas_write ::
  "('w, 'd) kv \<Rightarrow> string \<Rightarrow> 'd \<Rightarrow> nat \<Rightarrow> 'w \<Rightarrow> unit result \<times> 'w" where
  "cas_write kv key data revision w =
     (case (if revision = 0 then kv_Create kv w key data else kv_Update kv w key data revision) of
        (Inr r, w1) \<Rightarrow> (Inr (), w1)
      | (Inl err, w1) \<Rightarrow> (Inl (wrap2 ErrWrite err), w1))"

definition Update_commit ::
  "('w, 'd) kv \<Rightarrow> ('v \<Rightarrow> 'd result) \<Rightarrow> string \<Rightarrow> ('v, 'a) mutator \<Rightarrow> 'v \<Rightarrow> nat \<Rightarrow> 'w \<Rightarrow>
   ('v \<times> 'a) result \<times> 'w" where
  "Update_commit kv enc key mutate value revision w =
     (case mutate value of
        Inl merr \<Rightarrow> (Inl merr, w)
      | Inr (changed, v, a) \<Rightarrow>
          if \<not> changed then (Inr (v, a), w)
          else (case enc v of
                  Inl merr \<Rightarrow> (Inl (wrap2 ErrEncode merr), w)
                | Inr data \<Rightarrow>
                    (case cas_write kv key data revision w of
                       (Inl err, w1) \<Rightarrow> (Inl err, w1)
                     | (Inr u, w1) \<Rightarrow> (Inr (v, a), w1))))"

definition Update_attempt ::
  "('w, 'd) kv \<Rightarrow> ('d \<Rightarrow> 'v result) \<Rightarrow> ('v \<Rightarrow> 'd result) \<Rightarrow> 'v \<Rightarrow> string \<Rightarrow> CASConfig \<Rightarrow>
   ('v, 'a) mutator \<Rightarrow> 'w \<Rightarrow> ('v \<times> 'a) result \<times> 'w" where
  "Update_attempt kv dec enc zero key cfg mutate w =
     (case kv_Get kv w key of
        (Inr (d, r), w1) \<Rightarrow>
          (case dec d of
             Inl uerr \<Rightarrow> (Inl (wrap2 ErrDecode uerr), w1)
           | Inr value \<Rightarrow> Update_commit kv enc key mutate value r w1)
      | (Inl err, w1) \<Rightarrow>
          if errors_Is err ErrKeyNotFound \<and> CreateIfAbsent cfg
          then Update_commit kv enc key mutate zero 0 w1
          else (case NotFound cfg of
                  Some nf \<Rightarrow> if errors_Is err ErrKeyNotFound then (Inl nf, w1)
                             else (Inl (wrap2 ErrRead err), w1)
                | None \<Rightarrow> (Inl (wrap2 ErrRead err), w1)))"

definition Update ::
  "('w, 'd) kv \<Rightarrow> 'w pause \<Rightarrow> ('d \<Rightarrow> 'v result) \<Rightarrow> ('v \<Rightarrow> 'd result) \<Rightarrow> 'v \<Rightarrow> string \<Rightarrow>
   CASConfig \<Rightarrow> ('v, 'a) mutator \<Rightarrow> 'w \<Rightarrow> ('v \<times> 'a) result \<times> 'w" where
  "Update kv pause dec enc zero key cfg mutate w =
     retryCAS cfg ''update'' key pause (Update_attempt kv dec enc zero key cfg mutate) w"

definition Put_attempt ::
  "('w, 'd) kv \<Rightarrow> string \<Rightarrow> CASConfig \<Rightarrow> 'd \<Rightarrow> 'w \<Rightarrow> unit result \<times> 'w" where
  "Put_attempt kv key cfg data w =
     (case kv_Get kv w key of
        (Inr (d, r), w1) \<Rightarrow> cas_write kv key data r w1
      | (Inl err, w1) \<Rightarrow>
          if errors_Is err ErrKeyNotFound \<and> CreateIfAbsent cfg then cas_write kv key data 0 w1
          else (case NotFound cfg of
                  Some nf \<Rightarrow> if errors_Is err ErrKeyNotFound then (Inl nf, w1)
                             else (Inl (wrap2 ErrRead err), w1)
                | None \<Rightarrow> (Inl (wrap2 ErrRead err), w1)))"

definition Put ::
  "('w, 'd) kv \<Rightarrow> 'w pause \<Rightarrow> string \<Rightarrow> CASConfig \<Rightarrow> 'd \<Rightarrow> 'w \<Rightarrow> unit result \<times> 'w" where
  "Put kv pause key cfg data w = retryCAS cfg ''put'' key pause (Put_attempt kv key cfg data) w"

definition DeleteIf_attempt ::
  "('w, 'd) kv \<Rightarrow> ('d \<Rightarrow> 'v result) \<Rightarrow> string \<Rightarrow> CASConfig \<Rightarrow> ('v \<Rightarrow> go_error option) \<Rightarrow>
   'w \<Rightarrow> 'v result \<times> 'w" where
  "DeleteIf_attempt kv dec key cfg check w =
     (case kv_Get kv w key of
        (Inl gerr, w1) \<Rightarrow>
          (case NotFound cfg of
             Some nf \<Rightarrow> if errors_Is gerr ErrKeyNotFound then (Inl nf, w1)
                        else (Inl (wrap2 ErrRead gerr), w1)
           | None \<Rightarrow> (Inl (wrap2 ErrRead gerr), w1))
      | (Inr (d, r), w1) \<Rightarrow>
          (case dec d of
             Inl uerr \<Rightarrow> (Inl (wrap2 ErrDecode uerr), w1)
           | Inr v \<Rightarrow>
               (case check v of
                  Some cerr \<Rightarrow> (Inl cerr, w1)
                | None \<Rightarrow>
                    (case kv_Delete kv w1 key (Some r) of
                       (Inl derr, w2) \<Rightarrow> (Inl (wrap2 ErrWrite derr), w2)
                     | (Inr u, w2) \<Rightarrow> (Inr v, w2)))))"

definition DeleteIf ::
  "('w, 'd) kv \<Rightarrow> 'w pause \<Rightarrow> ('d \<Rightarrow> 'v result) \<Rightarrow> string \<Rightarrow> CASConfig \<Rightarrow>
   ('v \<Rightarrow> go_error option) \<Rightarrow> 'w \<Rightarrow> 'v result \<times> 'w" where
  "DeleteIf kv pause dec key cfg check w =
     retryCAS cfg ''delete'' key pause (DeleteIf_attempt kv dec key cfg check) w"

text \<open>\<open>Claim\<close> returns the value it removed, or \<open>None\<close> for its \<open>notFound\<close> answer.\<close>

definition Claim_attempt ::
  "('w, 'd) kv \<Rightarrow> ('d \<Rightarrow> 'v result) \<Rightarrow> string \<Rightarrow> 'w \<Rightarrow> 'v option result \<times> 'w" where
  "Claim_attempt kv dec key w =
     (case kv_Get kv w key of
        (Inl gerr, w1) \<Rightarrow>
          if errors_Is gerr ErrKeyNotFound then (Inr None, w1)
          else (Inl (wrap2 ErrRead gerr), w1)
      | (Inr (d, r), w1) \<Rightarrow>
          (case dec d of
             Inl uerr \<Rightarrow> (Inl (wrap2 ErrDecode uerr), w1)
           | Inr v \<Rightarrow>
               (case kv_Delete kv w1 key (Some r) of
                  (Inl derr, w2) \<Rightarrow> (Inl (wrap2 ErrWrite derr), w2)
                | (Inr u, w2) \<Rightarrow> (Inr (Some v), w2))))"

definition Claim ::
  "('w, 'd) kv \<Rightarrow> 'w pause \<Rightarrow> ('d \<Rightarrow> 'v result) \<Rightarrow> string \<Rightarrow> CASConfig \<Rightarrow> 'w \<Rightarrow>
   'v option result \<times> 'w" where
  "Claim kv pause dec key cfg w = retryCAS cfg ''claim'' key pause (Claim_attempt kv dec key) w"

section \<open>What the code relies on of the bucket\<close>

text \<open>
  A view of a world: what is \<open>stored\<close> under each key (value and revision), the value each
  revision ever had (\<open>hist\<close>), and what the other clients may do (\<open>rely\<close>).
\<close>

record ('w, 'd) kv_view =
  stored :: "'w \<Rightarrow> string \<Rightarrow> ('d \<times> nat) option"
  hist :: "'w \<Rightarrow> string \<Rightarrow> nat \<Rightarrow> 'd option"
  rely :: "'w \<Rightarrow> 'w \<Rightarrow> bool"

text \<open>One atomic change of key \<open>k\<close> to \<open>new\<close>, between two spells of interference.\<close>

definition kv_step :: "('w, 'd) kv_view \<Rightarrow> 'w \<Rightarrow> string \<Rightarrow> ('d \<times> nat) option \<Rightarrow> 'w \<Rightarrow> bool" where
  "kv_step V w k new w' \<longleftrightarrow>
     stored V w' = (stored V w)(k := new) \<and>
     (\<forall>k' r d. hist V w k' r = Some d \<longrightarrow> hist V w' k' r = Some d)"

definition committed ::
  "('w, 'd) kv_view \<Rightarrow> 'w \<Rightarrow> string \<Rightarrow> ('d \<times> nat) option \<Rightarrow> ('d \<times> nat) option \<Rightarrow> 'w \<Rightarrow> bool" where
  "committed V w k old new w' \<longleftrightarrow>
     (\<exists>wm wm'. rely V w wm \<and> stored V wm k = old \<and> kv_step V wm k new wm' \<and> rely V wm' w')"

text \<open>The outcome of a guarded write: acknowledged means committed, a conflict means nothing
  happened, any other error leaves both possible.\<close>

definition write_outcome ::
  "('w, 'd) kv_view \<Rightarrow> 'w \<Rightarrow> 'r result \<Rightarrow> ('r \<Rightarrow> 'w \<Rightarrow> bool) \<Rightarrow> 'w \<Rightarrow> bool" where
  "write_outcome V w x C w' \<longleftrightarrow>
     (case x of
        Inr r \<Rightarrow> C r w'
      | Inl e \<Rightarrow> rely V w w' \<or> (\<not> isConflict e \<and> (\<exists>r. C r w')))"

definition view_ok :: "('w, 'd) kv_view \<Rightarrow> bool" where
  "view_ok V \<longleftrightarrow>
     (\<forall>w. rely V w w) \<and>
     (\<forall>a b c. rely V a b \<longrightarrow> rely V b c \<longrightarrow> rely V a c) \<and>
     (\<forall>w w' k r d. rely V w w' \<longrightarrow> hist V w k r = Some d \<longrightarrow> hist V w' k r = Some d) \<and>
     (\<forall>w k r d. stored V w k = Some (d, r) \<longrightarrow> hist V w k r = Some d) \<and>
     (\<forall>w k. hist V w k 0 = None)"

definition Get_law :: "('w, 'd) kv \<Rightarrow> ('w, 'd) kv_view \<Rightarrow> bool" where
  "Get_law kv V \<longleftrightarrow> (\<forall>w k x w'. kv_Get kv w k = (x, w') \<longrightarrow>
     rely V w w' \<and> (\<forall>d r. x = Inr (d, r) \<longrightarrow> hist V w' k r = Some d))"

definition Create_law :: "('w, 'd) kv \<Rightarrow> ('w, 'd) kv_view \<Rightarrow> bool" where
  "Create_law kv V \<longleftrightarrow> (\<forall>w k d x w'. kv_Create kv w k d = (x, w') \<longrightarrow>
     write_outcome V w x (\<lambda>r. committed V w k None (Some (d, r))) w')"

definition Update_law :: "('w, 'd) kv \<Rightarrow> ('w, 'd) kv_view \<Rightarrow> bool" where
  "Update_law kv V \<longleftrightarrow> (\<forall>w k d r0 x w'. kv_Update kv w k d r0 = (x, w') \<longrightarrow>
     write_outcome V w x (\<lambda>r w'. \<exists>d0. committed V w k (Some (d0, r0)) (Some (d, r)) w') w')"

definition Put_law :: "('w, 'd) kv \<Rightarrow> ('w, 'd) kv_view \<Rightarrow> bool" where
  "Put_law kv V \<longleftrightarrow> (\<forall>w k d x w'. kv_Put kv w k d = (x, w') \<longrightarrow>
     write_outcome V w x (\<lambda>r w'. \<exists>old. committed V w k old (Some (d, r)) w') w')"

definition Delete_law :: "('w, 'd) kv \<Rightarrow> ('w, 'd) kv_view \<Rightarrow> bool" where
  "Delete_law kv V \<longleftrightarrow> (\<forall>w k r0 x w'. kv_Delete kv w k r0 = (x, w') \<longrightarrow>
     write_outcome V w x
       (\<lambda>_ w'. \<exists>old. committed V w k old None w' \<and>
          (\<forall>r. r0 = Some r \<longrightarrow> (\<exists>d0. old = Some (d0, r)))) w')"

definition Purge_law :: "('w, 'd) kv \<Rightarrow> ('w, 'd) kv_view \<Rightarrow> bool" where
  "Purge_law kv V \<longleftrightarrow> (\<forall>w k x w'. kv_Purge kv w k = (x, w') \<longrightarrow>
     write_outcome V w x (\<lambda>_ w'. \<exists>old. committed V w k old None w') w')"

definition Keys_law :: "('w, 'd) kv \<Rightarrow> ('w, 'd) kv_view \<Rightarrow> bool" where
  "Keys_law kv V \<longleftrightarrow>
     (\<forall>w x w'. kv_Keys kv w = (x, w') \<longrightarrow> rely V w w') \<and>
     (\<forall>w f x w'. kv_Watch kv w f = (x, w') \<longrightarrow> rely V w w')"

definition kv_lawful :: "('w, 'd) kv \<Rightarrow> ('w, 'd) kv_view \<Rightarrow> bool" where
  "kv_lawful kv V \<longleftrightarrow> view_ok V \<and> Get_law kv V \<and> Create_law kv V \<and> Update_law kv V \<and>
     Put_law kv V \<and> Delete_law kv V \<and> Purge_law kv V \<and> Keys_law kv V"

definition pause_lawful :: "'w pause \<Rightarrow> ('w, 'd) kv_view \<Rightarrow> bool" where
  "pause_lawful pause V \<longleftrightarrow> (\<forall>w n x w'. pause w n = (x, w') \<longrightarrow> rely V w w')"

lemma lawful_view: "kv_lawful kv V \<Longrightarrow> view_ok V"
  by (simp add: kv_lawful_def)

lemma rely_refl: "view_ok V \<Longrightarrow> rely V w w"
  by (simp add: view_ok_def)

lemma rely_trans: "view_ok V \<Longrightarrow> rely V a b \<Longrightarrow> rely V b c \<Longrightarrow> rely V a c"
  unfolding view_ok_def by blast

lemma rely_hist: "view_ok V \<Longrightarrow> rely V w w' \<Longrightarrow> hist V w k r = Some d \<Longrightarrow> hist V w' k r = Some d"
  unfolding view_ok_def by blast

lemma stored_hist: "view_ok V \<Longrightarrow> stored V w k = Some (d, r) \<Longrightarrow> hist V w k r = Some d"
  unfolding view_ok_def by blast

lemma hist_zero: "view_ok V \<Longrightarrow> hist V w k 0 = None"
  unfolding view_ok_def by blast

lemma Get_rely: "kv_lawful kv V \<Longrightarrow> kv_Get kv w k = (x, w') \<Longrightarrow> rely V w w'"
  by (simp add: kv_lawful_def Get_law_def)

lemma Get_hist: "kv_lawful kv V \<Longrightarrow> kv_Get kv w k = (Inr (d, r), w') \<Longrightarrow> hist V w' k r = Some d"
  by (simp add: kv_lawful_def Get_law_def)

lemma Create_lawful:
  "kv_lawful kv V \<Longrightarrow> kv_Create kv w k d = (x, w') \<Longrightarrow>
   write_outcome V w x (\<lambda>r. committed V w k None (Some (d, r))) w'"
  by (simp add: kv_lawful_def Create_law_def)

lemma Update_lawful:
  "kv_lawful kv V \<Longrightarrow> kv_Update kv w k d r0 = (x, w') \<Longrightarrow>
   write_outcome V w x (\<lambda>r w'. \<exists>d0. committed V w k (Some (d0, r0)) (Some (d, r)) w') w'"
  by (simp add: kv_lawful_def Update_law_def)

lemma Put_lawful:
  "kv_lawful kv V \<Longrightarrow> kv_Put kv w k d = (x, w') \<Longrightarrow>
   write_outcome V w x (\<lambda>r w'. \<exists>old. committed V w k old (Some (d, r)) w') w'"
  by (simp add: kv_lawful_def Put_law_def)

lemma Delete_lawful:
  "kv_lawful kv V \<Longrightarrow> kv_Delete kv w k r0 = (x, w') \<Longrightarrow>
   write_outcome V w x
     (\<lambda>_ w'. \<exists>old. committed V w k old None w' \<and> (\<forall>r. r0 = Some r \<longrightarrow> (\<exists>d0. old = Some (d0, r)))) w'"
  by (simp add: kv_lawful_def Delete_law_def)

lemma Purge_lawful:
  "kv_lawful kv V \<Longrightarrow> kv_Purge kv w k = (x, w') \<Longrightarrow>
   write_outcome V w x (\<lambda>_ w'. \<exists>old. committed V w k old None w') w'"
  by (simp add: kv_lawful_def Purge_law_def)

lemma Keys_rely: "kv_lawful kv V \<Longrightarrow> kv_Keys kv w = (x, w') \<Longrightarrow> rely V w w'"
  by (simp add: kv_lawful_def Keys_law_def)

lemma Watch_rely: "kv_lawful kv V \<Longrightarrow> kv_Watch kv w f = (x, w') \<Longrightarrow> rely V w w'"
  by (simp add: kv_lawful_def Keys_law_def)

lemma pause_rely: "pause_lawful pause V \<Longrightarrow> pause w n = (x, w') \<Longrightarrow> rely V w w'"
  unfolding pause_lawful_def by blast

text \<open>A revision read earlier and found stored later still holds the value read.\<close>

lemma revision_value:
  assumes "view_ok V" and "hist V w k r = Some d" and "rely V w wm" and "stored V wm k = Some (d0, r)"
  shows "d0 = d"
proof -
  from assms(1,3,2) have "hist V wm k r = Some d" by (rule rely_hist)
  moreover from assms(1,4) have "hist V wm k r = Some d0" by (rule stored_hist)
  ultimately show ?thesis by simp
qed

lemma committed_relyL: "view_ok V \<Longrightarrow> rely V w w0 \<Longrightarrow> committed V w0 k old new w' \<Longrightarrow> committed V w k old new w'"
  unfolding committed_def by (blast intro: rely_trans)

lemma committed_at:
  assumes "view_ok V" and "hist V w k r = Some d" and "committed V w k (Some (d0, r)) new w'"
  shows "d0 = d"
  using assms(3) revision_value [OF assms(1,2)] unfolding committed_def by blast

lemma isConflict_wrap [simp]: "isConflict (wrap2 ErrWrite e) = isConflict e"
  by (simp add: isConflict_def ErrWrite_def)

section \<open>The retry loop under interference\<close>

text \<open>
  The loop stops either on an attempt it made from a world the other clients could reach, whose
  outcome is its result and is no conflict, or with an error and no effect of its own.
\<close>

definition quiet_conflict :: "('w, 'd) kv_view \<Rightarrow> ('w \<Rightarrow> 'r result \<times> 'w) \<Rightarrow> bool" where
  "quiet_conflict V attempt \<longleftrightarrow>
     (\<forall>w e w'. attempt w = (Inl e, w') \<longrightarrow> isConflict e \<longrightarrow> rely V w w')"

lemma retryCAS_from_cases:
  assumes V: "view_ok V" and P: "pause_lawful pause V"
    and conflict: "quiet_conflict V attempt"
    and run: "retryCAS_from n i l cfg op key pause attempt w = (res, w')"
  shows "(\<exists>w0. rely V w w0 \<and> attempt w0 = (res, w') \<and> (\<forall>e. res = Inl e \<longrightarrow> \<not> isConflict e)) \<or>
         (rely V w w' \<and> (\<exists>e. res = Inl e))"
  using run
proof (induction n arbitrary: i l w)
  case 0
  then show ?case using rely_refl [OF V] by auto
next
  case (Suc n)
  obtain x w1 where a: "attempt w = (x, w1)" by fastforce
  show ?case
  proof (cases x)
    case (Inr r)
    with a Suc.prems show ?thesis using rely_refl [OF V] by fastforce
  next
    case (Inl err)
    show ?thesis
    proof (cases "isConflict err")
      case False
      with a Inl Suc.prems show ?thesis using rely_refl [OF V] by fastforce
    next
      case True
      from conflict a Inl True have r1: "rely V w w1" unfolding quiet_conflict_def by blast
      obtain y w2 where p: "pause w1 (casBackoffBase * (i + 1)) = (y, w2)" by fastforce
      have r2: "rely V w w2" by (rule rely_trans [OF V r1 pause_rely [OF P p]])
      show ?thesis
      proof (cases y)
        case (Some cerr)
        with a Inl True p Suc.prems r2 show ?thesis by auto
      next
        case None
        with a Inl True p Suc.prems
        have "retryCAS_from n (Suc i) (Some err) cfg op key pause attempt w2 = (res, w')" by simp
        from Suc.IH [OF this] show ?thesis using rely_trans [OF V r2] by metis
      qed
    qed
  qed
qed

lemma write_outcome_relyL:
  assumes V: "view_ok V" and r: "rely V w w1" and o: "write_outcome V w1 x C1 w'"
    and C: "\<And>r w'. C1 r w' \<Longrightarrow> C r w'"
  shows "write_outcome V w x C w'"
proof (cases x)
  case (Inl e)
  with o consider "rely V w1 w'" | y where "\<not> isConflict e" "C1 y w'"
    by (auto simp: write_outcome_def)
  then show ?thesis
  proof cases
    case 1
    with Inl rely_trans [OF V r] show ?thesis by (simp add: write_outcome_def)
  next
    case 2
    with Inl C show ?thesis by (auto simp: write_outcome_def)
  qed
next
  case (Inr y)
  with o C show ?thesis by (simp add: write_outcome_def)
qed

lemma write_outcome_quiet:
  "(\<And>w x w'. attempt w = (x, w') \<Longrightarrow> write_outcome V w x (C w) w') \<Longrightarrow> quiet_conflict V attempt"
  by (fastforce simp: quiet_conflict_def write_outcome_def)

text \<open>So the loop as a whole has the outcome of a single guarded write.\<close>

lemma retryCAS_outcome:
  assumes V: "view_ok V" and P: "pause_lawful pause V"
    and each: "\<And>w x w'. attempt w = (x, w') \<Longrightarrow> write_outcome V w x (C w) w'"
    and shift: "\<And>w w0 r w'. rely V w w0 \<Longrightarrow> C w0 r w' \<Longrightarrow> C w r w'"
    and run: "retryCAS cfg op key pause attempt w = (x, w')"
  shows "write_outcome V w x (C w) w'"
proof -
  from retryCAS_from_cases [OF V P write_outcome_quiet [of attempt V C, OF each]
      run [unfolded retryCAS_def]]
  consider (settled) w0 where "rely V w w0" "attempt w0 = (x, w')" "\<forall>e. x = Inl e \<longrightarrow> \<not> isConflict e"
    | (quiet) e where "rely V w w'" "x = Inl e" by blast
  then show ?thesis
  proof cases
    case settled
    from each [OF settled(2)] have "write_outcome V w0 x (C w0) w'" .
    from write_outcome_relyL [OF V settled(1) this shift [OF settled(1)]] show ?thesis .
  next
    case quiet
    then show ?thesis by (simp add: write_outcome_def)
  qed
qed

section \<open>Updates are atomic\<close>

text \<open>
  \<open>applied\<close>: at one instant the key went from (the encoding of) \<open>v0\<close>, or from absent with the
  zero value where the caller allows it, to the encoding of \<open>v\<close>.
\<close>

definition applied ::
  "('w, 'd) kv_view \<Rightarrow> ('d \<Rightarrow> 'v result) \<Rightarrow> ('v \<Rightarrow> 'd result) \<Rightarrow> 'v \<Rightarrow> bool \<Rightarrow> string \<Rightarrow>
   'v \<Rightarrow> 'v \<Rightarrow> 'w \<Rightarrow> 'w \<Rightarrow> bool" where
  "applied V dec enc zero absent_ok key v0 v w w' \<longleftrightarrow>
     (\<exists>old data r. committed V w key old (Some (data, r)) w' \<and> enc v = Inr data \<and>
        (case old of None \<Rightarrow> absent_ok \<and> v0 = zero | Some (d0, r0) \<Rightarrow> dec d0 = Inr v0))"

text \<open>\<open>observed\<close>: \<open>v0\<close> is a value the key had at some revision, or the zero value of an absent key.\<close>

definition observed ::
  "('w, 'd) kv_view \<Rightarrow> ('d \<Rightarrow> 'v result) \<Rightarrow> 'v \<Rightarrow> bool \<Rightarrow> string \<Rightarrow> 'v \<Rightarrow> 'w \<Rightarrow> bool" where
  "observed V dec zero absent_ok key v0 w \<longleftrightarrow>
     (absent_ok \<and> v0 = zero) \<or> (\<exists>d r. hist V w key r = Some d \<and> dec d = Inr v0)"

definition update_effect ::
  "('w, 'd) kv_view \<Rightarrow> ('d \<Rightarrow> 'v result) \<Rightarrow> ('v \<Rightarrow> 'd result) \<Rightarrow> 'v \<Rightarrow> bool \<Rightarrow> string \<Rightarrow>
   ('v, 'a) mutator \<Rightarrow> 'w \<Rightarrow> 'v \<times> 'a \<Rightarrow> 'w \<Rightarrow> bool" where
  "update_effect V dec enc zero absent_ok key mutate w r w' \<longleftrightarrow>
     (\<exists>v0 changed. mutate v0 = Inr (changed, fst r, snd r) \<and>
        (if changed then applied V dec enc zero absent_ok key v0 (fst r) w w'
         else rely V w w' \<and> observed V dec zero absent_ok key v0 w'))"

lemma update_effect_relyL:
  assumes V: "view_ok V" and r: "rely V w w0"
    and e: "update_effect V dec enc zero ok key mutate w0 x w'"
  shows "update_effect V dec enc zero ok key mutate w x w'"
proof -
  from e obtain v0 changed where m: "mutate v0 = Inr (changed, fst x, snd x)"
    and c: "if changed then applied V dec enc zero ok key v0 (fst x) w0 w'
      else rely V w0 w' \<and> observed V dec zero ok key v0 w'"
    unfolding update_effect_def by blast
  show ?thesis
  proof (cases changed)
    case True
    with c have "applied V dec enc zero ok key v0 (fst x) w w'"
      using committed_relyL [OF V r] unfolding applied_def by fastforce
    with m True show ?thesis unfolding update_effect_def by (intro exI [of _ v0] exI [of _ True]) simp
  next
    case False
    with c have "rely V w w' \<and> observed V dec zero ok key v0 w'" using rely_trans [OF V r] by simp
    with m False show ?thesis unfolding update_effect_def by (intro exI [of _ v0] exI [of _ False]) simp
  qed
qed

lemma cas_write_outcome:
  assumes L: "kv_lawful kv V" and run: "cas_write kv key data r w = (x, w')"
  shows "write_outcome V w x (\<lambda>_ w'. \<exists>old r'. committed V w key old (Some (data, r')) w' \<and>
           (if r = 0 then old = None else \<exists>d0. old = Some (d0, r))) w'"
proof (cases "r = 0")
  case True
  obtain y w1 where "kv_Create kv w key data = (y, w1)" by fastforce
  with Create_lawful [OF L this] True run show ?thesis
    by (auto simp: cas_write_def write_outcome_def split: sum.splits)
next
  case False
  obtain y w1 where "kv_Update kv w key data r = (y, w1)" by fastforce
  with Update_lawful [OF L this] False run show ?thesis
    by (auto simp: cas_write_def write_outcome_def split: sum.splits)
qed

lemma Update_commit_outcome:
  assumes L: "kv_lawful kv V"
    and read: "if r = 0 then ok \<and> value = zero else \<exists>d. hist V w key r = Some d \<and> dec d = Inr value"
    and run: "Update_commit kv enc key mutate value r w = (x, w')"
  shows "write_outcome V w x (update_effect V dec enc zero ok key mutate w) w'"
proof -
  note V = lawful_view [OF L]
  show ?thesis
  proof (cases "mutate value")
    case (Inl e)
    with run rely_refl [OF V] show ?thesis by (auto simp: Update_commit_def write_outcome_def)
  next
    case (Inr m)
    obtain changed v a where m: "m = (changed, v, a)" by (cases m)
    show ?thesis
    proof (cases "changed \<and> (\<exists>data. enc v = Inr data)")
      case False
      from read have "observed V dec zero ok key value w"
        by (auto simp: observed_def split: if_splits)
      with False Inr m run rely_refl [OF V] show ?thesis
        by (auto simp: Update_commit_def write_outcome_def update_effect_def split: sum.splits if_splits)
    next
      case True
      then obtain data where data: "enc v = Inr data" and changed by blast
      obtain y w1 where y: "cas_write kv key data r w = (y, w1)" by fastforce
      have app: "applied V dec enc zero ok key value v w w1"
        if "committed V w key old (Some (data, r')) w1"
          "if r = 0 then old = None else \<exists>d0. old = Some (d0, r)" for old r'
      proof (cases "r = 0")
        case True
        with that read data show ?thesis unfolding applied_def by (intro exI [of _ old]) auto
      next
        case False
        with that(2) obtain d0 where old: "old = Some (d0, r)" by auto
        from False read obtain d where d: "hist V w key r = Some d" "dec d = Inr value" by auto
        from committed_at [OF V d(1)] that(1) old have "d0 = d" by blast
        with that(1) d(2) data old show ?thesis unfolding applied_def by (intro exI [of _ old]) auto
      qed
      from cas_write_outcome [OF L y] app
      have "write_outcome V w y (\<lambda>_ w'. applied V dec enc zero ok key value v w w') w1"
        by (auto simp: write_outcome_def split: sum.splits)
      with Inr m data \<open>changed\<close> y run show ?thesis
        by (auto simp: Update_commit_def write_outcome_def update_effect_def split: sum.splits)
    qed
  qed
qed

lemma Update_attempt_outcome:
  assumes L: "kv_lawful kv V"
    and run: "Update_attempt kv dec enc zero key cfg mutate w = (x, w')"
  shows "write_outcome V w x (update_effect V dec enc zero (CreateIfAbsent cfg) key mutate w) w'"
proof -
  note V = lawful_view [OF L]
  obtain y w1 where y: "kv_Get kv w key = (y, w1)" by fastforce
  note r1 = Get_rely [OF L y]
  have lift: "write_outcome V w1 x (update_effect V dec enc zero (CreateIfAbsent cfg) key mutate w1) w' \<Longrightarrow> ?thesis"
    by (rule write_outcome_relyL [OF V r1 _ update_effect_relyL [OF V r1]])
  consider (err) e where "x = Inl e" "w' = w1"
    | (present) d r v where "y = Inr (d, r)" "dec d = Inr v"
        "Update_commit kv enc key mutate v r w1 = (x, w')"
    | (absent) "CreateIfAbsent cfg" "Update_commit kv enc key mutate zero 0 w1 = (x, w')"
    using run y by (auto simp: Update_attempt_def split: sum.splits if_splits option.splits)
  then show ?thesis
  proof cases
    case err
    with r1 show ?thesis by (simp add: write_outcome_def)
  next
    case present
    from Get_hist [OF L y [unfolded present(1)]] have h: "hist V w1 key r = Some d" .
    with hist_zero [OF V] have "r \<noteq> 0" by (cases "r = 0") auto
    with h present(2) show ?thesis
      by (intro lift Update_commit_outcome [OF L _ present(3)]) auto
  next
    case absent
    then show ?thesis by (intro lift Update_commit_outcome [OF L _ absent(2)]) auto
  qed
qed

lemma Update_outcome:
  assumes L: "kv_lawful kv V" and P: "pause_lawful pause V"
    and run: "Update kv pause dec enc zero key cfg mutate w = (x, w')"
  shows "write_outcome V w x (update_effect V dec enc zero (CreateIfAbsent cfg) key mutate w) w'"
  by (rule retryCAS_outcome [OF lawful_view [OF L] P Update_attempt_outcome [OF L]
        update_effect_relyL [OF lawful_view [OF L]] run [unfolded Update_def]])

text \<open>
  Which failures are safe to retry blindly: an error that does not carry the \<open>ErrWrite\<close> label, or
  that is a conflict (the exhausted budget included), left the key alone.
\<close>

lemma cas_write_error: "cas_write kv key data r w = (Inl e, w') \<Longrightarrow> \<exists>e'. e = wrap2 ErrWrite e'"
  by (auto simp: cas_write_def split: prod.splits sum.splits if_splits)

lemma Update_attempt_unlabelled:
  assumes L: "kv_lawful kv V"
    and run: "Update_attempt kv dec enc zero key cfg mutate w = (Inl e, w')"
    and e: "\<not> errors_Is e ''kvutil: write''"
  shows "rely V w w'"
proof -
  obtain y w1 where y: "kv_Get kv w key = (y, w1)" by fastforce
  have "w' = w1"
  proof -
    have "w2 = w1" if "Update_commit kv enc key mutate v r w1 = (Inl e, w2)" for v r w2
      using that e by (auto simp: Update_commit_def ErrWrite_def split: sum.splits if_splits prod.splits
          dest!: cas_write_error)
    with run y show ?thesis
      by (auto simp: Update_attempt_def split: sum.splits if_splits option.splits)
  qed
  with Get_rely [OF L y] show ?thesis by simp
qed

lemma Update_unapplied:
  assumes L: "kv_lawful kv V" and P: "pause_lawful pause V"
    and run: "Update kv pause dec enc zero key cfg mutate w = (Inl e, w')"
    and e: "isConflict e \<or> \<not> errors_Is e ''kvutil: write''"
  shows "rely V w w'"
proof -
  note V = lawful_view [OF L]
  have "quiet_conflict V (Update_attempt kv dec enc zero key cfg mutate)"
    by (rule write_outcome_quiet) (rule Update_attempt_outcome [OF L])
  from retryCAS_from_cases [OF V P this run [unfolded Update_def retryCAS_def]]
  consider (settled) w0 where "rely V w w0"
      "Update_attempt kv dec enc zero key cfg mutate w0 = (Inl e, w')" "\<not> isConflict e"
    | (quiet) "rely V w w'" by blast
  then show ?thesis
  proof cases
    case settled
    with e have "rely V w0 w'" using Update_attempt_unlabelled [OF L settled(2)] by blast
    with rely_trans [OF V settled(1)] show ?thesis .
  qed
qed

section \<open>Claims and guarded deletes\<close>

text \<open>\<open>removed\<close>: at one instant the key went from the encoding of \<open>v\<close> to absent.\<close>

definition removed ::
  "('w, 'd) kv_view \<Rightarrow> ('d \<Rightarrow> 'v result) \<Rightarrow> string \<Rightarrow> 'v \<Rightarrow> 'w \<Rightarrow> 'w \<Rightarrow> bool" where
  "removed V dec key v w w' \<longleftrightarrow>
     (\<exists>d r. dec d = Inr v \<and> committed V w key (Some (d, r)) None w')"

lemma removed_relyL:
  "view_ok V \<Longrightarrow> rely V w w0 \<Longrightarrow> removed V dec key v w0 w' \<Longrightarrow> removed V dec key v w w'"
  unfolding removed_def by (blast intro: committed_relyL)

lemma guarded_delete_outcome:
  assumes L: "kv_lawful kv V" and h: "hist V w key r = Some d" and d: "dec d = Inr v"
    and run: "kv_Delete kv w key (Some r) = (x, w')"
  shows "write_outcome V w x (\<lambda>_ w'. removed V dec key v w w') w'"
proof -
  have "removed V dec key v w w'"
    if "committed V w key old None w'" "\<forall>s. Some r = Some s \<longrightarrow> (\<exists>d0. old = Some (d0, s))" for old w'
  proof -
    from that(2) obtain d0 where old: "old = Some (d0, r)" by blast
    with committed_at [OF lawful_view [OF L] h] that(1) have "d0 = d" by blast
    with that(1) old d show ?thesis unfolding removed_def by blast
  qed
  with Delete_lawful [OF L run] show ?thesis
    by (fastforce simp: write_outcome_def split: sum.splits)
qed

definition claim_effect ::
  "('w, 'd) kv_view \<Rightarrow> ('d \<Rightarrow> 'v result) \<Rightarrow> string \<Rightarrow> 'w \<Rightarrow> 'v option \<Rightarrow> 'w \<Rightarrow> bool" where
  "claim_effect V dec key w c w' \<longleftrightarrow>
     (case c of Some v \<Rightarrow> removed V dec key v w w' | None \<Rightarrow> rely V w w')"

lemma Claim_attempt_outcome:
  assumes L: "kv_lawful kv V" and run: "Claim_attempt kv dec key w = (x, w')"
  shows "write_outcome V w x (claim_effect V dec key w) w'"
proof -
  note V = lawful_view [OF L]
  obtain y w1 where y: "kv_Get kv w key = (y, w1)" by fastforce
  note r1 = Get_rely [OF L y]
  show ?thesis
  proof (cases "\<exists>d r v. y = Inr (d, r) \<and> dec d = Inr v")
    case False
    with run y r1 show ?thesis
      by (auto simp: Claim_attempt_def write_outcome_def claim_effect_def split: sum.splits if_splits)
  next
    case True
    then obtain d r v where dv: "y = Inr (d, r)" "dec d = Inr v" by blast
    obtain z w2 where z: "kv_Delete kv w1 key (Some r) = (z, w2)" by fastforce
    have "write_outcome V w z (\<lambda>_ w'. claim_effect V dec key w (Some v) w') w2"
      unfolding claim_effect_def option.case
      by (rule write_outcome_relyL [OF V r1 guarded_delete_outcome [where dec = dec, OF L
              Get_hist [OF L y [unfolded dv(1)]] dv(2) z] removed_relyL [OF V r1]])
    with run y dv z show ?thesis
      by (auto simp: Claim_attempt_def write_outcome_def split: sum.splits)
  qed
qed

lemma claim_effect_relyL:
  "view_ok V \<Longrightarrow> rely V w w0 \<Longrightarrow> claim_effect V dec key w0 c w' \<Longrightarrow> claim_effect V dec key w c w'"
  by (auto simp: claim_effect_def split: option.splits intro: removed_relyL rely_trans)

lemma Claim_outcome:
  assumes L: "kv_lawful kv V" and P: "pause_lawful pause V"
    and run: "Claim kv pause dec key cfg w = (x, w')"
  shows "write_outcome V w x (claim_effect V dec key w) w'"
  by (rule retryCAS_outcome [OF lawful_view [OF L] P Claim_attempt_outcome [OF L]
        claim_effect_relyL [OF lawful_view [OF L]] run [unfolded Claim_def]])

lemma DeleteIf_attempt_outcome:
  assumes L: "kv_lawful kv V" and run: "DeleteIf_attempt kv dec key cfg check w = (x, w')"
  shows "write_outcome V w x (\<lambda>v w'. check v = None \<and> removed V dec key v w w') w'"
proof -
  note V = lawful_view [OF L]
  obtain y w1 where y: "kv_Get kv w key = (y, w1)" by fastforce
  note r1 = Get_rely [OF L y]
  show ?thesis
  proof (cases "\<exists>d r v. y = Inr (d, r) \<and> dec d = Inr v \<and> check v = None")
    case False
    with run y r1 show ?thesis
      by (auto simp: DeleteIf_attempt_def write_outcome_def split: sum.splits if_splits option.splits)
  next
    case True
    then obtain d r v where dv: "y = Inr (d, r)" "dec d = Inr v" "check v = None" by blast
    obtain z w2 where z: "kv_Delete kv w1 key (Some r) = (z, w2)" by fastforce
    have "write_outcome V w z (\<lambda>_ w'. removed V dec key v w w') w2"
      by (rule write_outcome_relyL [OF V r1 guarded_delete_outcome [where dec = dec, OF L
              Get_hist [OF L y [unfolded dv(1)]] dv(2) z] removed_relyL [OF V r1]])
    with run y dv z show ?thesis
      by (auto simp: DeleteIf_attempt_def write_outcome_def split: sum.splits)
  qed
qed

lemma DeleteIf_outcome:
  assumes L: "kv_lawful kv V" and P: "pause_lawful pause V"
    and run: "DeleteIf kv pause dec key cfg check w = (x, w')"
  shows "write_outcome V w x (\<lambda>v w'. check v = None \<and> removed V dec key v w w') w'"
  by (rule retryCAS_outcome [OF lawful_view [OF L] P, where
        C = "\<lambda>w v w'. check v = None \<and> removed V dec key v w w'"])
    (use DeleteIf_attempt_outcome [OF L] removed_relyL [OF lawful_view [OF L]] run
     in \<open>auto simp: DeleteIf_def\<close>)

section \<open>Replacing a value\<close>

definition put_effect ::
  "('w, 'd) kv_view \<Rightarrow> bool \<Rightarrow> string \<Rightarrow> 'd \<Rightarrow> 'w \<Rightarrow> 'w \<Rightarrow> bool" where
  "put_effect V absent_ok key data w w' \<longleftrightarrow>
     (\<exists>old r. committed V w key old (Some (data, r)) w' \<and> (old = None \<longrightarrow> absent_ok))"

lemma put_effect_relyL:
  "view_ok V \<Longrightarrow> rely V w w0 \<Longrightarrow> put_effect V ok key data w0 w' \<Longrightarrow> put_effect V ok key data w w'"
  unfolding put_effect_def by (blast intro: committed_relyL)

lemma cas_write_put:
  assumes L: "kv_lawful kv V" and run: "cas_write kv key data r w = (x, w')" and "r = 0 \<longrightarrow> ok"
  shows "write_outcome V w x (\<lambda>_ w'. put_effect V ok key data w w') w'"
proof (rule write_outcome_relyL [OF lawful_view [OF L] rely_refl [OF lawful_view [OF L]]
      cas_write_outcome [OF L run]])
  fix y w'
  assume "\<exists>old r'. committed V w key old (Some (data, r')) w' \<and>
    (if r = 0 then old = None else \<exists>d0. old = Some (d0, r))"
  with assms(3) show "put_effect V ok key data w w'"
    unfolding put_effect_def by (auto split: if_splits)
qed

lemma Put_attempt_outcome:
  assumes L: "kv_lawful kv V" and run: "Put_attempt kv key cfg data w = (x, w')"
  shows "write_outcome V w x (\<lambda>_ w'. put_effect V (CreateIfAbsent cfg) key data w w') w'"
proof -
  note V = lawful_view [OF L]
  obtain y w1 where y: "kv_Get kv w key = (y, w1)" by fastforce
  note r1 = Get_rely [OF L y]
  consider (err) e where "x = Inl e" "w' = w1"
    | (wr) r where "cas_write kv key data r w1 = (x, w')" "r = 0 \<longrightarrow> CreateIfAbsent cfg"
    using run y Get_hist [OF L] hist_zero [OF V]
    by (fastforce simp: Put_attempt_def split: sum.splits if_splits option.splits)
  then show ?thesis
  proof cases
    case err
    with r1 show ?thesis by (simp add: write_outcome_def)
  next
    case wr
    show ?thesis
      by (rule write_outcome_relyL [OF V r1 cas_write_put [OF L wr] put_effect_relyL [OF V r1]])
  qed
qed

lemma Put_outcome:
  assumes L: "kv_lawful kv V" and P: "pause_lawful pause V"
    and run: "Put kv pause key cfg data w = (x, w')"
  shows "write_outcome V w x (\<lambda>_ w'. put_effect V (CreateIfAbsent cfg) key data w w') w'"
  by (rule retryCAS_outcome [OF lawful_view [OF L] P Put_attempt_outcome [OF L]
        put_effect_relyL [OF lawful_view [OF L]] run [unfolded Put_def]])

section \<open>Sequences of guarded changes\<close>

text \<open>\<open>changes V key P Q w w'\<close>: from \<open>w\<close> to \<open>w'\<close> the key was changed, apart from interference, only
  from entries that satisfy \<open>P\<close> to entries that satisfy \<open>Q\<close>.\<close>

inductive changes ::
  "('w, 'd) kv_view \<Rightarrow> string \<Rightarrow> (('d \<times> nat) option \<Rightarrow> bool) \<Rightarrow> (('d \<times> nat) option \<Rightarrow> bool) \<Rightarrow> 'w \<Rightarrow> 'w \<Rightarrow> bool"
  for V :: "('w, 'd) kv_view" and key P Q where
  idle: "rely V w w' \<Longrightarrow> changes V key P Q w w'"
| change: "changes V key P Q w w1 \<Longrightarrow> P (stored V w1 key) \<Longrightarrow> kv_step V w1 key new w2 \<Longrightarrow> Q new \<Longrightarrow>
    rely V w2 w3 \<Longrightarrow> changes V key P Q w w3"

lemma changes_relyR:
  assumes "view_ok V" and "changes V key P Q w w1" and "rely V w1 w2"
  shows "changes V key P Q w w2"
  using assms(2,3)
proof (induction rule: changes.induct)
  case (idle w w')
  then show ?case by (blast intro: changes.idle rely_trans [OF assms(1)])
next
  case (change w w1 new w2 w3)
  from changes.change [OF change.hyps(1-4) rely_trans [OF assms(1) change.hyps(5) change.prems]] show ?case .
qed

lemma changes_trans:
  assumes "view_ok V" and "changes V key P Q w1 w2" and "changes V key P Q w w1"
  shows "changes V key P Q w w2"
  using assms(2,3)
proof (induction rule: changes.induct)
  case (idle w1 w')
  then show ?case using changes_relyR [OF assms(1)] by blast
next
  case (change w' w1 new w2 w3)
  from changes.change [OF change.IH [OF change.prems] change.hyps(2-5)] show ?case .
qed

lemma changes_committed:
  assumes "view_ok V" and "committed V w key old new w'" and "P old" and "Q new"
  shows "changes V key P Q w w'"
  using assms(2-4) unfolding committed_def by (blast intro: changes.intros)

lemma changes_outcome:
  assumes "view_ok V" and "write_outcome V w x C w'" and "\<And>r. C r w' \<Longrightarrow> changes V key P Q w w'"
  shows "changes V key P Q w w'"
  using assms by (auto simp: write_outcome_def intro: changes.idle split: sum.splits)

lemma changes_hist:
  assumes "view_ok V" and "changes V key P Q w w'" and "hist V w k r = Some d"
  shows "hist V w' k r = Some d"
  using assms(2,3)
proof (induction rule: changes.induct)
  case (idle w w')
  then show ?case by (blast intro: rely_hist [OF assms(1)])
next
  case (change w w1 new w2 w3)
  then have "hist V w2 k r = Some d" unfolding kv_step_def by blast
  then show ?case by (rule rely_hist [OF assms(1) change.hyps(5)])
qed

lemma committed_hist:
  assumes "view_ok V" and "committed V w key old (Some (d, r)) w'"
  shows "hist V w' key r = Some d"
proof -
  from assms(2) obtain wm wm' where "kv_step V wm key (Some (d, r)) wm'" "rely V wm' w'"
    unfolding committed_def by blast
  then have "stored V wm' key = Some (d, r)" by (simp add: kv_step_def)
  from rely_hist [OF assms(1) \<open>rely V wm' w'\<close> stored_hist [OF assms(1) this]] show ?thesis .
qed

section \<open>Records kept under compare-and-swap\<close>

text \<open>
  The contract a client of \<open>Update\<close> offers: a record type with an invariant that holds of its
  zero value and that each of its mutators keeps. Its stored record then keeps the invariant
  whatever the other clients do, as long as they keep it too.
\<close>

definition record_inv ::
  "('w, 'd) kv_view \<Rightarrow> ('d \<Rightarrow> 'v result) \<Rightarrow> ('v \<Rightarrow> bool) \<Rightarrow> string \<Rightarrow> 'w \<Rightarrow> bool" where
  "record_inv V dec good key w \<longleftrightarrow>
     (\<forall>d r. stored V w key = Some (d, r) \<longrightarrow> (\<exists>v. dec d = Inr v \<and> good v))"

definition codec_ok :: "('d \<Rightarrow> 'v result) \<Rightarrow> ('v \<Rightarrow> 'd result) \<Rightarrow> bool" where
  "codec_ok dec enc \<longleftrightarrow> (\<forall>v d. enc v = Inr d \<longrightarrow> dec d = Inr v)"

definition rely_keeps :: "('w, 'd) kv_view \<Rightarrow> ('w \<Rightarrow> bool) \<Rightarrow> bool" where
  "rely_keeps V P \<longleftrightarrow> (\<forall>w w'. rely V w w' \<longrightarrow> P w \<longrightarrow> P w')"

text \<open>The record after a sequence of mutators, a failing one leaving it as it was.\<close>

fun apply_mutators :: "('op \<Rightarrow> ('v, 'a) mutator) \<Rightarrow> 'op list \<Rightarrow> 'v \<Rightarrow> 'v" where
  "apply_mutators mutate [] v = v"
| "apply_mutators mutate (p # ps) v =
     apply_mutators mutate ps (case mutate p v of Inl e \<Rightarrow> v | Inr (c, v', a) \<Rightarrow> if c then v' else v)"

locale cas_update =
  fixes good :: "'v \<Rightarrow> bool" and mutate :: "'op \<Rightarrow> ('v, 'a) mutator"
  assumes good_mutate: "good v \<Longrightarrow> mutate p v = Inr (True, v', a) \<Longrightarrow> good v'"
begin

lemma run_inv: "good v \<Longrightarrow> good (apply_mutators mutate ps v)"
proof (induction ps arbitrary: v)
  case (Cons p ps)
  then show ?case by (auto split: sum.splits if_splits intro: good_mutate)
qed simp

lemma applied_inv:
  assumes C: "codec_ok dec enc" and K: "rely_keeps V (record_inv V dec good key)"
    and m: "mutate p v0 = Inr (True, v, a)" and w: "record_inv V dec good key w"
    and zero: "ok \<Longrightarrow> good zero"
    and app: "applied V dec enc zero ok key v0 v w w'"
  shows "record_inv V dec good key w'"
proof -
  from app obtain old data r wm wm' where r1: "rely V w wm" and old: "stored V wm key = old"
    and st: "kv_step V wm key (Some (data, r)) wm'" and r2: "rely V wm' w'"
    and enc: "enc v = Inr data"
    and v0: "case old of None \<Rightarrow> ok \<and> v0 = zero | Some (d0, r0) \<Rightarrow> dec d0 = Inr v0"
    unfolding applied_def committed_def by blast
  from K r1 w have "record_inv V dec good key wm" unfolding rely_keeps_def by blast
  with v0 old zero have "good v0"
    by (cases old) (auto simp: record_inv_def)
  with m have "good v" by (blast intro: good_mutate)
  with enc C have "dec data = Inr v \<and> good v" by (simp add: codec_ok_def)
  with st have "record_inv V dec good key wm'" by (simp add: record_inv_def kv_step_def)
  with K r2 show ?thesis unfolding rely_keeps_def by blast
qed

lemma Update_inv:
  assumes L: "kv_lawful kv V" and P: "pause_lawful pause V"
    and C: "codec_ok dec enc" and K: "rely_keeps V (record_inv V dec good key)"
    and w: "record_inv V dec good key w" and zero: "CreateIfAbsent cfg \<Longrightarrow> good zero"
    and run: "Update kv pause dec enc zero key cfg (mutate p) w = (x, w')"
  shows "record_inv V dec good key w'"
proof -
  have keep: "rely V w w' \<Longrightarrow> ?thesis" using K w unfolding rely_keeps_def by blast
  moreover have "update_effect V dec enc zero (CreateIfAbsent cfg) key (mutate p) w r w' \<Longrightarrow> ?thesis" for r
    using keep applied_inv [OF C K _ w zero] unfolding update_effect_def
    by (cases r) (auto split: if_splits)
  ultimately show ?thesis using Update_outcome [OF L P run]
    by (auto simp: write_outcome_def split: sum.splits)
qed

end

text \<open>A record whose operations may also create it: the zero value is good too.\<close>

locale cas_record = cas_update good mutate
  for good :: "'v \<Rightarrow> bool" and mutate :: "'op \<Rightarrow> ('v, 'a) mutator" +
  fixes zero :: 'v
  assumes good_zero: "good zero"

end
