(* ===== verification/Membucket.thy ===== *)
theory Membucket
  imports Kvutil
begin

text \<open>
  A concrete lawful bucket, so that the hypotheses \<open>kv_lawful\<close> and \<open>pause_lawful\<close> are known to
  be satisfiable and the properties that rest on them can be evaluated. It is an append-only log
  (newest entry first; a revision is a position in it, an entry without a value a delete marker)
  together with a script of foreign writes: after each read the next foreign write that \<open>F\<close>
  admits is applied, so a read-modify-write can lose its race.
\<close>

record 'd mem =
  mem_log :: "(string \<times> 'd option) list"
  mem_script :: "(string \<times> 'd) list"

fun log_stored :: "(string \<times> 'd option) list \<Rightarrow> string \<Rightarrow> ('d \<times> nat) option" where
  "log_stored [] k = None"
| "log_stored ((k', x) # es) k =
     (if k' = k then map_option (\<lambda>d. (d, Suc (length es))) x else log_stored es k)"

fun log_hist :: "(string \<times> 'd option) list \<Rightarrow> string \<Rightarrow> nat \<Rightarrow> 'd option" where
  "log_hist [] k r = None"
| "log_hist ((k', x) # es) k r =
     (if r = Suc (length es) then (if k' = k then x else None) else log_hist es k r)"

text \<open>What a watcher of every key delivers: the newest entry of each key, oldest first.\<close>

fun log_entries :: "(string \<times> 'd option) list \<Rightarrow> 'd kv_entry option list" where
  "log_entries [] = []"
| "log_entries ((k, x) # es) =
     Some \<lparr>e_key = k, e_revision = Suc (length es), e_put = (x \<noteq> None), e_value = the x\<rparr>
     # filter (\<lambda>e. map_option e_key e \<noteq> Some k) (log_entries es)"

definition mem_append :: "string \<Rightarrow> 'd option \<Rightarrow> 'd mem \<Rightarrow> 'd mem" where
  "mem_append k x w = w\<lparr>mem_log := (k, x) # mem_log w\<rparr>"

definition mem_foreign :: "(string \<times> 'd \<Rightarrow> bool) \<Rightarrow> 'd mem \<Rightarrow> 'd mem" where
  "mem_foreign F w =
     (case mem_script w of
        [] \<Rightarrow> w
      | (k, d) # s \<Rightarrow> (if F (k, d) then mem_append k (Some d) w else w)\<lparr>mem_script := s\<rparr>)"

definition mem_kv :: "(string \<times> 'd \<Rightarrow> bool) \<Rightarrow> ('d mem, 'd) kv" where
  "mem_kv F =
     \<lparr>kv_Get = (\<lambda>w k. (case log_stored (mem_log w) k of
                  None \<Rightarrow> Inl (Sentinel ErrKeyNotFound) | Some e \<Rightarrow> Inr e, mem_foreign F w)),
      kv_Create = (\<lambda>w k d. if log_stored (mem_log w) k = None
                  then (Inr (Suc (length (mem_log w))), mem_append k (Some d) w)
                  else (Inl (Sentinel ErrKeyExists), w)),
      kv_Update = (\<lambda>w k d r. if map_option snd (log_stored (mem_log w) k) = Some r
                  then (Inr (Suc (length (mem_log w))), mem_append k (Some d) w)
                  else (Inl (Sentinel ErrKeyRevisionMismatch), w)),
      kv_Put = (\<lambda>w k d. (Inr (Suc (length (mem_log w))), mem_append k (Some d) w)),
      kv_Delete = (\<lambda>w k r. if r = None \<or> map_option snd (log_stored (mem_log w) k) = r
                  then (Inr (), mem_append k None w)
                  else (Inl (Sentinel ErrKeyRevisionMismatch), w)),
      kv_Purge = (\<lambda>w k. (Inr (), mem_append k None w)),
      kv_Keys = (\<lambda>w. (let ks = filter (\<lambda>k. log_stored (mem_log w) k \<noteq> None) (remdups (map fst (mem_log w)))
                 in if ks = [] then Inl (Sentinel ErrNoKeysFound) else Inr ks, w)),
      kv_Watch = (\<lambda>w f. (Inr (rev (log_entries (mem_log w)) @ [None]), w))\<rparr>"

definition mem_pause :: "'d mem pause" where
  "mem_pause w n = (None, w)"

definition mem_view :: "(string \<times> 'd \<Rightarrow> bool) \<Rightarrow> ('d mem, 'd) kv_view" where
  "mem_view F =
     \<lparr>stored = (\<lambda>w. log_stored (mem_log w)), hist = (\<lambda>w. log_hist (mem_log w)),
      rely = (\<lambda>w w'. \<exists>n. w' = (mem_foreign F ^^ n) w)\<rparr>"

section \<open>The bucket is lawful\<close>

lemma log_hist_bound: "log_hist es k r = Some d \<Longrightarrow> 0 < r \<and> r \<le> length es"
  by (induction es k r rule: log_hist.induct) (auto split: if_splits)

lemma log_hist_Cons: "log_hist es k r = Some d \<Longrightarrow> log_hist (e # es) k r = Some d"
  using log_hist_bound [of es k r d] by (cases e) auto

lemma log_stored_hist: "log_stored es k = Some (d, r) \<Longrightarrow> log_hist es k r = Some d"
proof (induction es k rule: log_stored.induct)
  case (2 k' x es k)
  then show ?case
  proof (cases "k' = k")
    case False
    with 2 have "log_hist es k r = Some d" by simp
    then show ?thesis by (rule log_hist_Cons)
  qed auto
qed simp

lemma mem_foreign_hist:
  "log_hist (mem_log w) k r = Some d \<Longrightarrow> log_hist (mem_log (mem_foreign F w)) k r = Some d"
  by (auto simp: mem_foreign_def mem_append_def split: list.splits dest: log_hist_bound)

lemma mem_foreign_pow_hist:
  "log_hist (mem_log w) k r = Some d \<Longrightarrow> log_hist (mem_log ((mem_foreign F ^^ n) w)) k r = Some d"
  by (induction n) (auto intro: mem_foreign_hist)

lemma mem_view_ok: "view_ok (mem_view F)"
proof -
  have "rely (mem_view F) w w" for w by (auto simp: mem_view_def intro: exI [of _ 0])
  moreover have "rely (mem_view F) a b \<Longrightarrow> rely (mem_view F) b c \<Longrightarrow> rely (mem_view F) a c" for a b c
  proof -
    assume "rely (mem_view F) a b" "rely (mem_view F) b c"
    then obtain n m where "b = (mem_foreign F ^^ n) a" "c = (mem_foreign F ^^ m) b"
      by (auto simp: mem_view_def)
    then have "c = (mem_foreign F ^^ (m + n)) a" by (simp add: funpow_add)
    then show ?thesis by (auto simp: mem_view_def)
  qed
  ultimately show ?thesis
    by (auto simp: view_ok_def mem_view_def intro: mem_foreign_pow_hist log_stored_hist
        dest: log_hist_bound) (metis log_hist_bound less_irrefl not_Some_eq)
qed

lemma mem_append_committed:
  "stored (mem_view F) w k = old \<Longrightarrow>
   committed (mem_view F) w k old (map_option (\<lambda>d. (d, Suc (length (mem_log w)))) x) (mem_append k x w)"
  unfolding committed_def kv_step_def
  by (intro exI [of _ w] exI [of _ "mem_append k x w"])
    (auto simp: mem_append_def fun_eq_iff rely_refl [OF mem_view_ok],
     auto simp: mem_view_def mem_append_def dest: log_hist_bound)

lemma mem_rely_refl: "rely (mem_view F) w w"
  by (rule rely_refl [OF mem_view_ok])

lemma mem_view_stored [simp]: "stored (mem_view F) w = log_stored (mem_log w)"
  by (simp add: mem_view_def)

lemma mem_Get_law: "Get_law (mem_kv F) (mem_view F)"
  by (auto simp: Get_law_def mem_kv_def mem_view_def split: option.splits
      intro: exI [of _ "Suc 0"] mem_foreign_hist log_stored_hist)

lemma mem_Create_law: "Create_law (mem_kv F) (mem_view F)"
  using mem_append_committed [where F = F and x = "Some d" and old = None for d] mem_rely_refl
  by (fastforce simp: Create_law_def mem_kv_def write_outcome_def isConflict_def)

lemma mem_Update_law: "Update_law (mem_kv F) (mem_view F)"
proof -
  have "write_outcome (mem_view F) w x
      (\<lambda>r w'. \<exists>d0. committed (mem_view F) w k (Some (d0, r0)) (Some (d, r)) w') w'"
    if upd: "kv_Update (mem_kv F) w k d r0 = (x, w')" for w k d r0 x w'
  proof (cases "map_option snd (log_stored (mem_log w) k) = Some r0")
    case True
    then obtain d0 where "stored (mem_view F) w k = Some (d0, r0)" by auto
    from mem_append_committed [OF this, of "Some d"] upd True show ?thesis
      by (auto simp: mem_kv_def write_outcome_def)
  next
    case False
    with upd show ?thesis by (auto simp: mem_kv_def write_outcome_def mem_rely_refl)
  qed
  then show ?thesis by (simp add: Update_law_def)
qed

lemma mem_Put_law: "Put_law (mem_kv F) (mem_view F)"
proof -
  have "\<exists>old. committed (mem_view F) w k old (Some (d, Suc (length (mem_log w)))) (mem_append k (Some d) w)"
    for w k d
    using mem_append_committed [OF refl, of F w k "Some d"] by auto
  then show ?thesis by (auto simp: Put_law_def mem_kv_def write_outcome_def)
qed

lemma mem_Delete_law: "Delete_law (mem_kv F) (mem_view F)"
proof -
  have "write_outcome (mem_view F) w x
      (\<lambda>_ w'. \<exists>old. committed (mem_view F) w k old None w' \<and>
          (\<forall>r. r0 = Some r \<longrightarrow> (\<exists>d0. old = Some (d0, r)))) w'"
    if del: "kv_Delete (mem_kv F) w k r0 = (x, w')" for w k r0 x w'
  proof (cases "r0 = None \<or> map_option snd (log_stored (mem_log w) k) = r0")
    case True
    with mem_append_committed [OF refl, of F w k None] del show ?thesis
      by (auto simp: mem_kv_def write_outcome_def intro!: exI [of _ "log_stored (mem_log w) k"])
  next
    case False
    with del show ?thesis by (auto simp: mem_kv_def write_outcome_def mem_rely_refl)
  qed
  then show ?thesis by (simp add: Delete_law_def)
qed

lemma mem_Purge_law: "Purge_law (mem_kv F) (mem_view F)"
  using mem_append_committed [OF refl, of F _ _ None]
  by (auto simp: Purge_law_def mem_kv_def write_outcome_def)

lemma mem_Keys_law: "Keys_law (mem_kv F) (mem_view F)"
  by (simp add: Keys_law_def mem_kv_def mem_rely_refl)

lemma mem_kv_lawful: "kv_lawful (mem_kv F) (mem_view F)"
  unfolding kv_lawful_def
  by (intro conjI mem_view_ok mem_Get_law mem_Create_law mem_Update_law mem_Put_law mem_Delete_law
      mem_Purge_law mem_Keys_law)

lemma mem_pause_lawful: "pause_lawful mem_pause (mem_view F)"
  by (simp add: pause_lawful_def mem_pause_def mem_rely_refl)

text \<open>Foreign writes of good records keep the stored record good.\<close>

lemma mem_foreign_keeps:
  assumes "\<And>k d. F (k, d) \<Longrightarrow> \<exists>v. dec d = Inr v \<and> good v"
    and "record_inv (mem_view F) dec good key w"
  shows "record_inv (mem_view F) dec good key (mem_foreign F w)"
  using assms by (auto simp: record_inv_def mem_foreign_def mem_append_def split: list.splits if_splits)

lemma mem_rely_keeps:
  assumes "\<And>k d. F (k, d) \<Longrightarrow> \<exists>v. dec d = Inr v \<and> good v"
  shows "rely_keeps (mem_view F) (record_inv (mem_view F) dec good key)"
proof -
  have "record_inv (mem_view F) dec good key ((mem_foreign F ^^ n) w)"
    if "record_inv (mem_view F) dec good key w" for n w
    by (induction n) (auto simp: that intro: mem_foreign_keeps [OF assms])
  then show ?thesis by (auto simp: rely_keeps_def mem_view_def)
qed

lemma codec_ok_id: "codec_ok Inr Inr"
  by (simp add: codec_ok_def)

end
