(* ===== verification/Kvutil_Claims.thy ===== *)
theory Kvutil_Claims
  imports Membucket
begin

text \<open>
  What \<open>kvutil\<close> promises its callers, stated over any lawful bucket and evaluated on the
  in-memory one: atomic updates, failures that leave the key alone, exclusive claims and deletes
  that judge the value they remove.
\<close>

text \<open>
  C1. \<open>Update\<close> is atomic. If it returns a value and the mutator reported a change, then at one
  instant during the call the key held the very value the mutator was given (or was absent, where
  the caller allows it, and the mutator was given the zero value), and at that instant it was
  replaced by the encoding of the mutator's result. If the mutator reported no change, nothing was
  written and the mutator saw a value the key really had. Lost races are retried and never merged.
\<close>

theorem Update_atomic:
  assumes "kv_lawful kv V" and "pause_lawful pause V"
    and "Update kv pause dec enc zero key cfg mutate w = (Inr (v, a), w')"
  shows "\<exists>v0 changed. mutate v0 = Inr (changed, v, a) \<and>
     (if changed
      then \<exists>old data r. committed V w key old (Some (data, r)) w' \<and> enc v = Inr data \<and>
             (case old of None \<Rightarrow> CreateIfAbsent cfg \<and> v0 = zero
              | Some (d0, r0) \<Rightarrow> dec d0 = Inr v0)
      else rely V w w' \<and>
           (CreateIfAbsent cfg \<and> v0 = zero \<or> (\<exists>d r. hist V w' key r = Some d \<and> dec d = Inr v0)))"
  using Update_outcome [OF assms]
  by (simp only: write_outcome_def update_effect_def applied_def observed_def sum.case fst_conv snd_conv)

definition add_one :: "(nat, unit) mutator" where
  "add_one n = Inr (True, n + 1, ())"

definition cas_default :: CASConfig where
  "cas_default = \<lparr>Attempts = 0, CreateIfAbsent = True, NotFound = None, Exhausted = None\<rparr>"

text \<open>A counter at 3, and a foreign write of 7 that lands between the read and the write: the
  update is retried and adds one to the foreign value.\<close>

definition raced :: "nat mem" where
  "raced = \<lparr>mem_log = [(''n'', Some 3)], mem_script = [(''n'', 7)]\<rparr>"

abbreviation anyone :: "string \<times> nat \<Rightarrow> bool" where "anyone \<equiv> \<lambda>_. True"

lemma raced_update:
  "Update (mem_kv anyone) mem_pause Inr Inr 0 ''n'' cas_default add_one raced =
     (Inr (8, ()), \<lparr>mem_log = [(''n'', Some 8), (''n'', Some 7), (''n'', Some 3)], mem_script = []\<rparr>)"
  by (simp add: Update_def retryCAS_def cas_attempts_def casAttempts_def cas_default_def raced_def
      eval_nat_numeral Update_attempt_def Update_commit_def mem_kv_def add_one_def cas_write_def
      mem_foreign_def mem_append_def mem_pause_def isConflict_def ErrWrite_def)

theorem Update_atomic_witness:
  "\<exists>v0 changed. add_one v0 = Inr (changed, 8, ()) \<and>
     (if changed
      then \<exists>old data r. committed (mem_view anyone) raced ''n'' old (Some (data, r))
               \<lparr>mem_log = [(''n'', Some 8), (''n'', Some 7), (''n'', Some 3)], mem_script = []\<rparr> \<and>
             Inr 8 = (Inr data :: nat result) \<and>
             (case old of None \<Rightarrow> CreateIfAbsent cas_default \<and> v0 = 0
              | Some (d0, r0) \<Rightarrow> (Inr d0 :: nat result) = Inr v0)
      else rely (mem_view anyone) raced
               \<lparr>mem_log = [(''n'', Some 8), (''n'', Some 7), (''n'', Some 3)], mem_script = []\<rparr> \<and>
           (CreateIfAbsent cas_default \<and> v0 = 0 \<or>
            (\<exists>d r. hist (mem_view anyone)
                \<lparr>mem_log = [(''n'', Some 8), (''n'', Some 7), (''n'', Some 3)], mem_script = []\<rparr>
                ''n'' r = Some d \<and> (Inr d :: nat result) = Inr v0)))"
  by (rule Update_atomic [OF mem_kv_lawful mem_pause_lawful raced_update])

text \<open>
  A failed \<open>Update\<close> says whether it may have written. An error that is a revision conflict
  (so also the error of an exhausted retry budget), or that does not carry the \<open>ErrWrite\<close> label
  (a read, decode, encode, mutator or context error), leaves the key to the other clients: nothing
  this call did is visible.
\<close>

theorem Update_failure_leaves_key:
  assumes "kv_lawful kv V" and "pause_lawful pause V"
    and "Update kv pause dec enc zero key cfg mutate w = (Inl e, w')"
    and "isConflict e \<or> \<not> errors_Is e ''kvutil: write''"
  shows "rely V w w'"
  by (rule Update_unapplied [OF assms])

definition refuse :: "(nat, unit) mutator" where
  "refuse n = Inl (Text ''refused'')"

lemma raced_refused:
  "Update (mem_kv anyone) mem_pause Inr Inr 0 ''n'' cas_default refuse raced =
     (Inl (Text ''refused''), \<lparr>mem_log = [(''n'', Some 7), (''n'', Some 3)], mem_script = []\<rparr>)"
  by (simp add: Update_def retryCAS_def cas_attempts_def casAttempts_def cas_default_def raced_def
      eval_nat_numeral Update_attempt_def Update_commit_def mem_kv_def refuse_def
      mem_foreign_def mem_append_def isConflict_def)

theorem Update_failure_leaves_key_example:
  "rely (mem_view anyone) raced \<lparr>mem_log = [(''n'', Some 7), (''n'', Some 3)], mem_script = []\<rparr>"
  by (rule Update_failure_leaves_key [OF mem_kv_lawful mem_pause_lawful raced_refused]) simp

text \<open>
  C2. A claim is exclusive. Once one \<open>Claim\<close> has returned the value of a key, and as long as no
  other client stores the key again, no later \<open>Claim\<close> of that key returns a value, whatever its
  codec, configuration and clock.
\<close>

theorem Claim_exclusive:
  assumes "kv_lawful kv V" and "pause_lawful pause V" and "pause_lawful pause' V"
    and "\<forall>a b. rely V a b \<longrightarrow> stored V a key = None \<longrightarrow> stored V b key = None"
    and "Claim kv pause dec key cfg w = (Inr (Some v), w1)"
    and "rely V w1 w2"
    and "Claim kv pause' dec' key cfg' w2 = (x, w3)"
  shows "x \<noteq> Inr (Some v')"
proof
  assume x: "x = Inr (Some v')"
  from Claim_outcome [OF assms(1,2,5)] obtain wm wm' where
    "stored V wm' = (stored V wm)(key := None)" and "rely V wm' w1"
    by (auto simp: write_outcome_def claim_effect_def removed_def committed_def kv_step_def)
  then have "stored V wm' key = None" and "rely V wm' w1" by auto
  with assms(4,6) have gone: "stored V w2 key = None" by blast
  from Claim_outcome [OF assms(1,3,7)] x obtain wm d r where
    "rely V w2 wm" "stored V wm key = Some (d, r)"
    by (auto simp: write_outcome_def claim_effect_def removed_def committed_def)
  with gone assms(4) show False by fastforce
qed

definition claimable :: "nat mem" where
  "claimable = \<lparr>mem_log = [(''n'', Some 3)], mem_script = []\<rparr>"

abbreviation noone :: "string \<times> nat \<Rightarrow> bool" where "noone \<equiv> \<lambda>_. False"

lemma noone_foreign: "mem_log (mem_foreign noone w) = mem_log w"
  by (auto simp: mem_foreign_def split: list.splits)

lemma noone_absent:
  "rely (mem_view noone) a b \<Longrightarrow> stored (mem_view noone) a k = None \<Longrightarrow> stored (mem_view noone) b k = None"
proof -
  have "mem_log ((mem_foreign noone ^^ n) a) = mem_log a" for n
    by (induction n) (simp_all add: noone_foreign)
  then show "rely (mem_view noone) a b \<Longrightarrow> stored (mem_view noone) a k = None \<Longrightarrow>
      stored (mem_view noone) b k = None"
    by (auto simp: mem_view_def)
qed

lemma claimed_once:
  "Claim (mem_kv noone) mem_pause (Inr :: nat \<Rightarrow> nat result) ''n'' cas_default claimable =
     (Inr (Some 3), \<lparr>mem_log = [(''n'', None), (''n'', Some 3)], mem_script = []\<rparr>)"
  by (simp add: Claim_def retryCAS_def cas_attempts_def casAttempts_def cas_default_def
      claimable_def eval_nat_numeral Claim_attempt_def mem_kv_def mem_foreign_def mem_append_def)

theorem Claim_exclusive_witness:
  "\<exists>w1. Claim (mem_kv noone) mem_pause (Inr :: nat \<Rightarrow> nat result) ''n'' cas_default claimable = (Inr (Some 3), w1) \<and>
     fst (Claim (mem_kv noone) mem_pause (Inr :: nat \<Rightarrow> nat result) ''n'' cas_default w1) \<noteq> Inr (Some 3)"
  using Claim_exclusive [OF mem_kv_lawful mem_pause_lawful mem_pause_lawful _ claimed_once mem_rely_refl
      prod.collapse [symmetric], where v' = 3] noone_absent claimed_once
  by blast

text \<open>
  \<open>DeleteIf\<close> never judges a stale value. If it returns \<open>v\<close>, its precondition accepted \<open>v\<close>,
  and at one instant the key went from an encoding of that same \<open>v\<close> to absent.
\<close>

theorem DeleteIf_checked:
  assumes "kv_lawful kv V" and "pause_lawful pause V"
    and "DeleteIf kv pause dec key cfg check w = (Inr v, w')"
  shows "check v = None \<and> (\<exists>d r. dec d = Inr v \<and> committed V w key (Some (d, r)) None w')"
  using DeleteIf_outcome [OF assms] unfolding write_outcome_def removed_def by simp

definition above_five :: "nat \<Rightarrow> go_error option" where
  "above_five n = (if n > 5 then None else Some (Text ''in use''))"

definition raced_up :: "nat mem" where
  "raced_up = \<lparr>mem_log = [(''n'', Some 6)], mem_script = [(''n'', 7)]\<rparr>"

lemma raced_delete:
  "DeleteIf (mem_kv anyone) mem_pause (Inr :: nat \<Rightarrow> nat result) ''n'' cas_default above_five raced_up =
     (Inr 7, \<lparr>mem_log = [(''n'', None), (''n'', Some 7), (''n'', Some 6)], mem_script = []\<rparr>)"
  by (simp add: DeleteIf_def retryCAS_def cas_attempts_def casAttempts_def cas_default_def raced_up_def
      eval_nat_numeral DeleteIf_attempt_def mem_kv_def above_five_def
      mem_foreign_def mem_append_def mem_pause_def isConflict_def ErrWrite_def)

theorem DeleteIf_checked_example:
  "above_five 7 = None \<and>
   (\<exists>d r. (Inr d :: nat result) = Inr 7 \<and> committed (mem_view anyone) raced_up ''n'' (Some (d, r)) None
      \<lparr>mem_log = [(''n'', None), (''n'', Some 7), (''n'', Some 6)], mem_script = []\<rparr>)"
  by (rule DeleteIf_checked [OF mem_kv_lawful mem_pause_lawful raced_delete])

end
