(* ===== verification/Clustersize.thy ===== *)
theory Clustersize
  imports Prelude
begin

text \<open>
  \<open>foundation/state/clustersize\<close>: the write-once declaration of the cluster's node count and the
  replica count every stream is created with. The package variable \<open>nodes\<close> is passed explicitly;
  0 means undeclared.
\<close>

definition MaxReplicas :: int where "MaxReplicas = 5"

definition MinHANodes :: int where "MinHANodes = 3"

definition ErrUndeclared :: go_error where
  "ErrUndeclared =
     Sentinel ''cluster size was never declared, so the stream replica count is unknown''"

definition go_itoa_int :: "int \<Rightarrow> string" where
  "go_itoa_int i = (if i < 0 then ''-'' @ go_itoa (nat (- i)) else go_itoa (nat i))"

text \<open>\<open>Declare\<close> answers with its error, if any, and the declaration after the call.\<close>

definition Declare :: "int \<Rightarrow> int \<Rightarrow> go_error option \<times> int" where
  "Declare n nodes =
     (let n = max n 0
      in if nodes = 0 then (None, n)
         else if nodes \<noteq> n
         then (Some (Text (''cluster size was already declared as '' @ go_itoa_int nodes
                 @ '' nodes and cannot be redeclared as '' @ go_itoa_int n)), nodes)
         else (None, nodes))"

definition ReplicasFor :: "int \<Rightarrow> int" where
  "ReplicasFor nodes =
     (let r = min (max nodes 1) MaxReplicas in if r mod 2 = 0 then r - 1 else r)"

definition Replicas :: "int \<Rightarrow> int result" where
  "Replicas nodes = (if nodes < 1 then Inl ErrUndeclared else Inr (ReplicasFor nodes))"

definition Permanent :: "go_error \<Rightarrow> bool" where
  "Permanent err = errors_Is err
     ''cluster size was never declared, so the stream replica count is unknown''"

section \<open>Properties\<close>

text \<open>How many members of a Raft group of \<open>r\<close> may fail while a majority remains.\<close>

definition survivable :: "int \<Rightarrow> int" where
  "survivable r = (r - 1) div 2"

lemma ReplicasFor_range: "1 \<le> ReplicasFor n" "ReplicasFor n \<le> 5" "odd (ReplicasFor n)"
  unfolding ReplicasFor_def MaxReplicas_def Let_def by (auto split: if_splits) presburger+

lemma ReplicasFor_le: "1 \<le> n \<Longrightarrow> ReplicasFor n \<le> n"
  unfolding ReplicasFor_def MaxReplicas_def Let_def by auto

text \<open>
  The replica count is the best a cluster of \<open>n\<close> nodes can have: it is odd, at most
  \<open>MaxReplicas\<close> and at most \<open>n\<close>; no other admissible count survives more failures, and every
  admissible count that survives as many needs at least as many copies.
\<close>

lemma ReplicasFor_optimal:
  assumes "1 \<le> n"
  shows "odd (ReplicasFor n) \<and> 1 \<le> ReplicasFor n \<and> ReplicasFor n \<le> min n MaxReplicas \<and>
     (\<forall>m. 1 \<le> m \<and> m \<le> min n MaxReplicas \<longrightarrow>
        survivable m \<le> survivable (ReplicasFor n) \<and>
        (survivable m = survivable (ReplicasFor n) \<longrightarrow> ReplicasFor n \<le> m))"
proof -
  have "survivable m \<le> survivable (ReplicasFor n)"
    and "survivable m = survivable (ReplicasFor n) \<longrightarrow> ReplicasFor n \<le> m"
    if "1 \<le> m" "m \<le> min n MaxReplicas" for m
    using that assms unfolding survivable_def ReplicasFor_def MaxReplicas_def Let_def
    by (auto split: if_splits) presburger+
  then show ?thesis
    using assms ReplicasFor_range [of n] ReplicasFor_le [of n] by (simp add: MaxReplicas_def)
qed

lemma ReplicasFor_optimal_example:
  "ReplicasFor 4 = 3 \<and> survivable 4 \<le> survivable (ReplicasFor 4) \<and> (1::int) \<le> 4"
  using ReplicasFor_optimal [of 4] by (simp add: ReplicasFor_def MaxReplicas_def)

lemma Declare_once:
  "snd (Declare m (snd (Declare n nodes))) \<noteq> snd (Declare n nodes) \<Longrightarrow> snd (Declare n nodes) = 0"
  by (auto simp: Declare_def Let_def split: if_splits)

lemma Permanent_Replicas: "Replicas nodes = Inl e \<Longrightarrow> Permanent e"
  by (auto simp: Replicas_def Permanent_def ErrUndeclared_def split: if_splits)

end
