(* ===== verification/Kvbuckets.thy ===== *)
theory Kvbuckets
  imports Kvutil Clustersize "HOL-Library.List_Lexorder" "HOL-Library.Char_ord"
begin

text \<open>
  Buckets as resources: opening and creating them at the cluster's replica count
  (\<open>foundation/state/kvutil/kvutil.go\<close>, \<open>replicas.go\<close>), the durability check (\<open>durable.go\<close>), the
  schema version key and the migration runner (\<open>foundation/state/migrate/kv.go\<close>).

  The JetStream manager is a parameter, a record of the calls the code makes. The two package
  variables these files keep, the declared node count and the raise throttle, form the record
  \<open>Proc\<close> and are threaded through. Error texts keep the fixed parts and the names and numbers they
  embed; durations and quoted raw bytes are left out of them.
\<close>

section \<open>Stream configuration\<close>

datatype RetentionPolicy = LimitsPolicy | InterestPolicy | WorkQueuePolicy
datatype StorageType = FileStorage | MemoryStorage
datatype PersistMode = DefaultPersistMode | AsyncPersistMode
datatype DiscardPolicy = DiscardOld | DiscardNew

record StreamConfig =
  sc_Name :: string
  sc_Retention :: RetentionPolicy
  sc_MaxAge :: int
  sc_AllowMsgTTL :: bool
  sc_SubjectDeleteMarkerTTL :: int
  sc_Storage :: StorageType
  sc_PersistMode :: PersistMode
  sc_MaxBytes :: int
  sc_MaxMsgs :: int
  sc_MaxMsgSize :: int
  sc_MaxMsgsPerSubject :: int
  sc_Discard :: DiscardPolicy
  sc_DiscardNewPerSubject :: bool
  sc_NoAck :: bool
  sc_Sealed :: bool
  sc_Mirror :: bool
  sc_Sources :: nat
  sc_Replicas :: int

record PeerInfo =
  peer_Name :: string
  peer_Current :: bool
  peer_Offline :: bool

record ClusterInfo =
  cl_Name :: string
  cl_Leader :: string
  cl_Replicas :: "PeerInfo list"

record StreamInfo =
  si_Config :: StreamConfig
  si_Cluster :: "ClusterInfo option"

text \<open>\<open>CheckDurable\<close> answers with the first setting under which an accepted write could be lost.\<close>

definition CheckDurable :: "StreamConfig \<Rightarrow> int \<Rightarrow> go_error option" where
  "CheckDurable sc replicas =
     (if sc_Retention sc \<noteq> LimitsPolicy then Some (Text ''retention is not limits'')
      else if sc_MaxAge sc \<noteq> 0 then Some (Text ''records expire'')
      else if sc_AllowMsgTTL sc then Some (Text ''per-message TTLs can expire records'')
      else if sc_SubjectDeleteMarkerTTL sc \<noteq> 0 then Some (Text ''delete markers expire'')
      else if sc_Storage sc \<noteq> FileStorage then Some (Text ''storage is not file-backed'')
      else if sc_PersistMode sc \<noteq> DefaultPersistMode then Some (Text ''writes are flushed asynchronously'')
      else if sc_MaxBytes sc > 0 \<or> sc_MaxMsgs sc > 0 \<or> sc_MaxMsgSize sc > 0
        then Some (Text ''a size or message cap can evict or refuse records'')
      else if sc_MaxMsgsPerSubject sc < 1 then Some (Text ''per-key history is unbounded or zero'')
      else if sc_Discard sc \<noteq> DiscardNew \<or> sc_DiscardNewPerSubject sc
        then Some (Text ''the discard policy can evict or refuse records'')
      else if sc_NoAck sc then Some (Text ''writes are not acknowledged'')
      else if sc_Sealed sc then Some (Text ''the bucket is sealed'')
      else if sc_Mirror sc \<or> sc_Sources sc > 0
        then Some (Text ''the bucket mirrors or sources another stream'')
      else if sc_Replicas sc < replicas
        then Some (Text (go_itoa_int (sc_Replicas sc) @ '' replicas, want at least '' @ go_itoa_int replicas))
      else None)"

section \<open>The JetStream manager\<close>

record KeyValueConfig =
  kc_Bucket :: string
  kc_Description :: string
  kc_History :: int
  kc_TTL :: int
  kc_Replicas :: int

text \<open>
  \<open>js_Stream\<close> is \<open>Stream(ctx, name).CachedInfo()\<close>, \<open>js_Info\<close> a fresh \<open>Info(ctx)\<close>; \<open>js_Names\<close> is
  the complete listing of bucket names or its error; \<open>js_StreamManager\<close> is whether the manager
  also implements \<open>StreamManager\<close>; \<open>js_IntToUint8\<close> is \<open>safecast.IntToUint8\<close>; \<open>js_Now\<close> reads the
  clock.
\<close>

record ('w, 'd) JetStream =
  js_KeyValue :: "'w \<Rightarrow> string \<Rightarrow> ('w, 'd) kv result \<times> 'w"
  js_CreateKeyValue :: "'w \<Rightarrow> KeyValueConfig \<Rightarrow> ('w, 'd) kv result \<times> 'w"
  js_DeleteKeyValue :: "'w \<Rightarrow> string \<Rightarrow> unit result \<times> 'w"
  js_Names :: "'w \<Rightarrow> string list result \<times> 'w"
  js_Stream :: "'w \<Rightarrow> string \<Rightarrow> StreamInfo result \<times> 'w"
  js_Info :: "'w \<Rightarrow> string \<Rightarrow> StreamInfo result \<times> 'w"
  js_UpdateStream :: "'w \<Rightarrow> StreamConfig \<Rightarrow> unit result \<times> 'w"
  js_StreamManager :: bool
  js_IntToUint8 :: "int \<Rightarrow> int"
  js_Now :: "'w \<Rightarrow> int"

abbreviation ErrBucketNotFound :: string where "ErrBucketNotFound \<equiv> ''jetstream.ErrBucketNotFound''"
abbreviation ErrBucketExists :: string where "ErrBucketExists \<equiv> ''jetstream.ErrBucketExists''"
abbreviation ErrStreamNotFound :: string where "ErrStreamNotFound \<equiv> ''jetstream.ErrStreamNotFound''"
abbreviation ErrNoStreamResponse :: string where
  "ErrNoStreamResponse \<equiv> ''jetstream.ErrNoStreamResponse''"
abbreviation ErrNoResponders :: string where "ErrNoResponders \<equiv> ''nats.ErrNoResponders''"

definition IsStreamUnavailable :: "go_error \<Rightarrow> bool" where
  "IsStreamUnavailable err \<longleftrightarrow>
     errors_Is err ErrStreamNotFound \<or> errors_Is err ErrNoStreamResponse \<or>
     errors_Is err ErrNoResponders \<or> go_contains (error_text err) ''stream not found''"

section \<open>Raising replica counts\<close>

definition streamPrefix :: string where "streamPrefix = ''KV_''"

definition raiseRetryEvery :: int where "raiseRetryEvery = 60 * 1000000000"

text \<open>The process: the declared node count and when each bucket was last raised.\<close>

record Proc =
  pr_nodes :: int
  pr_last :: "string \<Rightarrow> int option"

definition allow :: "int \<Rightarrow> string \<Rightarrow> int \<Rightarrow> (string \<Rightarrow> int option) \<Rightarrow> bool \<times> (string \<Rightarrow> int option)" where
  "allow every bucket now seen =
     (case seen bucket of
        Some t \<Rightarrow> if now - t < every then (False, seen) else (True, seen(bucket \<mapsto> now))
      | None \<Rightarrow> (True, seen(bucket \<mapsto> now)))"

definition RaiseBucketReplicas ::
  "('w, 'd) JetStream \<Rightarrow> string \<Rightarrow> int \<Rightarrow> 'w \<Rightarrow> go_error option \<times> 'w" where
  "RaiseBucketReplicas js bucket want w =
     (if \<not> js_StreamManager js
      then (Some (Text (''raise KV bucket '' @ bucket @ '' to '' @ go_itoa_int want
              @ '' replicas: no stream manager available'')), w)
      else case js_Stream js w (streamPrefix @ bucket) of
        (Inl err, w1) \<Rightarrow> (Some (Wrapped (''read KV bucket '' @ bucket @ '': '') [err] []), w1)
      | (Inr info, w1) \<Rightarrow>
          (let cfg = si_Config info
           in if sc_Replicas cfg \<ge> want then (None, w1)
              else case js_UpdateStream js w1 (cfg\<lparr>sc_Replicas := want\<rparr>) of
                (Inl err, w2) \<Rightarrow>
                  (Some (Wrapped (''raise KV bucket '' @ bucket @ '' from '' @ go_itoa_int (sc_Replicas cfg)
                     @ '' to '' @ go_itoa_int want @ '' replicas: '') [err] []), w2)
              | (Inr u, w2) \<Rightarrow> (None, w2)))"

definition TryRaiseBucketReplicas ::
  "('w, 'd) JetStream \<Rightarrow> string \<Rightarrow> int \<Rightarrow> Proc \<Rightarrow> 'w \<Rightarrow> Proc \<times> 'w" where
  "TryRaiseBucketReplicas js bucket want p w =
     (case allow raiseRetryEvery bucket (js_Now js w) (pr_last p) of
        (False, seen) \<Rightarrow> (p, w)
      | (True, seen) \<Rightarrow> (p\<lparr>pr_last := seen\<rparr>, snd (RaiseBucketReplicas js bucket want w)))"

section \<open>Opening and creating\<close>

definition openAndRaise ::
  "('w, 'd) JetStream \<Rightarrow> ('w, 'd) kv \<Rightarrow> string \<Rightarrow> int \<Rightarrow> Proc \<Rightarrow> 'w \<Rightarrow> ('w, 'd) kv \<times> Proc \<times> 'w" where
  "openAndRaise js kv bucket replicas p w = (kv, TryRaiseBucketReplicas js bucket replicas p w)"

definition getOrCreateBucket ::
  "('w, 'd) JetStream \<Rightarrow> KeyValueConfig \<Rightarrow> Proc \<Rightarrow> 'w \<Rightarrow> ('w, 'd) kv result \<times> Proc \<times> 'w" where
  "getOrCreateBucket js cfg p w =
     (let bucket = kc_Bucket cfg
      in case Replicas (pr_nodes p) of
        Inl err \<Rightarrow> (Inl (Wrapped (''create KV bucket '' @ bucket @ '': '') [err] []), p, w)
      | Inr replicas \<Rightarrow>
          (case js_KeyValue js w bucket of
             (Inr kv, w1) \<Rightarrow> map_prod Inr id (openAndRaise js kv bucket replicas p w1)
           | (Inl err, w1) \<Rightarrow>
               if \<not> errors_Is err ErrBucketNotFound
               then (Inl (Wrapped (''open KV bucket '' @ bucket @ '': '') [err] []), p, w1)
               else (case js_CreateKeyValue js w1 (cfg\<lparr>kc_Replicas := replicas\<rparr>) of
                  (Inr kv, w2) \<Rightarrow> (Inr kv, p, w2)
                | (Inl err, w2) \<Rightarrow>
                    if \<not> errors_Is err ErrBucketExists
                    then (Inl (Wrapped (''create KV bucket '' @ bucket @ '': '') [err] []), p, w2)
                    else (case js_KeyValue js w2 bucket of
                       (Inl err, w3) \<Rightarrow>
                         (Inl (Wrapped (''open KV bucket '' @ bucket @ '': '') [err] []), p, w3)
                     | (Inr kv, w3) \<Rightarrow> map_prod Inr id (openAndRaise js kv bucket replicas p w3)))))"

definition GetOrCreateBucket ::
  "('w, 'd) JetStream \<Rightarrow> string \<Rightarrow> int \<Rightarrow> Proc \<Rightarrow> 'w \<Rightarrow> ('w, 'd) kv result \<times> Proc \<times> 'w" where
  "GetOrCreateBucket js bucket history p w =
     getOrCreateBucket js \<lparr>kc_Bucket = bucket, kc_Description = [], kc_History = js_IntToUint8 js history,
       kc_TTL = 0, kc_Replicas = 0\<rparr> p w"

definition GetOrCreateBucketWithTTL ::
  "('w, 'd) JetStream \<Rightarrow> string \<Rightarrow> int \<Rightarrow> int \<Rightarrow> Proc \<Rightarrow> 'w \<Rightarrow> ('w, 'd) kv result \<times> Proc \<times> 'w" where
  "GetOrCreateBucketWithTTL js bucket history ttl p w =
     getOrCreateBucket js \<lparr>kc_Bucket = bucket, kc_Description = [], kc_History = js_IntToUint8 js history,
       kc_TTL = ttl, kc_Replicas = 0\<rparr> p w"

record BucketOptions =
  bo_Name :: string
  bo_Description :: string
  bo_History :: int
  bo_TTL :: int

definition GetOrCreateBucketWithOptions ::
  "('w, 'd) JetStream \<Rightarrow> BucketOptions \<Rightarrow> Proc \<Rightarrow> 'w \<Rightarrow> ('w, 'd) kv result \<times> Proc \<times> 'w" where
  "GetOrCreateBucketWithOptions js opts p w =
     getOrCreateBucket js \<lparr>kc_Bucket = bo_Name opts, kc_Description = bo_Description opts,
       kc_History = js_IntToUint8 js (bo_History opts), kc_TTL = bo_TTL opts, kc_Replicas = 0\<rparr> p w"

definition DeleteBucketIfExists ::
  "('w, 'd) JetStream \<Rightarrow> string \<Rightarrow> 'w \<Rightarrow> go_error option \<times> 'w" where
  "DeleteBucketIfExists js bucket w =
     (case js_DeleteKeyValue js w bucket of
        (Inr u, w1) \<Rightarrow> (None, w1)
      | (Inl err, w1) \<Rightarrow>
          if errors_Is err ErrBucketNotFound \<or> errors_Is err ErrStreamNotFound then (None, w1)
          else (Some (Wrapped (''delete KV bucket '' @ bucket @ '': '') [err] []), w1))"

section \<open>Replication reports\<close>

record BucketReport =
  br_Bucket :: string
  br_Replicas :: int
  br_Want :: int
  br_Cluster :: string
  br_Leader :: string
  br_Online :: int
  br_Peers :: "string list"

definition UnderReplicated :: "BucketReport \<Rightarrow> bool" where
  "UnderReplicated r \<longleftrightarrow> br_Replicas r < br_Want r"

text \<open>Go's integer division truncates towards zero; a replica count is never negative.\<close>

definition HasQuorum :: "BucketReport \<Rightarrow> bool" where
  "HasQuorum r \<longleftrightarrow> br_Online r > br_Replicas r div 2"

definition Healthy :: "BucketReport \<Rightarrow> bool" where
  "Healthy r \<longleftrightarrow> \<not> UnderReplicated r \<and> HasQuorum r"

fun report_peers :: "PeerInfo list \<Rightarrow> BucketReport \<Rightarrow> BucketReport" where
  "report_peers [] r = r"
| "report_peers (peer # ps) r =
     report_peers ps
       (r\<lparr>br_Peers := br_Peers r @ [peer_Name peer],
          br_Online := (if peer_Current peer \<and> \<not> peer_Offline peer then br_Online r + 1 else br_Online r)\<rparr>)"

definition newBucketReport :: "string \<Rightarrow> int \<Rightarrow> StreamInfo \<Rightarrow> BucketReport" where
  "newBucketReport bucket want info =
     (let report = \<lparr>br_Bucket = bucket, br_Replicas = sc_Replicas (si_Config info), br_Want = want,
                     br_Cluster = [], br_Leader = [], br_Online = 0, br_Peers = []\<rparr>
      in case si_Cluster info of
           None \<Rightarrow> report\<lparr>br_Online := 1\<rparr>
         | Some c \<Rightarrow>
             (let report = report\<lparr>br_Cluster := cl_Name c, br_Leader := cl_Leader c\<rparr>;
                  report = (if cl_Leader c \<noteq> []
                            then report\<lparr>br_Peers := [cl_Leader c], br_Online := 1\<rparr> else report)
              in report_peers (cl_Replicas c) report))"

fun audit_names ::
  "('w, 'd) JetStream \<Rightarrow> int \<Rightarrow> string list \<Rightarrow> BucketReport list \<Rightarrow> 'w \<Rightarrow> BucketReport list result \<times> 'w" where
  "audit_names js want [] acc w = (Inr acc, w)"
| "audit_names js want (name # names) acc w =
     (case js_Stream js w (streamPrefix @ name) of
        (Inl err, w1) \<Rightarrow>
          if errors_Is err ErrStreamNotFound then audit_names js want names acc w1
          else (Inl (Wrapped (''read KV bucket '' @ name @ '': '') [err] []), w1)
      | (Inr info, w1) \<Rightarrow>
          (case js_Info js w1 (streamPrefix @ name) of
             (Inl err, w2) \<Rightarrow> (Inl (Wrapped (''read KV bucket '' @ name @ '': '') [err] []), w2)
           | (Inr cached, w2) \<Rightarrow> audit_names js want names (acc @ [newBucketReport name want cached]) w2))"

definition AuditBucketReplicas ::
  "('w, 'd) JetStream \<Rightarrow> Proc \<Rightarrow> 'w \<Rightarrow> BucketReport list result \<times> 'w" where
  "AuditBucketReplicas js p w =
     (case Replicas (pr_nodes p) of
        Inl err \<Rightarrow> (Inl err, w)
      | Inr want \<Rightarrow>
          (case js_Names js w of
             (Inl err, w1) \<Rightarrow> (Inl (Wrapped ''enumerate KV buckets: '' [err] []), w1)
           | (Inr names, w1) \<Rightarrow> audit_names js want (sort names) [] w1))"

text \<open>The sweep: every under-replicated bucket is attempted, failures are collected and joined.\<close>

fun raise_reports ::
  "('w, 'd) JetStream \<Rightarrow> BucketReport list \<Rightarrow> nat \<Rightarrow> go_error list \<Rightarrow> 'w \<Rightarrow> nat \<times> go_error list \<times> 'w" where
  "raise_reports js [] raised failures w = (raised, failures, w)"
| "raise_reports js (r # rs) raised failures w =
     (if \<not> UnderReplicated r then raise_reports js rs raised failures w
      else case RaiseBucketReplicas js (br_Bucket r) (br_Want r) w of
             (Some err, w1) \<Rightarrow> raise_reports js rs raised (failures @ [err]) w1
           | (None, w1) \<Rightarrow> raise_reports js rs (raised + 1) failures w1)"

definition errors_Join :: "go_error list \<Rightarrow> go_error option" where
  "errors_Join es = (if es = [] then None else Some (Wrapped [] es []))"

definition RaiseAllBucketReplicas ::
  "('w, 'd) JetStream \<Rightarrow> Proc \<Rightarrow> 'w \<Rightarrow> nat \<times> go_error option \<times> 'w" where
  "RaiseAllBucketReplicas js p w =
     (case AuditBucketReplicas js p w of
        (Inl err, w1) \<Rightarrow> (0, Some err, w1)
      | (Inr reports, w1) \<Rightarrow>
          (case raise_reports js reports 0 [] w1 of
             (raised, failures, w2) \<Rightarrow> (raised, errors_Join failures, w2)))"

section \<open>Schema versions and migrations\<close>

definition VersionKey :: string where "VersionKey = ''_version''"

text \<open>\<open>WriteVersion\<close> and \<open>ReadVersion\<close> store the version as decimal text.\<close>

definition WriteVersion :: "('w, string) kv \<Rightarrow> int \<Rightarrow> 'w \<Rightarrow> go_error option \<times> 'w" where
  "WriteVersion kv version w =
     (let put = (\<lambda>w1. case kv_Put kv w1 VersionKey (go_itoa_int version) of
                   (Inl err, w2) \<Rightarrow> (Some err, w2) | (Inr r, w2) \<Rightarrow> (None, w2))
      in case kv_Get kv w VersionKey of
        (Inl err, w1) \<Rightarrow>
          if \<not> errors_Is err ErrKeyNotFound
          then (Some (Wrapped ''read current version: '' [err] []), w1) else put w1
      | (Inr (raw, r), w1) \<Rightarrow>
          (case go_atoi raw of
             None \<Rightarrow> (Some (Text (''corrupted '' @ VersionKey @ '' key'')), w1)
           | Some saved \<Rightarrow> if saved \<ge> version then (None, w1) else put w1))"

definition ReadVersion :: "('w, string) kv \<Rightarrow> 'w \<Rightarrow> int result \<times> 'w" where
  "ReadVersion kv w =
     (case kv_Get kv w VersionKey of
        (Inl err, w1) \<Rightarrow>
          if errors_Is err ErrKeyNotFound then (Inr 0, w1)
          else (Inl (Wrapped ''read version: '' [err] []), w1)
      | (Inr (raw, r), w1) \<Rightarrow>
          (case go_atoi raw of
             None \<Rightarrow> (Inl (Text (''corrupted '' @ VersionKey @ '' key'')), w1)
           | Some v \<Rightarrow> (Inr v, w1)))"

record 'w KVMigration =
  FromVersion :: int
  ToVersion :: int
  Run :: "('w, string) kv \<Rightarrow> 'w \<Rightarrow> go_error option \<times> 'w"

text \<open>The registry keeps each bucket's migrations sorted by \<open>FromVersion\<close>. \<open>sort.Slice\<close> may
  permute migrations with equal keys, \<open>sort_key\<close> keeps their order: one of its outcomes.\<close>

type_synonym 'w Registry = "string \<Rightarrow> 'w KVMigration list"

definition RegisterKV :: "'w Registry \<Rightarrow> string \<Rightarrow> 'w KVMigration \<Rightarrow> 'w Registry" where
  "RegisterKV r bucket m = r(bucket := sort_key FromVersion (r bucket @ [m]))"

definition schema_ahead :: "string \<Rightarrow> int \<Rightarrow> int \<Rightarrow> go_error" where
  "schema_ahead bucket found understood =
     Text (bucket @ '' is at schema version '' @ go_itoa_int found @ '' but this build understands ''
       @ go_itoa_int understood
       @ '': another node is running a newer release of Spinifex; upgrade this node to match'')"

text \<open>The chain check: where the pending migrations, taken in order, lead from \<open>expected\<close>.\<close>

fun check_chain :: "string \<Rightarrow> 'w KVMigration list \<Rightarrow> int \<Rightarrow> int result" where
  "check_chain bucket [] expected = Inr expected"
| "check_chain bucket (m # ms) expected =
     (if FromVersion m \<noteq> expected
      then Inl (Text (''migration chain gap for '' @ bucket @ '': expected from '' @ go_itoa_int expected
             @ '', got from '' @ go_itoa_int (FromVersion m)))
      else check_chain bucket ms (ToVersion m))"

fun run_pending ::
  "string \<Rightarrow> ('w, string) kv \<Rightarrow> 'w KVMigration list \<Rightarrow> 'w \<Rightarrow> go_error option \<times> 'w" where
  "run_pending bucket kv [] w = (None, w)"
| "run_pending bucket kv (m # ms) w =
     (case Run m kv w of
        (Some err, w1) \<Rightarrow>
          (Some (Wrapped (''KV migration '' @ bucket @ '' '' @ go_itoa_int (FromVersion m) @ '' to ''
             @ go_itoa_int (ToVersion m) @ '' failed: '') [err] []), w1)
      | (None, w1) \<Rightarrow>
          (case WriteVersion kv (ToVersion m) w1 of
             (Some err, w2) \<Rightarrow>
               (Some (Wrapped (''stamp version '' @ go_itoa_int (ToVersion m) @ '' on '' @ bucket @ '': '')
                  [err] []), w2)
           | (None, w2) \<Rightarrow> run_pending bucket kv ms w2))"

definition pending_from :: "'w KVMigration list \<Rightarrow> int \<Rightarrow> int \<Rightarrow> 'w KVMigration list" where
  "pending_from all current target =
     filter (\<lambda>m. FromVersion m \<ge> current \<and> ToVersion m \<le> target) all"

definition runKV ::
  "'w Registry \<Rightarrow> string \<Rightarrow> ('w, string) kv \<Rightarrow> int \<Rightarrow> 'w \<Rightarrow> go_error option \<times> 'w" where
  "runKV reg bucket kv target w =
     (case ReadVersion kv w of
        (Inl err, w1) \<Rightarrow> (Some (Wrapped (''read version for '' @ bucket @ '': '') [err] []), w1)
      | (Inr current, w1) \<Rightarrow>
          if current > target then (Some (schema_ahead bucket current target), w1)
          else if current = target then (None, w1)
          else (let all = reg bucket
                in if current = 0 \<and> all = [] then WriteVersion kv target w1
                   else (let current = (if current = 0 then FromVersion (hd all) else current);
                             pending = pending_from all current target
                         in if pending = []
                            then (Some (Text (''no migrations registered for '' @ bucket @ '' from version ''
                                    @ go_itoa_int current @ '' to '' @ go_itoa_int target)), w1)
                            else (case check_chain bucket pending current of
                                    Inl err \<Rightarrow> (Some err, w1)
                                  | Inr reached \<Rightarrow>
                                      if reached \<noteq> target
                                      then (Some (Text (''migration chain for '' @ bucket @ '' ends at version ''
                                              @ go_itoa_int reached @ '', target is '' @ go_itoa_int target)), w1)
                                      else run_pending bucket kv pending w1))))"

end
