(* ===== verification/Kvstore.thy ===== *)
theory Kvstore
  imports Kvbuckets
begin

text \<open>
  The typed store over one bucket, \<open>foundation/state/kvstore\<close>: a memoised handle that is opened on
  first use and reopened once when the stream is lost underneath an operation (\<open>bucket.go\<close>), and
  the record operations built on it (\<open>store.go\<close>).

  Every operation takes the bucket, the process variables and the world, and returns them after
  the call. A \<open>Store[T]\<close> is a bucket together with the JSON codec \<open>dec\<close>/\<open>enc\<close> of \<open>T\<close>.
\<close>

section \<open>Buckets\<close>

record ('w, 'd) Config =
  Name :: string
  History :: int
  Description :: string
  TTL :: int
  Missing :: string
  cfgAttempts :: int
  cfgExhausted :: "(string \<Rightarrow> nat \<Rightarrow> go_error) option"
  RecreateIfMissing :: bool
  AttachOnly :: bool
  OnOpen :: "(('w, 'd) kv \<Rightarrow> 'w \<Rightarrow> go_error option \<times> 'w) option"

record ('w, 'd) Bucket =
  b_js :: "('w, 'd) JetStream option"
  b_cfg :: "('w, 'd) Config"
  b_kv :: "('w, 'd) kv option"

type_synonym ('w, 'd) bstate = "('w, 'd) Bucket \<times> Proc \<times> 'w"

definition NewBucket :: "('w, 'd) JetStream option \<Rightarrow> ('w, 'd) Config \<Rightarrow> ('w, 'd) Bucket" where
  "NewBucket js cfg = \<lparr>b_js = js, b_cfg = cfg, b_kv = None\<rparr>"

definition NewOpenBucket ::
  "('w, 'd) JetStream option \<Rightarrow> ('w, 'd) kv \<Rightarrow> ('w, 'd) Config \<Rightarrow> ('w, 'd) Bucket" where
  "NewOpenBucket js kv cfg = \<lparr>b_js = js, b_cfg = cfg, b_kv = Some kv\<rparr>"

definition Configured :: "('w, 'd) Bucket \<Rightarrow> bool" where
  "Configured b \<longleftrightarrow> b_js b \<noteq> None \<or> b_kv b \<noteq> None"

definition openBucket ::
  "('w, 'd) JetStream \<Rightarrow> ('w, 'd) Config \<Rightarrow> Proc \<Rightarrow> 'w \<Rightarrow> ('w, 'd) kv result \<times> Proc \<times> 'w" where
  "openBucket js cfg p w =
     (if AttachOnly cfg
      then (case js_KeyValue js w (Name cfg) of
              (Inl err, w1) \<Rightarrow> (Inl (Wrapped (''open KV bucket '' @ Name cfg @ '': '') [err] []), p, w1)
            | (Inr kv, w1) \<Rightarrow> (Inr kv, p, w1))
      else if TTL cfg > 0
      then GetOrCreateBucketWithOptions js \<lparr>bo_Name = Name cfg, bo_Description = Description cfg,
             bo_History = History cfg, bo_TTL = TTL cfg\<rparr> p w
      else if Description cfg \<noteq> []
      then GetOrCreateBucketWithOptions js \<lparr>bo_Name = Name cfg, bo_Description = Description cfg,
             bo_History = History cfg, bo_TTL = 0\<rparr> p w
      else GetOrCreateBucket js (Name cfg) (History cfg) p w)"

definition onOpen ::
  "('w, 'd) Config \<Rightarrow> ('w, 'd) kv \<Rightarrow> 'w \<Rightarrow> go_error option \<times> 'w" where
  "onOpen cfg kv w =
     (case OnOpen cfg of
        None \<Rightarrow> (None, w)
      | Some f \<Rightarrow>
          (case f kv w of
             (Some err, w1) \<Rightarrow> (Some (Wrapped (''kvstore: on-open '' @ Name cfg @ '': '') [err] []), w1)
           | (None, w1) \<Rightarrow> (None, w1)))"

definition missing_error :: "('w, 'd) Config \<Rightarrow> string \<Rightarrow> go_error" where
  "missing_error cfg fallback = Text (if Missing cfg = [] then fallback else Missing cfg)"

definition KV :: "('w, 'd) bstate \<Rightarrow> ('w, 'd) kv result \<times> ('w, 'd) bstate" where
  "KV s =
     (case s of (b, p, w) \<Rightarrow>
       case b_kv b of
         Some kv \<Rightarrow> (Inr kv, s)
       | None \<Rightarrow>
           (case b_js b of
              None \<Rightarrow> (Inl (missing_error (b_cfg b) ''kvstore: no JetStream client configured''), s)
            | Some js \<Rightarrow>
                (case openBucket js (b_cfg b) p w of
                   (Inl err, p1, w1) \<Rightarrow> (Inl err, b, p1, w1)
                 | (Inr kv, p1, w1) \<Rightarrow>
                     (case onOpen (b_cfg b) kv w1 of
                        (Some err, w2) \<Rightarrow> (Inl err, b, p1, w2)
                      | (None, w2) \<Rightarrow> (Inr kv, b\<lparr>b_kv := Some kv\<rparr>, p1, w2)))))"

text \<open>The tail of \<open>Reopen\<close>: run the open hook on the new handle and memoise it.\<close>

definition reopened ::
  "('w, 'd) Bucket \<Rightarrow> ('w, 'd) kv \<Rightarrow> Proc \<Rightarrow> 'w \<Rightarrow> ('w, 'd) kv result \<times> ('w, 'd) bstate" where
  "reopened b kv p w =
     (case onOpen (b_cfg b) kv w of
        (Some err, w1) \<Rightarrow> (Inl err, b, p, w1)
      | (None, w1) \<Rightarrow> (Inr kv, b\<lparr>b_kv := Some kv\<rparr>, p, w1))"

definition Reopen :: "('w, 'd) bstate \<Rightarrow> ('w, 'd) kv result \<times> ('w, 'd) bstate" where
  "Reopen s =
     (case s of (b0, p, w) \<Rightarrow>
       case b_js b0 of
         None \<Rightarrow> (Inl (missing_error (b_cfg b0) ''kvstore: cannot reopen without a JetStream client''), s)
       | Some js \<Rightarrow>
           (let b = b0\<lparr>b_kv := None\<rparr>; name = Name (b_cfg b)
            in case js_KeyValue js w name of
                 (Inr kv, w1) \<Rightarrow> reopened b kv p w1
               | (Inl err, w1) \<Rightarrow>
                   if \<not> RecreateIfMissing (b_cfg b)
                   then (Inl (Wrapped (''kvstore: reopen '' @ name @ '': '') [err] []), b, p, w1)
                   else if \<not> errors_Is err ErrBucketNotFound \<and> \<not> IsStreamUnavailable err
                   then (Inl (Wrapped (''kvstore: reopen '' @ name @ '': '') [err] []), b, p, w1)
                   else (case openBucket js (b_cfg b) p w1 of
                           (Inl err, p2, w2) \<Rightarrow>
                             (Inl (Wrapped (''kvstore: recreate '' @ name @ '': '') [err] []), b, p2, w2)
                         | (Inr kv, p2, w2) \<Rightarrow> reopened b kv p2 w2)))"

text \<open>
  \<open>withKV\<close> runs \<open>op\<close>, which returns its error or what its closure assigned, against the bucket,
  and once more against a reopened one if the stream was lost underneath it.
\<close>

type_synonym ('w, 'd, 'r) kvop = "('w, 'd) kv \<Rightarrow> 'w \<Rightarrow> 'r result \<times> 'w"

definition withKV :: "('w, 'd, 'r) kvop \<Rightarrow> ('w, 'd) bstate \<Rightarrow> 'r result \<times> ('w, 'd) bstate" where
  "withKV op s =
     (case KV s of
        (Inl err, s1) \<Rightarrow> (Inl err, s1)
      | (Inr kv, b1, p1, w1) \<Rightarrow>
          (case op kv w1 of
             (Inr r, w2) \<Rightarrow> (Inr r, b1, p1, w2)
           | (Inl err, w2) \<Rightarrow>
               if \<not> IsStreamUnavailable err then (Inl err, b1, p1, w2)
               else (case Reopen (b1, p1, w2) of
                       (Inl reopenErr, s3) \<Rightarrow> (Inl err, s3)
                     | (Inr kv', b3, p3, w3) \<Rightarrow>
                         (case op kv' w3 of (x, w4) \<Rightarrow> (x, b3, p3, w4)))))"

section \<open>Key operations of a bucket\<close>

definition ErrNotFound :: string where "ErrNotFound = ''kvstore: key not found''"
definition ErrExists :: string where "ErrExists = ''kvstore: key already exists''"
definition ErrConflict :: string where "ErrConflict = ''kvstore: revision conflict''"

abbreviation keyed :: "string \<Rightarrow> string \<Rightarrow> go_error" where
  "keyed e key \<equiv> Wrapped [] [Sentinel e] ('': '' @ key)"

abbreviation kv_context :: "string \<Rightarrow> string \<Rightarrow> go_error \<Rightarrow> go_error" where
  "kv_context what key err \<equiv> Wrapped (''kvstore: '' @ what @ '' '' @ key @ '': '') [err] []"

definition in_context :: "string \<Rightarrow> string \<Rightarrow> 'r result \<times> 'w \<Rightarrow> 'r result \<times> 'w" where
  "in_context what key x =
     (case x of (Inl err, w) \<Rightarrow> (Inl (kv_context what key err), w) | (Inr r, w) \<Rightarrow> (Inr r, w))"

text \<open>An absent key is success for a delete or a purge.\<close>

definition absent_ok :: "unit result \<Rightarrow> unit result" where
  "absent_ok x =
     (case x of Inl err \<Rightarrow> if errors_Is err ErrKeyNotFound then Inr () else Inl err | Inr u \<Rightarrow> Inr u)"

definition Delete :: "string \<Rightarrow> ('w, 'd) bstate \<Rightarrow> unit result \<times> ('w, 'd) bstate" where
  "Delete key s =
     map_prod absent_ok id
       (withKV (\<lambda>kv w. in_context ''delete'' key (kv_Delete kv w key None)) s)"

definition Purge :: "string \<Rightarrow> ('w, 'd) bstate \<Rightarrow> unit result \<times> ('w, 'd) bstate" where
  "Purge key s =
     map_prod absent_ok id (withKV (\<lambda>kv w. in_context ''purge'' key (kv_Purge kv w key)) s)"

definition CompareAndDelete ::
  "string \<Rightarrow> nat \<Rightarrow> ('w, 'd) bstate \<Rightarrow> unit result \<times> ('w, 'd) bstate" where
  "CompareAndDelete key r s =
     (case KV s of
        (Inl err, s1) \<Rightarrow> (Inl err, s1)
      | (Inr kv, b1, p1, w1) \<Rightarrow>
          (case kv_Delete kv w1 key (Some r) of
             (Inl err, w2) \<Rightarrow>
               (if errors_Is err ErrKeyRevisionMismatch then Inl (keyed ErrConflict key)
                else Inl (kv_context ''delete'' key err), b1, p1, w2)
           | (Inr u, w2) \<Rightarrow> (Inr (), b1, p1, w2)))"

definition Exists :: "string \<Rightarrow> ('w, 'd) bstate \<Rightarrow> bool result \<times> ('w, 'd) bstate" where
  "Exists key s =
     (case withKV (\<lambda>kv w. in_context ''get'' key (kv_Get kv w key)) s of
        (Inl err, s1) \<Rightarrow> (if errors_Is err ErrKeyNotFound then Inr False else Inl err, s1)
      | (Inr e, s1) \<Rightarrow> (Inr True, s1))"

section \<open>Record operations of a store\<close>

definition get_record ::
  "('d \<Rightarrow> 'v result) \<Rightarrow> string \<Rightarrow> ('w, 'd) kv \<Rightarrow> 'w \<Rightarrow> ('v \<times> nat) result \<times> 'w" where
  "get_record dec key kv w =
     (case kv_Get kv w key of
        (Inl err, w1) \<Rightarrow>
          (Inl (if errors_Is err ErrKeyNotFound then keyed ErrNotFound key else kv_context ''get'' key err), w1)
      | (Inr (d, r), w1) \<Rightarrow>
          (case dec d of
             Inl err \<Rightarrow> (Inl (kv_context ''decode'' key err), w1)
           | Inr v \<Rightarrow> (Inr (v, r), w1)))"

definition list_keys :: "('w, 'd) kv \<Rightarrow> 'w \<Rightarrow> string list result \<times> 'w" where
  "list_keys kv w =
     (case kv_Keys kv w of
        (Inl err, w1) \<Rightarrow> (if errors_Is err ErrNoKeysFound then Inr [] else Inl err, w1)
      | (Inr ks, w1) \<Rightarrow> (Inr ks, w1))"

definition Store_Get ::
  "('d \<Rightarrow> 'v result) \<Rightarrow> string \<Rightarrow> ('w, 'd) bstate \<Rightarrow> ('v \<times> nat) result \<times> ('w, 'd) bstate" where
  "Store_Get dec key s = withKV (get_record dec key) s"

definition Store_Create ::
  "('v \<Rightarrow> 'd result) \<Rightarrow> string \<Rightarrow> 'v \<Rightarrow> ('w, 'd) bstate \<Rightarrow> nat result \<times> ('w, 'd) bstate" where
  "Store_Create enc key v s =
     (case enc v of
        Inl err \<Rightarrow> (Inl (kv_context ''encode'' key err), s)
      | Inr data \<Rightarrow>
          (case withKV (\<lambda>kv w. in_context ''create'' key (kv_Create kv w key data)) s of
             (Inl err, s1) \<Rightarrow> (Inl (if errors_Is err ErrKeyExists then keyed ErrExists key else err), s1)
           | (Inr r, s1) \<Rightarrow> (Inr r, s1)))"

definition mutate_config :: "('w, 'd) Config \<Rightarrow> string \<Rightarrow> CASConfig" where
  "mutate_config cfg key =
     \<lparr>Attempts = cfgAttempts cfg, CreateIfAbsent = False, NotFound = Some (keyed ErrNotFound key),
      Exhausted = cfgExhausted cfg\<rparr>"

definition upsert_config :: "('w, 'd) Config \<Rightarrow> CASConfig" where
  "upsert_config cfg =
     \<lparr>Attempts = cfgAttempts cfg, CreateIfAbsent = True, NotFound = None,
      Exhausted = cfgExhausted cfg\<rparr>"

definition claim_config :: "('w, 'd) Config \<Rightarrow> CASConfig" where
  "claim_config cfg =
     \<lparr>Attempts = cfgAttempts cfg, CreateIfAbsent = False, NotFound = None,
      Exhausted = cfgExhausted cfg\<rparr>"

text \<open>
  \<open>Mutate\<close> and \<open>Upsert\<close> return only an error in the source; the model also returns what the
  mutator left behind and assigned, which is how the callers' closures pass results out.
\<close>

definition Store_Mutate ::
  "'w pause \<Rightarrow> ('d \<Rightarrow> 'v result) \<Rightarrow> ('v \<Rightarrow> 'd result) \<Rightarrow> 'v \<Rightarrow> string \<Rightarrow> ('v, 'a) mutator \<Rightarrow>
   ('w, 'd) bstate \<Rightarrow> ('v \<times> 'a) result \<times> ('w, 'd) bstate" where
  "Store_Mutate pause dec enc zero key fn s =
     withKV (\<lambda>kv. Update kv pause dec enc zero key (mutate_config (b_cfg (fst s)) key) fn) s"

definition Store_Upsert ::
  "'w pause \<Rightarrow> ('d \<Rightarrow> 'v result) \<Rightarrow> ('v \<Rightarrow> 'd result) \<Rightarrow> 'v \<Rightarrow> string \<Rightarrow> ('v, 'a) mutator \<Rightarrow>
   ('w, 'd) bstate \<Rightarrow> ('v \<times> 'a) result \<times> ('w, 'd) bstate" where
  "Store_Upsert pause dec enc zero key fn s =
     withKV (\<lambda>kv. Update kv pause dec enc zero key (upsert_config (b_cfg (fst s))) fn) s"

fun list_records ::
  "('d \<Rightarrow> 'v result) \<Rightarrow> string \<Rightarrow> string list \<Rightarrow> 'v list \<Rightarrow> ('w, 'd) kv \<Rightarrow> 'w \<Rightarrow> 'v list result \<times> 'w" where
  "list_records dec prefix [] out kv w = (Inr out, w)"
| "list_records dec prefix (key # keys) out kv w =
     (if \<not> go_has_prefix key prefix then list_records dec prefix keys out kv w
      else case get_record dec key kv w of
             (Inl err, w1) \<Rightarrow>
               if errors_Is err ErrNotFound then list_records dec prefix keys out kv w1 else (Inl err, w1)
           | (Inr (v, r), w1) \<Rightarrow> list_records dec prefix keys (out @ [v]) kv w1)"

definition Store_List ::
  "('d \<Rightarrow> 'v result) \<Rightarrow> string \<Rightarrow> ('w, 'd) bstate \<Rightarrow> 'v list result \<times> ('w, 'd) bstate" where
  "Store_List dec prefix s =
     withKV (\<lambda>kv w.
       case list_keys kv w of
         (Inl err, w1) \<Rightarrow> (Inl err, w1)
       | (Inr keys, w1) \<Rightarrow> list_records dec prefix keys [] kv w1) s"

record 'v Item =
  it_Key :: string
  it_Value :: 'v
  it_Revision :: nat

text \<open>The watcher's channel, up to the nil entry that ends the existing values.\<close>

fun snapshot_entries ::
  "('d \<Rightarrow> 'v result) \<Rightarrow> go_error \<Rightarrow> 'd kv_entry option list \<Rightarrow> 'v Item list \<Rightarrow> nat \<Rightarrow> ('v Item list \<times> nat) result" where
  "snapshot_entries dec early [] items high = Inl early"
| "snapshot_entries dec early (None # es) items high = Inr (items, high)"
| "snapshot_entries dec early (Some e # es) items high =
     (let high = max high (e_revision e)
      in if \<not> e_put e then snapshot_entries dec early es items high
         else case dec (e_value e) of
                Inl err \<Rightarrow> Inl (kv_context ''decode'' (e_key e) err)
              | Inr v \<Rightarrow>
                  snapshot_entries dec early es
                    (items @ [\<lparr>it_Key = e_key e, it_Value = v, it_Revision = e_revision e\<rparr>]) high)"

definition Store_Snapshot ::
  "('d \<Rightarrow> 'v result) \<Rightarrow> string \<Rightarrow> ('w, 'd) bstate \<Rightarrow> ('v Item list \<times> nat) result \<times> ('w, 'd) bstate" where
  "Store_Snapshot dec filt s =
     (let what = ''kvstore: snapshot '' @ Name (b_cfg (fst s)) @ '' '' @ filt @ '': ''
      in withKV (\<lambda>kv w.
           case kv_Watch kv w filt of
             (Inl err, w1) \<Rightarrow> (Inl (Wrapped what [err] []), w1)
           | (Inr es, w1) \<Rightarrow> (snapshot_entries dec (Text (what @ ''watcher closed early'')) es [] 0, w1)) s)"

fun delete_keys ::
  "string \<Rightarrow> string list \<Rightarrow> ('w, 'd) kv \<Rightarrow> 'w \<Rightarrow> unit result \<times> 'w" where
  "delete_keys prefix [] kv w = (Inr (), w)"
| "delete_keys prefix (key # keys) kv w =
     (if \<not> go_has_prefix key prefix then delete_keys prefix keys kv w
      else case kv_Delete kv w key None of
             (Inl err, w1) \<Rightarrow>
               if \<not> errors_Is err ErrKeyNotFound then (Inl (kv_context ''delete'' key err), w1)
               else delete_keys prefix keys kv w1
           | (Inr u, w1) \<Rightarrow> delete_keys prefix keys kv w1)"

definition Store_DeletePrefix ::
  "string \<Rightarrow> ('w, 'd) bstate \<Rightarrow> unit result \<times> ('w, 'd) bstate" where
  "Store_DeletePrefix prefix s =
     withKV (\<lambda>kv w.
       case list_keys kv w of
         (Inl err, w1) \<Rightarrow> (Inl err, w1)
       | (Inr keys, w1) \<Rightarrow> delete_keys prefix keys kv w1) s"

definition Store_Claim ::
  "'w pause \<Rightarrow> ('d \<Rightarrow> 'v result) \<Rightarrow> string \<Rightarrow> ('w, 'd) bstate \<Rightarrow> 'v option result \<times> ('w, 'd) bstate" where
  "Store_Claim pause dec key s =
     withKV (\<lambda>kv. Claim kv pause dec key (claim_config (b_cfg (fst s)))) s"

definition Store_Replace ::
  "'w pause \<Rightarrow> ('v \<Rightarrow> 'd result) \<Rightarrow> string \<Rightarrow> 'v \<Rightarrow> ('w, 'd) bstate \<Rightarrow> unit result \<times> ('w, 'd) bstate" where
  "Store_Replace pause enc key v s =
     (case enc v of
        Inl err \<Rightarrow> (Inl (kv_context ''encode'' key err), s)
      | Inr data \<Rightarrow>
          withKV (\<lambda>kv w. in_context ''replace'' key
            (Put kv pause key (upsert_config (b_cfg (fst s))) data w)) s)"

definition Store_Set ::
  "('v \<Rightarrow> 'd result) \<Rightarrow> string \<Rightarrow> 'v \<Rightarrow> ('w, 'd) bstate \<Rightarrow> nat result \<times> ('w, 'd) bstate" where
  "Store_Set enc key v s =
     (case enc v of
        Inl err \<Rightarrow> (Inl (kv_context ''encode'' key err), s)
      | Inr data \<Rightarrow> withKV (\<lambda>kv w. in_context ''put'' key (kv_Put kv w key data)) s)"

definition CompareAndSet ::
  "('v \<Rightarrow> 'd result) \<Rightarrow> string \<Rightarrow> 'v \<Rightarrow> nat \<Rightarrow> ('w, 'd) bstate \<Rightarrow> nat result \<times> ('w, 'd) bstate" where
  "CompareAndSet enc key v r s =
     (case KV s of
        (Inl err, s1) \<Rightarrow> (Inl err, s1)
      | (Inr kv, b1, p1, w1) \<Rightarrow>
          (case enc v of
             Inl err \<Rightarrow> (Inl (kv_context ''encode'' key err), b1, p1, w1)
           | Inr data \<Rightarrow>
               (case kv_Update kv w1 key data r of
                  (Inl err, w2) \<Rightarrow>
                    (if errors_Is err ErrKeyRevisionMismatch \<or> errors_Is err ErrKeyExists
                     then Inl (keyed ErrConflict key) else Inl (kv_context ''update'' key err), b1, p1, w2)
                | (Inr next, w2) \<Rightarrow> (Inr next, b1, p1, w2))))"

section \<open>Handles stay lawful\<close>

text \<open>
  What the store relies on of its JetStream manager and its open hook: every handle they give out
  is a lawful view of the same bucket, and their own calls change nothing the other clients might
  not.
\<close>

definition js_lawful :: "('w, 'd) JetStream \<Rightarrow> ('w, 'd) kv_view \<Rightarrow> bool" where
  "js_lawful js V \<longleftrightarrow>
     (\<forall>w n x w'. js_KeyValue js w n = (x, w') \<longrightarrow> rely V w w' \<and> (\<forall>kv. x = Inr kv \<longrightarrow> kv_lawful kv V)) \<and>
     (\<forall>w c x w'. js_CreateKeyValue js w c = (x, w') \<longrightarrow> rely V w w' \<and> (\<forall>kv. x = Inr kv \<longrightarrow> kv_lawful kv V)) \<and>
     (\<forall>w n x w'. js_Stream js w n = (x, w') \<longrightarrow> rely V w w') \<and>
     (\<forall>w c x w'. js_UpdateStream js w c = (x, w') \<longrightarrow> rely V w w')"

definition hook_lawful :: "('w, 'd) Config \<Rightarrow> ('w, 'd) kv_view \<Rightarrow> bool" where
  "hook_lawful cfg V \<longleftrightarrow>
     (\<forall>f kv w x w'. OnOpen cfg = Some f \<longrightarrow> kv_lawful kv V \<longrightarrow> f kv w = (x, w') \<longrightarrow> rely V w w')"

definition bucket_lawful :: "('w, 'd) Bucket \<Rightarrow> ('w, 'd) kv_view \<Rightarrow> bool" where
  "bucket_lawful b V \<longleftrightarrow>
     view_ok V \<and> hook_lawful (b_cfg b) V \<and>
     (\<forall>js. b_js b = Some js \<longrightarrow> js_lawful js V) \<and> (\<forall>kv. b_kv b = Some kv \<longrightarrow> kv_lawful kv V)"

definition opened :: "('w, 'd) kv_view \<Rightarrow> 'w \<Rightarrow> ('w, 'd) kv result \<Rightarrow> 'w \<Rightarrow> bool" where
  "opened V w x w' \<longleftrightarrow> rely V w w' \<and> (\<forall>kv. x = Inr kv \<longrightarrow> kv_lawful kv V)"

lemma opened_relyL: "view_ok V \<Longrightarrow> rely V w w0 \<Longrightarrow> opened V w0 x w' \<Longrightarrow> opened V w x w'"
  by (auto simp: opened_def elim: rely_trans)

lemma opened_error: "opened V w (Inl e) w' = rely V w w'"
  by (simp add: opened_def)

lemma js_KeyValue_opened: "js_lawful js V \<Longrightarrow> js_KeyValue js w n = (x, w') \<Longrightarrow> opened V w x w'"
  unfolding js_lawful_def opened_def by blast

lemma js_Create_opened: "js_lawful js V \<Longrightarrow> js_CreateKeyValue js w c = (x, w') \<Longrightarrow> opened V w x w'"
  unfolding js_lawful_def opened_def by blast

lemma js_Stream_rely: "js_lawful js V \<Longrightarrow> js_Stream js w n = (x, w') \<Longrightarrow> rely V w w'"
  unfolding js_lawful_def by blast

lemma js_UpdateStream_rely: "js_lawful js V \<Longrightarrow> js_UpdateStream js w c = (x, w') \<Longrightarrow> rely V w w'"
  unfolding js_lawful_def by blast

lemma RaiseBucketReplicas_rely:
  assumes V: "view_ok V" and J: "js_lawful js V"
  shows "rely V w (snd (RaiseBucketReplicas js bucket want w))"
proof -
  obtain x w1 where x: "js_Stream js w (streamPrefix @ bucket) = (x, w1)" by fastforce
  note r1 = js_Stream_rely [OF J x]
  have "rely V w (snd (js_UpdateStream js w1 c))" for c
    using rely_trans [OF V r1] js_UpdateStream_rely [OF J, of w1 c] by (metis prod.collapse)
  with x r1 rely_refl [OF V, of w] show ?thesis
    by (auto simp: RaiseBucketReplicas_def Let_def split: sum.splits prod.splits)
      (metis snd_conv)+
qed

lemma TryRaise_rely:
  assumes "view_ok V" and "js_lawful js V" and "TryRaiseBucketReplicas js bucket want p w = (p', w')"
  shows "rely V w w'"
  using assms(3) rely_refl [OF assms(1), of w] RaiseBucketReplicas_rely [OF assms(1,2), of w bucket want]
  by (auto simp: TryRaiseBucketReplicas_def split: prod.splits bool.splits)

lemma openAndRaise_opened:
  assumes "view_ok V" and "js_lawful js V" and "kv_lawful kv V"
    and "map_prod Inr id (openAndRaise js kv bucket replicas p w) = (x, p', w')"
  shows "opened V w x w'"
  using assms(3,4) TryRaise_rely [OF assms(1,2), of bucket replicas p w]
  by (auto simp: openAndRaise_def opened_def)

lemma getOrCreateBucket_opened:
  assumes V: "view_ok V" and J: "js_lawful js V"
    and run: "getOrCreateBucket js cfg p w = (x, p', w')"
  shows "opened V w x w'"
proof (cases "Replicas (pr_nodes p)")
  case (Inl e)
  with run rely_refl [OF V] show ?thesis by (auto simp: getOrCreateBucket_def Let_def opened_def)
next
  case (Inr replicas)
  obtain y w1 where y: "js_KeyValue js w (kc_Bucket cfg) = (y, w1)" by fastforce
  note o1 = js_KeyValue_opened [OF J y]
  then have r1: "rely V w w1" by (simp add: opened_def)
  show ?thesis
  proof (cases y)
    case (Inr kv)
    with o1 have "kv_lawful kv V" by (simp add: opened_def)
    moreover have "map_prod Inr id (openAndRaise js kv (kc_Bucket cfg) replicas p w1) = (x, p', w')"
      using run y Inr \<open>Replicas _ = Inr replicas\<close> by (simp add: getOrCreateBucket_def Let_def)
    ultimately show ?thesis by (rule opened_relyL [OF V r1 openAndRaise_opened [OF V J]])
  next
    case (Inl err)
    obtain z w2 where z: "js_CreateKeyValue js w1 (cfg\<lparr>kc_Replicas := replicas\<rparr>) = (z, w2)" by fastforce
    note o2 = opened_relyL [OF V r1 js_Create_opened [OF J z]]
    then have r2: "rely V w w2" by (simp add: opened_def)
    obtain u w3 where u: "js_KeyValue js w2 (kc_Bucket cfg) = (u, w3)" by fastforce
    note o3 = opened_relyL [OF V r2 js_KeyValue_opened [OF J u]]
    then have r3: "rely V w w3" by (simp add: opened_def)
    consider (failed) e where "x = Inl e" "w' \<in> {w1, w2, w3}"
      | (created) kv where "z = Inr kv" "x = z" "w' = w2"
      | (attached) kv where "u = Inr kv"
          "map_prod Inr id (openAndRaise js kv (kc_Bucket cfg) replicas p w3) = (x, p', w')"
      using run y Inl z u \<open>Replicas _ = Inr replicas\<close>
      by (simp add: getOrCreateBucket_def Let_def split: sum.splits if_splits) auto
    then show ?thesis
    proof cases
      case failed
      with r1 r2 r3 show ?thesis by (auto simp: opened_error)
    next
      case created
      with o2 show ?thesis by simp
    next
      case attached
      with o3 have "kv_lawful kv V" by (simp add: opened_def)
      from opened_relyL [OF V r3 openAndRaise_opened [OF V J this attached(2)]] show ?thesis .
    qed
  qed
qed

lemma openBucket_opened:
  assumes V: "view_ok V" and J: "js_lawful js V" and run: "openBucket js cfg p w = (x, p', w')"
  shows "opened V w x w'"
proof (cases "AttachOnly cfg")
  case True
  obtain y w1 where y: "js_KeyValue js w (Name cfg) = (y, w1)" by fastforce
  with run True js_KeyValue_opened [OF J y] show ?thesis
    by (cases y) (auto simp: openBucket_def opened_def)
next
  case False
  with run obtain c where "getOrCreateBucket js c p w = (x, p', w')"
    unfolding openBucket_def GetOrCreateBucketWithOptions_def GetOrCreateBucket_def
    by (simp split: if_splits)
  then show ?thesis by (rule getOrCreateBucket_opened [OF V J])
qed

lemma onOpen_rely:
  assumes "view_ok V" and "hook_lawful cfg V" and "kv_lawful kv V" and "onOpen cfg kv w = (x, w')"
  shows "rely V w w'"
  using assms rely_refl [OF assms(1)] unfolding onOpen_def hook_lawful_def
  by (auto split: option.splits prod.splits)

definition handed :: "('w, 'd) kv_view \<Rightarrow> ('w, 'd) Bucket \<Rightarrow> 'w \<Rightarrow> ('w, 'd) kv result \<Rightarrow> ('w, 'd) bstate \<Rightarrow> bool" where
  "handed V b w x s' \<longleftrightarrow>
     opened V w x (snd (snd s')) \<and> bucket_lawful (fst s') V \<and> b_cfg (fst s') = b_cfg b \<and>
     b_js (fst s') = b_js b"

lemma bucket_lawful_view: "bucket_lawful b V \<Longrightarrow> view_ok V"
  by (simp add: bucket_lawful_def)

lemma bucket_lawful_store: "bucket_lawful b V \<Longrightarrow> kv_lawful kv V \<Longrightarrow> bucket_lawful (b\<lparr>b_kv := Some kv\<rparr>) V"
  by (simp add: bucket_lawful_def)

lemma KV_handed:
  assumes B: "bucket_lawful b V" and run: "KV (b, p, w) = (x, s')"
  shows "handed V b w x s'"
proof (cases "b_kv b")
  case (Some kv)
  with run B rely_refl [OF bucket_lawful_view [OF B], of w] show ?thesis
    by (auto simp: KV_def handed_def opened_def bucket_lawful_def)
next
  case None
  note V = bucket_lawful_view [OF B]
  show ?thesis
  proof (cases "b_js b")
    case None
    with run \<open>b_kv b = None\<close> B rely_refl [OF V, of w] show ?thesis
      by (auto simp: KV_def handed_def opened_def)
  next
    case (Some js)
    with B have J: "js_lawful js V" by (simp add: bucket_lawful_def)
    obtain y p1 w1 where y: "openBucket js (b_cfg b) p w = (y, p1, w1)" by (metis prod.exhaust)
    note o1 = openBucket_opened [OF V J y]
    then have r1: "rely V w w1" by (simp add: opened_def)
    show ?thesis
    proof (cases y)
      case (Inl err)
      with run \<open>b_kv b = None\<close> Some y B r1 show ?thesis
        by (auto simp: KV_def handed_def opened_error)
    next
      case (Inr kv)
      with o1 have kv: "kv_lawful kv V" by (simp add: opened_def)
      obtain z w2 where z: "onOpen (b_cfg b) kv w1 = (z, w2)" by fastforce
      have "rely V w1 w2" using B by (intro onOpen_rely [OF V _ kv z]) (simp add: bucket_lawful_def)
      then have "rely V w w2" by (rule rely_trans [OF V r1])
      with run \<open>b_kv b = None\<close> Some y Inr z B kv bucket_lawful_store [OF B kv] show ?thesis
        by (cases z) (auto simp: KV_def handed_def opened_def)
    qed
  qed
qed

lemma reopened_handed:
  assumes B: "bucket_lawful b V" and kv: "kv_lawful kv V" and run: "reopened b kv p w = (x, s')"
  shows "handed V b w x s'"
proof -
  note V = bucket_lawful_view [OF B]
  obtain z w2 where z: "onOpen (b_cfg b) kv w = (z, w2)" by fastforce
  have "rely V w w2" using B by (intro onOpen_rely [OF V _ kv z]) (simp add: bucket_lawful_def)
  with run z B kv bucket_lawful_store [OF B kv] show ?thesis
    by (cases z) (auto simp: reopened_def handed_def opened_def)
qed

lemma handed_relyL: "view_ok V \<Longrightarrow> rely V w w0 \<Longrightarrow> handed V b w0 x s' \<Longrightarrow> handed V b w x s'"
  by (auto simp: handed_def elim: opened_relyL)

lemma handed_drop: "handed V (b\<lparr>b_kv := h\<rparr>) w x s' = handed V b w x s'"
  by (simp add: handed_def)

lemma Reopen_handed:
  assumes B0: "bucket_lawful b0 V" and run: "Reopen (b0, p, w) = (x, s')"
  shows "handed V b0 w x s'"
proof (cases "b_js b0")
  case None
  with run B0 rely_refl [OF bucket_lawful_view [OF B0], of w] show ?thesis
    by (auto simp: Reopen_def handed_def opened_def)
next
  case (Some js)
  note V = bucket_lawful_view [OF B0]
  define b where "b = b0\<lparr>b_kv := None\<rparr>"
  from B0 have B: "bucket_lawful b V" by (simp add: b_def bucket_lawful_def)
  from B0 Some have J: "js_lawful js V" by (simp add: bucket_lawful_def)
  obtain y w1 where y: "js_KeyValue js w (Name (b_cfg b)) = (y, w1)" by fastforce
  note o1 = js_KeyValue_opened [OF J y]
  then have r1: "rely V w w1" by (simp add: opened_def)
  obtain z p2 w2 where z: "openBucket js (b_cfg b) p w1 = (z, p2, w2)" by (metis prod.exhaust)
  note o2 = openBucket_opened [OF V J z]
  then have "rely V w1 w2" by (simp add: opened_def)
  then have r2: "rely V w w2" by (rule rely_trans [OF V r1])
  consider (failed) e p' w' where "x = Inl e" "s' = (b, p', w')" "w' \<in> {w1, w2}"
    | (attached) kv where "y = Inr kv" "reopened b kv p w1 = (x, s')"
    | (recreated) kv where "z = Inr kv" "reopened b kv p2 w2 = (x, s')"
    using run Some y z
    by (simp add: Reopen_def Let_def b_def [symmetric] split: sum.splits if_splits) auto
  then have "handed V b w x s'"
  proof cases
    case failed
    with B r1 r2 show ?thesis by (auto simp: handed_def opened_error)
  next
    case attached
    with o1 have "kv_lawful kv V" by (simp add: opened_def)
    from handed_relyL [OF V r1 reopened_handed [OF B this attached(2)]] show ?thesis .
  next
    case recreated
    with o2 have "kv_lawful kv V" by (simp add: opened_def)
    from handed_relyL [OF V r2 reopened_handed [OF B this recreated(2)]] show ?thesis .
  qed
  then show ?thesis by (simp add: b_def handed_drop)
qed

text \<open>
  The runs of \<open>op\<close> behind a \<open>withKV\<close>: none, one, or two, the first of two having failed because
  the stream was lost, and each against a lawful handle.
\<close>

inductive runs ::
  "('w, 'd) kv_view \<Rightarrow> ('w, 'd, 'r) kvop \<Rightarrow> 'w \<Rightarrow> 'r result \<Rightarrow> 'w \<Rightarrow> bool"
  for V op where
  none: "rely V w w' \<Longrightarrow> runs V op w (Inl e) w'"
| once: "kv_lawful kv V \<Longrightarrow> rely V w w1 \<Longrightarrow> op kv w1 = (x, w') \<Longrightarrow> runs V op w x w'"
| lost: "kv_lawful kv V \<Longrightarrow> rely V w w1 \<Longrightarrow> op kv w1 = (Inl e, w2) \<Longrightarrow> IsStreamUnavailable e \<Longrightarrow>
    rely V w2 w' \<Longrightarrow> runs V op w (Inl e) w'"
| twice: "kv_lawful kv V \<Longrightarrow> rely V w w1 \<Longrightarrow> op kv w1 = (Inl e, w2) \<Longrightarrow> IsStreamUnavailable e \<Longrightarrow>
    rely V w2 w3 \<Longrightarrow> kv_lawful kv' V \<Longrightarrow> op kv' w3 = (x, w') \<Longrightarrow> runs V op w x w'"

lemma withKV_runs:
  assumes B: "bucket_lawful b V" and run: "withKV op (b, p, w) = (x, b', p', w')"
  shows "runs V op w x w' \<and> bucket_lawful b' V \<and> b_cfg b' = b_cfg b"
proof -
  obtain y s1 where y: "KV (b, p, w) = (y, s1)" by (metis prod.exhaust)
  obtain b1 p1 w1 where s1: "s1 = (b1, p1, w1)" by (metis prod.exhaust)
  from KV_handed [OF B y] s1 have h1: "rely V w w1" "bucket_lawful b1 V" "b_cfg b1 = b_cfg b"
    "\<And>kv. y = Inr kv \<Longrightarrow> kv_lawful kv V" by (auto simp: handed_def opened_def)
  show ?thesis
  proof (cases y)
    case (Inl err)
    with run y s1 h1 show ?thesis by (auto simp: withKV_def intro: runs.none)
  next
    case (Inr kv)
    obtain z w2 where z: "op kv w1 = (z, w2)" by fastforce
    obtain u s3 where u: "Reopen (b1, p1, w2) = (u, s3)" by (metis prod.exhaust)
    obtain b3 p3 w3 where s3: "s3 = (b3, p3, w3)" by (metis prod.exhaust)
    from Reopen_handed [OF h1(2) u] s3 have h3: "rely V w2 w3" "bucket_lawful b3 V" "b_cfg b3 = b_cfg b1"
      "\<And>kv. u = Inr kv \<Longrightarrow> kv_lawful kv V" by (auto simp: handed_def opened_def)
    from run y s1 Inr z u s3 h1 h3 show ?thesis
      by (auto simp: withKV_def split: sum.splits if_splits prod.splits
          intro: runs.once runs.lost runs.twice)
  qed
qed

text \<open>A world predicate that interference and every run of \<open>op\<close> keep is kept by \<open>withKV\<close>.\<close>

lemma runs_keep:
  assumes "runs V op w x w'" and "rely_keeps V P" and "P w"
    and "\<And>kv w x w'. kv_lawful kv V \<Longrightarrow> P w \<Longrightarrow> op kv w = (x, w') \<Longrightarrow> P w'"
  shows "P w'"
proof -
  have keep: "P b" if "P a" "rely V a b" for a b
    using assms(2) that unfolding rely_keeps_def by blast
  from assms(1) show ?thesis
  proof cases
    case none
    with assms(3) keep show ?thesis by blast
  next
    case (once kv w1)
    with assms(3,4) keep show ?thesis by blast
  next
    case (lost kv w1 e w2)
    with assms(3,4) keep show ?thesis by meson
  next
    case (twice kv w1 e w2 w3 kv')
    with assms(3,4) keep show ?thesis by meson
  qed
qed

text \<open>If each run has the outcome of a guarded write, a successful \<open>withKV\<close> ends with its effect,
  after at most one earlier run whose outcome stayed open.\<close>

lemma runs_outcome:
  assumes "runs V op w (Inr r) w'" and V: "view_ok V"
    and each: "\<And>kv w x w'. kv_lawful kv V \<Longrightarrow> op kv w = (x, w') \<Longrightarrow> write_outcome V w x (C w) w'"
    and shift: "\<And>w w0 r w'. rely V w w0 \<Longrightarrow> C w0 r w' \<Longrightarrow> C w r w'"
  shows "C w r w' \<or> (\<exists>r0 w1. C w r0 w1 \<and> C w1 r w')"
  using assms(1)
proof cases
  case (once kv w1)
  then have "C w1 r w'" using each [of kv w1 "Inr r" w'] by (simp add: write_outcome_def)
  with once(2) shift show ?thesis by blast
next
  case (twice kv w1 e w2 w3 kv')
  then have last: "C w3 r w'" using each [of kv' w3 "Inr r" w'] by (simp add: write_outcome_def)
  from twice(1,3) have "rely V w1 w2 \<or> (\<exists>r0. C w1 r0 w2)"
    using each [of kv w1 "Inl e" w2] by (auto simp: write_outcome_def)
  then show ?thesis
  proof
    assume "rely V w1 w2"
    then have "rely V w w3" using rely_trans [OF V] twice(2,5) by metis
    with last shift show ?thesis by blast
  next
    assume "\<exists>r0. C w1 r0 w2"
    then obtain r0 where "C w1 r0 w2" by blast
    then have "C w r0 w2" using shift twice(2) by blast
    moreover have "C w2 r w'" using shift last twice(5) by blast
    ultimately show ?thesis by blast
  qed
qed

context cas_update
begin

lemma withKV_inv:
  assumes B: "bucket_lawful b V" and P: "pause_lawful pause V"
    and C: "codec_ok dec enc" and K: "rely_keeps V (record_inv V dec good key)"
    and w: "record_inv V dec good key w" and zero: "CreateIfAbsent cfg \<Longrightarrow> good zero"
    and run: "withKV (\<lambda>kv. Update kv pause dec enc zero key cfg (mutate p)) (b, q, w) = (x, b', q', w')"
  shows "record_inv V dec good key w'"
proof -
  from withKV_runs [OF B run]
  have "runs V (\<lambda>kv. Update kv pause dec enc zero key cfg (mutate p)) w x w'" by blast
  then show ?thesis
    by (rule runs_keep [OF _ K w]) (blast intro: Update_inv [OF _ P C K] zero)
qed

lemma Mutate_inv:
  assumes "bucket_lawful b V" and "pause_lawful pause V"
    and "codec_ok dec enc" and "rely_keeps V (record_inv V dec good key)"
    and "record_inv V dec good key w"
    and "Store_Mutate pause dec enc zero key (mutate p) (b, q, w) = (x, b', q', w')"
  shows "record_inv V dec good key w'"
  by (rule withKV_inv [OF assms(1-5) _ assms(6) [unfolded Store_Mutate_def]])
    (simp add: mutate_config_def)

end

context cas_record
begin

lemma Upsert_inv:
  assumes "bucket_lawful b V" and "pause_lawful pause V"
    and "codec_ok dec enc" and "rely_keeps V (record_inv V dec good key)"
    and "record_inv V dec good key w"
    and "Store_Upsert pause dec enc zero key (mutate p) (b, q, w) = (x, b', q', w')"
  shows "record_inv V dec good key w'"
  by (rule withKV_inv [OF assms(1-5) good_zero assms(6) [unfolded Store_Upsert_def]])

end

lemma Upsert_outcome:
  assumes B: "bucket_lawful b V" and P: "pause_lawful pause V"
    and run: "Store_Upsert pause dec enc zero key fn (b, q, w) = (Inr r, b', q', w')"
  shows "let C = update_effect V dec enc zero True key fn
         in C w r w' \<or> (\<exists>r0 w1. C w r0 w1 \<and> C w1 r w')"
proof -
  note V = bucket_lawful_view [OF B]
  from withKV_runs [OF B run [unfolded Store_Upsert_def]]
  have "runs V (\<lambda>kv. Update kv pause dec enc zero key (upsert_config (b_cfg b)) fn) w (Inr r) w'" by simp
  then show ?thesis unfolding Let_def
  proof (rule runs_outcome [OF _ V])
    fix kv w x w'
    assume "kv_lawful kv V" and "Update kv pause dec enc zero key (upsert_config (b_cfg b)) fn w = (x, w')"
    from Update_outcome [OF this(1) P this(2)]
    show "write_outcome V w x (update_effect V dec enc zero True key fn w) w'"
      by (simp add: upsert_config_def)
  qed (rule update_effect_relyL [OF V])
qed

lemma Mutate_outcome:
  assumes B: "bucket_lawful b V" and P: "pause_lawful pause V"
    and run: "Store_Mutate pause dec enc zero key fn (b, q, w) = (Inr r, b', q', w')"
  shows "let C = update_effect V dec enc zero False key fn
         in C w r w' \<or> (\<exists>r0 w1. C w r0 w1 \<and> C w1 r w')"
proof -
  note V = bucket_lawful_view [OF B]
  from withKV_runs [OF B run [unfolded Store_Mutate_def]]
  have "runs V (\<lambda>kv. Update kv pause dec enc zero key (mutate_config (b_cfg b) key) fn) w (Inr r) w'" by simp
  then show ?thesis unfolding Let_def
  proof (rule runs_outcome [OF _ V])
    fix kv w x w'
    assume "kv_lawful kv V" and "Update kv pause dec enc zero key (mutate_config (b_cfg b) key) fn w = (x, w')"
    from Update_outcome [OF this(1) P this(2)]
    show "write_outcome V w x (update_effect V dec enc zero False key fn w) w'"
      by (simp add: mutate_config_def)
  qed (rule update_effect_relyL [OF V])
qed

end
