(* ===== verification/Kvstore_Claims.thy ===== *)
theory Kvstore_Claims
  imports Kvstore Membucket
begin

text \<open>
  What the typed store promises: compare-and-set decides exactly one winner per revision, a
  read-modify-write that succeeds was applied atomically, and a snapshot is complete or an error.
\<close>

section \<open>A store over the in-memory bucket\<close>

definition mem_config :: "('d mem, 'd) Config" where
  "mem_config = \<lparr>Name = ''b'', History = 1, Description = [], TTL = 0, Missing = [], cfgAttempts = 0,
     cfgExhausted = None, RecreateIfMissing = False, AttachOnly = False, OnOpen = None\<rparr>"

definition mem_bucket :: "(string \<times> 'd \<Rightarrow> bool) \<Rightarrow> ('d mem, 'd) Bucket" where
  "mem_bucket F = NewOpenBucket None (mem_kv F) mem_config"

definition idle_proc :: Proc where "idle_proc = \<lparr>pr_nodes = 1, pr_last = Map.empty\<rparr>"

lemma mem_bucket_lawful: "bucket_lawful (mem_bucket F) (mem_view F)"
  by (simp add: bucket_lawful_def mem_bucket_def NewOpenBucket_def mem_config_def hook_lawful_def
      mem_kv_lawful mem_view_ok)

section \<open>Compare-and-set\<close>

text \<open>
  \<open>CompareAndSet\<close> decides. When it returns a revision, the key was at the caller's revision \<open>r\<close>
  and was replaced by the encoding of \<open>v\<close> at that instant; when it returns \<open>ErrConflict\<close>, this
  call changed nothing. The call is never replayed against a reopened bucket.
\<close>

theorem CompareAndSet_decides:
  assumes "bucket_lawful b V" and "CompareAndSet enc key v r (b, p, w) = (x, b', p', w')"
  shows "case x of
      Inr next \<Rightarrow> \<exists>data d0. enc v = Inr data \<and> committed V w key (Some (d0, r)) (Some (data, next)) w'
    | Inl e \<Rightarrow> e = keyed ErrConflict key \<longrightarrow> rely V w w'"
proof -
  note V = bucket_lawful_view [OF assms(1)]
  obtain y b1 p1 w1 where y: "KV (b, p, w) = (y, b1, p1, w1)" by (metis prod.exhaust)
  from KV_handed [OF assms(1) y] have r1: "rely V w w1" and L: "\<And>kv. y = Inr kv \<Longrightarrow> kv_lawful kv V"
    by (auto simp: handed_def opened_def)
  show ?thesis
  proof (cases "\<exists>kv data. y = Inr kv \<and> enc v = Inr data")
    case False
    with assms(2) y r1 show ?thesis by (cases y) (auto simp: CompareAndSet_def split: sum.splits)
  next
    case True
    then obtain kv data where kd: "y = Inr kv" "enc v = Inr data" by blast
    obtain z w2 where z: "kv_Update kv w1 key data r = (z, w2)" by fastforce
    note out = Update_lawful [OF L [OF kd(1)] z]
    show ?thesis
    proof (cases z)
      case (Inr r')
      with out obtain d0 where "committed V w1 key (Some (d0, r)) (Some (data, r')) w2"
        by (auto simp: write_outcome_def)
      from committed_relyL [OF V r1 this] Inr assms(2) y kd z show ?thesis
        by (auto simp: CompareAndSet_def)
    next
      case (Inl err)
      with out have "isConflict err \<Longrightarrow> rely V w1 w2" by (auto simp: write_outcome_def)
      with rely_trans [OF V r1] have "isConflict err \<Longrightarrow> rely V w w2" by blast
      with Inl assms(2) y kd z show ?thesis
        by (auto simp: CompareAndSet_def isConflict_def split: if_splits)
    qed
  qed
qed

definition counted :: "nat mem" where
  "counted = \<lparr>mem_log = [(''n'', Some 3)], mem_script = []\<rparr>"

theorem CompareAndSet_decides_example:
  "\<exists>b' p' w'.
     CompareAndSet Inr ''n'' (4::nat) 1 (mem_bucket (\<lambda>_. True), idle_proc, counted) = (Inr 2, b', p', w') \<and>
     (\<exists>data d0. (Inr 4 :: nat result) = Inr data \<and>
        committed (mem_view (\<lambda>_. True)) counted ''n'' (Some (d0, 1)) (Some (data, 2)) w')"
proof -
  have run: "CompareAndSet Inr ''n'' (4::nat) 1 (mem_bucket (\<lambda>_. True), idle_proc, counted) =
     (Inr 2, mem_bucket (\<lambda>_. True), idle_proc, \<lparr>mem_log = [(''n'', Some 4), (''n'', Some 3)], mem_script = []\<rparr>)"
    by (simp add: CompareAndSet_def KV_def mem_bucket_def NewOpenBucket_def mem_kv_def counted_def
        mem_append_def)
  from CompareAndSet_decides [OF mem_bucket_lawful run] run show ?thesis by auto
qed

section \<open>Read-modify-write through a lost stream\<close>

text \<open>
  An \<open>Upsert\<close> that succeeds was applied atomically to the value its key then had. If the
  stream was lost during a first run, that run may also have been applied before: the result is
  the last of at most two atomic applications, and nothing else of this call is ever visible.
\<close>

theorem Upsert_applied:
  assumes "bucket_lawful b V" and "pause_lawful pause V"
    and "Store_Upsert pause dec enc zero key fn (b, p, w) = (Inr r, b', p', w')"
  shows "update_effect V dec enc zero True key fn w r w' \<or>
     (\<exists>r0 w1. update_effect V dec enc zero True key fn w r0 w1 \<and>
              update_effect V dec enc zero True key fn w1 r w')"
  using Upsert_outcome [OF assms] unfolding Let_def .

theorem Upsert_applied_example:
  "\<exists>w'. fst (Store_Upsert mem_pause Inr Inr 0 ''n'' (\<lambda>n. Inr (True, n + 1, ()))
           (mem_bucket (\<lambda>_. True), idle_proc, counted)) = Inr (4::nat, ()) \<and>
     (update_effect (mem_view (\<lambda>_. True)) Inr Inr 0 True ''n'' (\<lambda>n. Inr (True, n + 1, ())) counted (4, ()) w' \<or>
      (\<exists>r0 w1. update_effect (mem_view (\<lambda>_. True)) Inr Inr 0 True ''n'' (\<lambda>n. Inr (True, n + 1, ())) counted r0 w1 \<and>
        update_effect (mem_view (\<lambda>_. True)) Inr Inr 0 True ''n'' (\<lambda>n. Inr (True, n + 1, ())) w1 (4, ()) w'))"
proof -
  have run: "Store_Upsert mem_pause Inr Inr 0 ''n'' (\<lambda>n. Inr (True, n + 1, ()))
      (mem_bucket (\<lambda>_. True), idle_proc, counted) =
      (Inr (4::nat, ()), mem_bucket (\<lambda>_. True), idle_proc,
       \<lparr>mem_log = [(''n'', Some 4), (''n'', Some 3)], mem_script = []\<rparr>)"
    by (simp add: Store_Upsert_def withKV_def KV_def mem_bucket_def NewOpenBucket_def mem_kv_def
        counted_def mem_append_def Update_def retryCAS_def cas_attempts_def casAttempts_def
        upsert_config_def mem_config_def eval_nat_numeral Update_attempt_def Update_commit_def
        cas_write_def mem_foreign_def)
  from Upsert_applied [OF mem_bucket_lawful mem_pause_lawful run] run show ?thesis by auto
qed

section \<open>Snapshots\<close>

definition snapshot_item :: "('d \<Rightarrow> 'v result) \<Rightarrow> 'd kv_entry \<Rightarrow> 'v Item \<Rightarrow> bool" where
  "snapshot_item dec e i \<longleftrightarrow>
     dec (e_value e) = Inr (it_Value i) \<and> it_Key i = e_key e \<and> it_Revision i = e_revision e"

lemma snapshot_entries_sound:
  "snapshot_entries dec early es items high = Inr (out, peak) \<Longrightarrow>
   \<exists>pre post more. es = map Some pre @ None # post \<and> out = items @ more \<and>
     list_all2 (snapshot_item dec) (filter e_put pre) more \<and> peak = fold max (map e_revision pre) high"
proof (induction dec early es items high rule: snapshot_entries.induct)
  case (2 dec early es items high)
  then show ?case by (intro exI [of _ "[]"] exI [of _ es]) simp
next
  case (3 dec early e es items high)
  show ?case
  proof (cases "e_put e")
    case False
    with 3 obtain pre post more where "es = map Some pre @ None # post" "out = items @ more"
      "list_all2 (snapshot_item dec) (filter e_put pre) more"
      "peak = fold max (map e_revision pre) (max high (e_revision e))"
      by (auto simp: Let_def)
    with False show ?thesis
      by (intro exI [of _ "e # pre"] exI [of _ post] exI [of _ more]) (simp add: max.commute)
  next
    case True
    with 3 obtain v where v: "dec (e_value e) = Inr v" by (auto simp: Let_def split: sum.splits)
    with True 3 obtain pre post more where "es = map Some pre @ None # post"
      "out = (items @ [\<lparr>it_Key = e_key e, it_Value = v, it_Revision = e_revision e\<rparr>]) @ more"
      "list_all2 (snapshot_item dec) (filter e_put pre) more"
      "peak = fold max (map e_revision pre) (max high (e_revision e))"
      by (fastforce simp: Let_def)
    moreover from v have
      "snapshot_item dec e \<lparr>it_Key = e_key e, it_Value = v, it_Revision = e_revision e\<rparr>"
      by (simp add: snapshot_item_def)
    ultimately show ?thesis using True
      by (intro exI [of _ "e # pre"] exI [of _ post]
          exI [of _ "\<lparr>it_Key = e_key e, it_Value = v, it_Revision = e_revision e\<rparr> # more"])
        (simp add: max.commute)
  qed
qed simp

lemma fold_max_ge: "x \<le> fold max xs (x::nat) \<and> (\<forall>y\<in>set xs. y \<le> fold max xs x)"
proof (induction xs arbitrary: x)
  case (Cons a xs)
  from Cons.IH [of "max a x"] show ?case by auto
qed simp

text \<open>
  A snapshot is whole or an error. If the watcher's entries are accepted, the channel
  delivered the end marker; the items are exactly the decoded puts before it, in order, each with
  the key and revision it was read at; and no entry before the marker, delete markers included,
  has a revision above the reported high-water mark.
\<close>

lemma Snapshot_whole:
  assumes "snapshot_entries dec early es [] 0 = Inr (items, highWater)"
  shows "\<exists>pre post. es = map Some pre @ None # post \<and>
     list_all2 (\<lambda>e i. dec (e_value e) = Inr (it_Value i) \<and> it_Key i = e_key e \<and> it_Revision i = e_revision e)
       (filter e_put pre) items \<and>
     (\<forall>e\<in>set pre. e_revision e \<le> highWater)"
proof -
  from snapshot_entries_sound [OF assms] obtain pre post where
    "es = map Some pre @ None # post" "list_all2 (snapshot_item dec) (filter e_put pre) items"
    "highWater = fold max (map e_revision pre) 0" by auto
  with fold_max_ge [of 0 "map e_revision pre"] show ?thesis
    unfolding snapshot_item_def by (intro exI [of _ pre] exI [of _ post]) auto
qed

definition watched :: "nat kv_entry option list" where
  "watched = [Some \<lparr>e_key = ''a'', e_revision = 4, e_put = True, e_value = 7\<rparr>,
     Some \<lparr>e_key = ''b'', e_revision = 9, e_put = False, e_value = 0\<rparr>, None]"

lemma Snapshot_whole_example:
  "snapshot_entries Inr (Text ''early'') watched [] 0 =
     Inr ([\<lparr>it_Key = ''a'', it_Value = 7, it_Revision = 4\<rparr>], 9) \<and>
   (\<exists>pre post. watched = map Some pre @ None # post \<and> (\<forall>e\<in>set pre. e_revision e \<le> 9))"
proof -
  have run: "snapshot_entries Inr (Text ''early'') watched [] 0 =
     Inr ([\<lparr>it_Key = ''a'', it_Value = 7, it_Revision = 4\<rparr>], 9)"
    by (simp add: watched_def)
  from Snapshot_whole [OF run] run show ?thesis by blast
qed

end
