(* ===== verification/Netip.thy ===== *)
theory Netip
  imports Prelude
begin

text \<open>
  The part of Go's \<open>net/netip\<close> the address allocators use: \<open>Addr\<close> with \<open>Next\<close>, \<open>String\<close> and
  \<open>ParseAddr\<close> for both families, and \<open>Prefix\<close> with \<open>ParsePrefix\<close>, \<open>Masked\<close> and \<open>Contains\<close>.
  Parse errors carry their fixed message; the quoted input is left out.
\<close>

unbundle bit_operations_syntax

section \<open>Addresses\<close>

text \<open>\<open>Addr0\<close> is an \<open>Addr\<close> without a family (\<open>z0\<close>), the result of an overflowing \<open>Next\<close>;
  \<open>Addr6\<close> carries its zone, empty for none.\<close>

datatype Addr = Addr0 "128 word" | Addr4 "32 word" | Addr6 "128 word" string

fun IsValid :: "Addr \<Rightarrow> bool" where
  "IsValid (Addr0 a) = False"
| "IsValid (Addr4 a) = True"
| "IsValid (Addr6 a z) = True"

fun Next :: "Addr \<Rightarrow> Addr" where
  "Next (Addr0 a) = Addr0 (a + 1)"
| "Next (Addr4 a) = (if a + 1 = 0 then Addr0 0 else Addr4 (a + 1))"
| "Next (Addr6 a z) = (if a + 1 = 0 then Addr0 0 else Addr6 (a + 1) z)"

section \<open>Printing\<close>

definition octet :: "32 word \<Rightarrow> nat \<Rightarrow> nat" where
  "octet a i = unat a div 256 ^ (3 - i) mod 256"

definition string4 :: "32 word \<Rightarrow> string" where
  "string4 a = go_itoa (octet a 0) @ ''.'' @ go_itoa (octet a 1) @ ''.'' @ go_itoa (octet a 2)
     @ ''.'' @ go_itoa (octet a 3)"

definition v6u16 :: "128 word \<Rightarrow> nat \<Rightarrow> nat" where
  "v6u16 a i = unat a div 65536 ^ (7 - i) mod 65536"

definition hex_digit :: "nat \<Rightarrow> char" where
  "hex_digit n = (if n < 10 then char_of (48 + n) else char_of (87 + n))"

fun appendHex :: "nat \<Rightarrow> string" where
  "appendHex n = (if n < 16 then [hex_digit n] else appendHex (n div 16) @ [hex_digit (n mod 16)])"

declare appendHex.simps [simp del]

text \<open>The length of the run of zero groups starting at a group.\<close>

fun zero_run :: "nat list \<Rightarrow> nat" where
  "zero_run [] = 0"
| "zero_run (g # gs) = (if g = 0 then Suc (zero_run gs) else 0)"

text \<open>The first longest run of at least two zero groups, as \<open>(start, end)\<close>.\<close>

definition longest_zeros :: "nat list \<Rightarrow> (nat \<times> nat) option" where
  "longest_zeros gs =
     fold (\<lambda>i best.
        let l = zero_run (drop i gs)
        in if l \<ge> 2 \<and> (case best of None \<Rightarrow> True | Some (s, e) \<Rightarrow> l > e - s) then Some (i, i + l) else best)
      [0..<8] None"

definition string6 :: "128 word \<Rightarrow> string \<Rightarrow> string" where
  "string6 a z =
     (let gs = map (v6u16 a) [0..<8];
          body = (case longest_zeros gs of
                    None \<Rightarrow> go_join '':'' (map appendHex gs)
                  | Some (s, e) \<Rightarrow>
                      go_join '':'' (map appendHex (take s gs)) @ ''::''
                      @ go_join '':'' (map appendHex (drop e gs)))
      in if z = [] then body else body @ ''%'' @ z)"

definition Is4In6 :: "128 word \<Rightarrow> bool" where
  "Is4In6 a \<longleftrightarrow> unat a div 2 ^ 32 = 65535"

fun Addr_String :: "Addr \<Rightarrow> string" where
  "Addr_String (Addr0 a) = ''invalid IP''"
| "Addr_String (Addr4 a) = string4 a"
| "Addr_String (Addr6 a z) =
     (if Is4In6 a then ''::ffff:'' @ string4 (ucast a) @ (if z = [] then [] else ''%'' @ z)
      else string6 a z)"

section \<open>Parsing\<close>

text \<open>\<open>parseIPv4Fields\<close>: \<open>val\<close> and \<open>digLen\<close> describe the octet being read, \<open>fields\<close> the ones
  before it.\<close>

fun parse4 :: "string \<Rightarrow> nat \<Rightarrow> nat \<Rightarrow> nat list \<Rightarrow> nat list result" where
  "parse4 [] val digLen fields =
     (if length fields < 3 then Inl (Text ''IPv4 address too short'') else Inr (fields @ [val]))"
| "parse4 (c # s) val digLen fields =
     (if is_digit c
      then if digLen = 1 \<and> val = 0 then Inl (Text ''IPv4 field has octet with leading zero'')
           else if val * 10 + digit_val c > 255 then Inl (Text ''IPv4 field has value >255'')
           else parse4 s (val * 10 + digit_val c) (Suc digLen) fields
      else if c = CHR ''.''
      then if digLen = 0 \<or> s = [] then Inl (Text ''IPv4 field must have at least one digit'')
           else if length fields = 3 then Inl (Text ''IPv4 address too long'')
           else parse4 s 0 0 (fields @ [val])
      else Inl (Text ''unexpected character''))"

definition octets_word :: "nat list \<Rightarrow> 'a::len word" where
  "octets_word fs = of_nat (foldl (\<lambda>n f. n * 256 + f) 0 fs)"

definition parseIPv4 :: "string \<Rightarrow> Addr result" where
  "parseIPv4 s = (case parse4 s 0 0 [] of Inl e \<Rightarrow> Inl e | Inr fs \<Rightarrow> Inr (Addr4 (octets_word fs)))"

definition hex_val :: "char \<Rightarrow> nat option" where
  "hex_val c =
     (let n = of_char c :: nat
      in if 48 \<le> n \<and> n \<le> 57 then Some (n - 48)
         else if 97 \<le> n \<and> n \<le> 102 then Some (n - 87)
         else if 65 \<le> n \<and> n \<le> 70 then Some (n - 55) else None)"

text \<open>
  The group loop of \<open>parseIPv6\<close>. \<open>room\<close> groups are left of eight, \<open>gs\<close> holds the groups read, and
  \<open>ell\<close> the position of the ellipsis. It returns the groups, the ellipsis and the unread rest.
\<close>

fun parse6_groups ::
  "nat \<Rightarrow> string \<Rightarrow> nat list \<Rightarrow> nat option \<Rightarrow> (nat list \<times> nat option \<times> string) result" where
  "parse6_groups 0 s gs ell = Inr (gs, ell, s)"
| "parse6_groups (Suc room) s gs ell =
     (let ds = takeWhile (\<lambda>c. hex_val c \<noteq> None) s; rest = drop (length ds) s;
          acc = foldl (\<lambda>n c. n * 16 + the (hex_val c)) 0 ds
      in if length ds > 4 then Inl (Text ''each group must have 4 or less digits'')
         else if ds = [] then Inl (Text ''each colon-separated field must have at least one digit'')
         else if rest \<noteq> [] \<and> hd rest = CHR ''.''
         then if ell = None \<and> length gs \<noteq> 6
              then Inl (Text ''embedded IPv4 address must replace the final 2 fields of the address'')
              else if room = 0
              then Inl (Text ''too many hex fields to fit an embedded IPv4 at the end of the address'')
              else (case parse4 s 0 0 [] of
                      Inl e \<Rightarrow> Inl e
                    | Inr fs \<Rightarrow> Inr (gs @ [fs ! 0 * 256 + fs ! 1, fs ! 2 * 256 + fs ! 3], ell, []))
         else if rest = [] then Inr (gs @ [acc], ell, [])
         else if hd rest \<noteq> CHR '':'' then Inl (Text ''unexpected character, want colon'')
         else if tl rest = [] then Inl (Text ''colon must be followed by more characters'')
         else if hd (tl rest) = CHR '':''
         then if ell \<noteq> None then Inl (Text ''multiple :: in address'')
              else if tl (tl rest) = [] then Inr (gs @ [acc], Some (Suc (length gs)), [])
              else parse6_groups room (tl (tl rest)) (gs @ [acc]) (Some (Suc (length gs)))
         else parse6_groups room (tl rest) (gs @ [acc]) ell)"

definition groups_word :: "nat list \<Rightarrow> 128 word" where
  "groups_word gs = of_nat (foldl (\<lambda>n g. n * 65536 + g) 0 gs)"

definition parseIPv6 :: "string \<Rightarrow> Addr result" where
  "parseIPv6 inp =
     (let s = takeWhile (\<lambda>c. c \<noteq> CHR ''%'') inp;
          hasZone = CHR ''%'' \<in> set inp; zone = drop (Suc (length s)) inp
      in if hasZone \<and> zone = [] then Inl (Text ''zone must be a non-empty string'')
         else (let lead = go_has_prefix s ''::''; t = (if lead then drop 2 s else s)
               in if lead \<and> t = [] then Inr (Addr6 0 zone)
                  else case parse6_groups 8 t [] (if lead then Some 0 else None) of
                         Inl e \<Rightarrow> Inl e
                       | Inr (gs, ell, rest) \<Rightarrow>
                           if rest \<noteq> [] then Inl (Text ''trailing garbage after address'')
                           else if length gs < 8
                           then (case ell of
                                   None \<Rightarrow> Inl (Text ''address string too short'')
                                 | Some k \<Rightarrow>
                                     Inr (Addr6 (groups_word (take k gs @ replicate (8 - length gs) 0 @ drop k gs)) zone))
                           else if ell \<noteq> None
                           then Inl (Text ''the :: must expand to at least one field of zeros'')
                           else Inr (Addr6 (groups_word gs) zone)))"

fun parse_family :: "string \<Rightarrow> char option" where
  "parse_family [] = None"
| "parse_family (c # s) =
     (if c = CHR ''.'' \<or> c = CHR '':'' \<or> c = CHR ''%'' then Some c else parse_family s)"

definition ParseAddr :: "string \<Rightarrow> Addr result" where
  "ParseAddr s =
     (case parse_family s of
        None \<Rightarrow> Inl (Text ''unable to parse IP'')
      | Some c \<Rightarrow> if c = CHR ''.'' then parseIPv4 s
                  else if c = CHR '':'' then parseIPv6 s
                  else Inl (Text ''missing IPv6 address''))"

text \<open>\<open>net.ParseIP(s).To4()\<close>: an IPv4 address, or an IPv4-mapped IPv6 one without a zone.\<close>

definition ParseIP_To4 :: "string \<Rightarrow> 32 word option" where
  "ParseIP_To4 s =
     (case ParseAddr s of
        Inr (Addr4 a) \<Rightarrow> Some a
      | Inr (Addr6 a z) \<Rightarrow> if z = [] \<and> Is4In6 a then Some (ucast a) else None
      | _ \<Rightarrow> None)"

section \<open>Prefixes\<close>

text \<open>A valid prefix: an address (its zone dropped) and a length within the family's width.\<close>

record Prefix =
  pfx_addr :: Addr
  pfx_bits :: nat

fun withoutZone :: "Addr \<Rightarrow> Addr" where
  "withoutZone (Addr6 a z) = Addr6 a []"
| "withoutZone a = a"

fun BitLen :: "Addr \<Rightarrow> nat" where
  "BitLen (Addr0 a) = 0"
| "BitLen (Addr4 a) = 32"
| "BitLen (Addr6 a z) = 128"

fun hasZone :: "Addr \<Rightarrow> bool" where
  "hasZone (Addr6 a z) = (z \<noteq> [])"
| "hasZone a = False"

definition ParsePrefix :: "string \<Rightarrow> Prefix result" where
  "ParsePrefix s =
     (if CHR ''/'' \<notin> set s then Inl (Text ''no slash'')
      else (let bitsStr = rev (takeWhile (\<lambda>c. c \<noteq> CHR ''/'') (rev s));
                host = take (length s - Suc (length bitsStr)) s
            in case ParseAddr host of
                 Inl e \<Rightarrow> Inl e
               | Inr ip \<Rightarrow>
                   if hasZone ip then Inl (Text ''IPv6 zones cannot be present in a prefix'')
                   else if length bitsStr > 1 \<and> (\<not> is_digit (hd bitsStr) \<or> hd bitsStr = CHR ''0'')
                   then Inl (Text ''bad bits after slash'')
                   else (case go_atoi bitsStr of
                           None \<Rightarrow> Inl (Text ''bad bits after slash'')
                         | Some bits \<Rightarrow>
                             if bits < 0 \<or> bits > int (BitLen ip) then Inl (Text ''prefix length out of range'')
                             else Inr \<lparr>pfx_addr = ip, pfx_bits = nat bits\<rparr>)))"

definition Masked :: "Prefix \<Rightarrow> Prefix" where
  "Masked p =
     (case pfx_addr p of
        Addr0 a \<Rightarrow> p
      | Addr4 a \<Rightarrow> p\<lparr>pfx_addr := Addr4 (a AND NOT (mask (32 - pfx_bits p)))\<rparr>
      | Addr6 a z \<Rightarrow> p\<lparr>pfx_addr := Addr6 (a AND NOT (mask (128 - pfx_bits p))) []\<rparr>)"

definition Contains :: "Prefix \<Rightarrow> Addr \<Rightarrow> bool" where
  "Contains p ip \<longleftrightarrow>
     (case (pfx_addr p, ip) of
        (Addr4 a, Addr4 b) \<Rightarrow> drop_bit (32 - pfx_bits p) (b XOR a) = 0
      | (Addr6 a z, Addr6 b z') \<Rightarrow> z' = [] \<and> (b XOR a) AND NOT (mask (128 - pfx_bits p)) = 0
      | _ \<Rightarrow> False)"

section \<open>Prefixes as ranges\<close>

lemma xor_zero_iff: "b XOR a = 0 \<longleftrightarrow> b = (a :: 'a::len word)"
proof
  assume "b XOR a = 0"
  then have "(b XOR a) XOR a = a" by simp
  then show "b = a" by (simp add: xor.assoc)
qed simp

lemma unat_drop_eq: "drop_bit n b = drop_bit n a \<longleftrightarrow> unat b div 2 ^ n = unat (a :: 'a::len word) div 2 ^ n"
  by (metis unat_drop_bit_eq drop_bit_eq_div word_unat_eq_iff)

lemma drop_xor_zero: "drop_bit n (b XOR a) = 0 \<longleftrightarrow> unat b div 2 ^ n = unat (a :: 'a::len word) div 2 ^ n"
  by (simp add: drop_bit_xor xor_zero_iff unat_drop_eq)

lemma and_not_mask: "x AND NOT (mask n) = push_bit n (drop_bit n (x :: 'a::len word))"
  by (rule bit_word_eqI) (auto simp: bit_simps)

lemma unat_and_not_mask:
  "unat (x AND NOT (mask n) :: 'a::len word) = unat x div 2 ^ n * 2 ^ n"
proof -
  have "unat x div 2 ^ n * 2 ^ n \<le> unat x" by simp
  also have "unat x < 2 ^ LENGTH('a)" by (rule unsigned_less)
  finally have "unat x div 2 ^ n * 2 ^ n < 2 ^ LENGTH('a)" .
  then show ?thesis
    unfolding and_not_mask unsigned_push_bit_eq unat_drop_bit_eq
    by (simp add: push_bit_eq_mult drop_bit_eq_div take_bit_nat_eq_self mult.commute)
qed

lemma and_not_mask_xor_zero:
  "(b XOR a) AND NOT (mask n) = 0 \<longleftrightarrow> unat b div 2 ^ n = unat (a :: 'a::len word) div 2 ^ n"
proof -
  have "(b XOR a) AND NOT (mask n) = 0 \<longleftrightarrow> unat (b XOR a) div 2 ^ n * 2 ^ n = 0"
    by (metis unat_and_not_mask unat_eq_zero)
  also have "\<dots> \<longleftrightarrow> drop_bit n (b XOR a) = 0"
    by (metis drop_bit_eq_div mult_is_0 power_not_zero unat_drop_bit_eq unat_eq_zero zero_neq_numeral)
  finally show ?thesis unfolding drop_xor_zero .
qed

lemma div_range: "0 < s \<Longrightarrow> x div s = a div s \<longleftrightarrow> a div s * s \<le> x \<and> x < a div s * s + (s :: nat)"
proof
  assume s: "0 < s"
  show "x div s = a div s \<Longrightarrow> a div s * s \<le> x \<and> x < a div s * s + s"
    using s by (metis add.commute div_mult_mod_eq le_add1 mod_less_divisor nat_add_left_cancel_less)
  show "a div s * s \<le> x \<and> x < a div s * s + s \<Longrightarrow> x div s = a div s"
    using s by (intro div_nat_eqI) (auto simp: mult.commute)
qed

text \<open>The number behind an address, and the address of a number in a prefix's family.\<close>

fun addr_nat :: "Addr \<Rightarrow> nat" where
  "addr_nat (Addr0 a) = unat a"
| "addr_nat (Addr4 a) = unat a"
| "addr_nat (Addr6 a z) = unat a"

definition pfx_ok :: "Prefix \<Rightarrow> bool" where
  "pfx_ok p \<longleftrightarrow> IsValid (pfx_addr p) \<and> \<not> hasZone (pfx_addr p) \<and> pfx_bits p \<le> BitLen (pfx_addr p)"

definition mk_addr :: "Prefix \<Rightarrow> nat \<Rightarrow> Addr" where
  "mk_addr p n = (case pfx_addr p of Addr6 a z \<Rightarrow> Addr6 (of_nat n) [] | _ \<Rightarrow> Addr4 (of_nat n))"

definition block :: "Prefix \<Rightarrow> nat" where
  "block p = 2 ^ (BitLen (pfx_addr p) - pfx_bits p)"

definition base :: "Prefix \<Rightarrow> nat" where
  "base p = addr_nat (pfx_addr p) div block p * block p"

definition space :: "Prefix \<Rightarrow> nat" where
  "space p = 2 ^ BitLen (pfx_addr p)"

lemma block_pos [simp]: "0 < block p"
  by (simp add: block_def)

lemma ParsePrefix_ok: "ParsePrefix s = Inr p \<Longrightarrow> pfx_ok p"
proof -
  have v: "ParseAddr t = Inr ip \<Longrightarrow> IsValid ip" for t ip
    by (auto simp: ParseAddr_def parseIPv4_def parseIPv6_def Let_def
        split: option.splits if_splits sum.splits prod.splits)
  show "ParsePrefix s = Inr p \<Longrightarrow> pfx_ok p"
    by (auto simp: ParsePrefix_def Let_def pfx_ok_def dest: v
        split: option.splits if_splits sum.splits)
qed

lemma base_block_space:
  assumes "pfx_ok p"
  shows "base p + block p \<le> space p"
proof -
  let ?W = "BitLen (pfx_addr p)" and ?a = "addr_nat (pfx_addr p)"
  have a: "?a < 2 ^ ?W"
    using assms unsigned_less [where 'a = nat and 'b = 32] unsigned_less [where 'a = nat and 'b = 128]
    by (cases "pfx_addr p") (auto simp: pfx_ok_def)
  from assms have W: "2 ^ (?W - pfx_bits p) * 2 ^ pfx_bits p = (2 :: nat) ^ ?W"
    by (simp add: pfx_ok_def flip: power_add)
  have "?a div block p < 2 ^ pfx_bits p"
    using a W unfolding block_def by (metis less_mult_imp_div_less mult.commute)
  then have "Suc (?a div block p) * block p \<le> 2 ^ pfx_bits p * block p"
    by (intro mult_le_mono1) simp
  then show ?thesis
    using W by (simp add: base_def space_def block_def mult.commute add.commute)
qed

lemma mk_addr_nat [simp]: "pfx_ok p \<Longrightarrow> n < space p \<Longrightarrow> addr_nat (mk_addr p n) = n"
  by (cases "pfx_addr p") (auto simp: mk_addr_def space_def pfx_ok_def unat_of_nat)

lemma mk_addr_inj: "pfx_ok p \<Longrightarrow> m < space p \<Longrightarrow> n < space p \<Longrightarrow> mk_addr p m = mk_addr p n \<Longrightarrow> m = n"
  by (metis mk_addr_nat)

lemma Contains_range:
  assumes "pfx_ok p"
  shows "Contains p ip \<longleftrightarrow> (\<exists>n. ip = mk_addr p n \<and> base p \<le> n \<and> n < base p + block p)"
proof -
  let ?n = "BitLen (pfx_addr p) - pfx_bits p"
  have range: "m div 2 ^ ?n = addr_nat (pfx_addr p) div 2 ^ ?n \<longleftrightarrow> base p \<le> m \<and> m < base p + block p" for m
    unfolding base_def block_def by (rule div_range) simp
  have lt: "n < base p + block p \<Longrightarrow> n < space p" for n using base_block_space [OF assms] by simp
  show ?thesis
  proof (cases "pfx_addr p")
    case (Addr0 a)
    with assms show ?thesis by (simp add: pfx_ok_def)
  next
    case (Addr4 a)
    then have "Contains p ip \<longleftrightarrow> (\<exists>b. ip = Addr4 b \<and> base p \<le> unat b \<and> unat b < base p + block p)"
      using range by (cases ip) (simp_all add: Contains_def xor_zero_iff unat_drop_eq)
    also have "\<dots> \<longleftrightarrow> (\<exists>n. ip = mk_addr p n \<and> base p \<le> n \<and> n < base p + block p)"
    proof
      assume "\<exists>b. ip = Addr4 b \<and> base p \<le> unat b \<and> unat b < base p + block p"
      then obtain b where "ip = Addr4 b \<and> base p \<le> unat b \<and> unat b < base p + block p" by blast
      with Addr4 show "\<exists>n. ip = mk_addr p n \<and> base p \<le> n \<and> n < base p + block p"
        by (intro exI [of _ "unat b"]) (simp add: mk_addr_def)
    next
      assume "\<exists>n. ip = mk_addr p n \<and> base p \<le> n \<and> n < base p + block p"
      then obtain n where n: "ip = mk_addr p n" "base p \<le> n" "n < base p + block p" by blast
      from mk_addr_nat [OF assms lt [OF n(3)]] Addr4 n
      show "\<exists>b. ip = Addr4 b \<and> base p \<le> unat b \<and> unat b < base p + block p"
        by (intro exI [of _ "of_nat n"]) (simp add: mk_addr_def)
    qed
    finally show ?thesis .
  next
    case (Addr6 a z)
    then have "Contains p ip \<longleftrightarrow> (\<exists>b. ip = Addr6 b [] \<and> base p \<le> unat b \<and> unat b < base p + block p)"
      using range by (cases ip) (auto simp: Contains_def and_not_mask_xor_zero)
    also have "\<dots> \<longleftrightarrow> (\<exists>n. ip = mk_addr p n \<and> base p \<le> n \<and> n < base p + block p)"
    proof
      assume "\<exists>b. ip = Addr6 b [] \<and> base p \<le> unat b \<and> unat b < base p + block p"
      then obtain b where "ip = Addr6 b [] \<and> base p \<le> unat b \<and> unat b < base p + block p" by blast
      with Addr6 show "\<exists>n. ip = mk_addr p n \<and> base p \<le> n \<and> n < base p + block p"
        by (intro exI [of _ "unat b"]) (simp add: mk_addr_def)
    next
      assume "\<exists>n. ip = mk_addr p n \<and> base p \<le> n \<and> n < base p + block p"
      then obtain n where n: "ip = mk_addr p n" "base p \<le> n" "n < base p + block p" by blast
      from mk_addr_nat [OF assms lt [OF n(3)]] Addr6 n
      show "\<exists>b. ip = Addr6 b [] \<and> base p \<le> unat b \<and> unat b < base p + block p"
        by (intro exI [of _ "of_nat n"]) (simp add: mk_addr_def)
    qed
    finally show ?thesis .
  qed
qed

lemma word_Suc_zero:
  assumes "n < 2 ^ LENGTH('a)"
  shows "of_nat n + 1 = (0 :: 'a::len word) \<longleftrightarrow> Suc n = 2 ^ LENGTH('a)"
proof -
  have suc: "of_nat n + 1 = (of_nat (Suc n) :: 'a word)" by simp
  have "of_nat n + 1 = (0 :: 'a word) \<longleftrightarrow> 2 ^ LENGTH('a) dvd Suc n"
    unfolding suc by (rule word_of_nat_eq_0_iff)
  also have "\<dots> \<longleftrightarrow> Suc n = 2 ^ LENGTH('a)"
  proof
    assume "2 ^ LENGTH('a) dvd Suc n"
    then have "2 ^ LENGTH('a) \<le> Suc n" by (rule dvd_imp_le) simp
    with assms show "Suc n = 2 ^ LENGTH('a)" by linarith
  qed simp
  finally show ?thesis .
qed

lemma word_next:
  assumes "n < S" and "S = 2 ^ LENGTH('a)"
  shows "of_nat n + 1 = (0 :: 'a::len word) \<longleftrightarrow> \<not> Suc n < S"
  using word_Suc_zero [of n, where 'a = 'a] assms by linarith

lemma Next_mk_addr:
  assumes "pfx_ok p" and "n < space p"
  shows "Next (mk_addr p n) = (if Suc n < space p then mk_addr p (Suc n) else Addr0 0)"
proof (cases "pfx_addr p")
  case (Addr0 a)
  with assms show ?thesis by (simp add: pfx_ok_def)
next
  case (Addr4 a)
  then have "space p = 2 ^ LENGTH(32)" by (simp add: space_def)
  from word_next [OF assms(2) this] Addr4 show ?thesis
    by (simp only: mk_addr_def Addr.case Next.simps of_nat_Suc add.commute if_not_P if_P if_distrib split: if_split) simp
next
  case (Addr6 a z)
  then have "space p = 2 ^ LENGTH(128)" by (simp add: space_def)
  from word_next [OF assms(2) this] Addr6 show ?thesis
    by (simp only: mk_addr_def Addr.case Next.simps of_nat_Suc add.commute if_not_P if_P if_distrib split: if_split) simp
qed

lemma Masked_base: "pfx_ok p \<Longrightarrow> pfx_addr (Masked p) = mk_addr p (base p)"
  by (cases "pfx_addr p")
    (simp_all add: Masked_def mk_addr_def pfx_ok_def base_def block_def flip: unat_and_not_mask)

lemma Contains_Next:
  assumes "pfx_ok p" and "n < space p" and "base p \<le> Suc n"
  shows "Contains p (Next (mk_addr p n)) \<longleftrightarrow> Suc n < base p + block p"
proof -
  have "\<not> Contains p (Addr0 a)" for a
    using assms(1) by (auto simp: Contains_def split: Addr.splits)
  moreover have "Contains p (mk_addr p (Suc n)) \<longleftrightarrow> Suc n < base p + block p" if "Suc n < space p"
  proof -
    have "m = Suc n" if "mk_addr p (Suc n) = mk_addr p m" "m < base p + block p" for m
      using that mk_addr_inj [OF assms(1) \<open>Suc n < space p\<close>, of m] base_block_space [OF assms(1)] by simp
    with assms show ?thesis by (auto simp: Contains_range)
  qed
  ultimately show ?thesis
    using assms base_block_space [OF assms(1)] by (auto simp: Next_mk_addr)
qed

section \<open>Printing and parsing IPv4\<close>

lemma parse4_digit:
  "n < 10 \<Longrightarrow> parse4 (char_of (48 + n) # s) val digLen fs =
     (if digLen = 1 \<and> val = 0 then Inl (Text ''IPv4 field has octet with leading zero'')
      else if val * 10 + n > 255 then Inl (Text ''IPv4 field has value >255'')
      else parse4 s (val * 10 + n) (Suc digLen) fs)"
  by simp

lemma parse4_itoa:
  assumes "n \<le> 255"
  shows "parse4 (go_itoa n @ s) 0 0 fs = parse4 s n (length (go_itoa n)) fs"
proof -
  consider "n < 10" | "10 \<le> n" "n < 100" | "100 \<le> n" by linarith
  then show ?thesis
  proof cases
    case 1
    then have "go_itoa n = [char_of (48 + n)]" by (subst go_itoa.simps) simp
    with 1 show ?thesis by (simp only: append.simps parse4_digit) simp
  next
    case 2
    then have "go_itoa n = [char_of (48 + n div 10), char_of (48 + n mod 10)]"
      by (subst go_itoa.simps, subst go_itoa.simps) auto
    moreover have "0 < n div 10" "\<not> 255 < n div 10" using 2 by auto
    ultimately show ?thesis using 2 assms
      by (simp only: append.simps) (simp add: parse4_digit del: parse4.simps)
  next
    case 3
    then have "go_itoa n = [char_of (48 + n div 100), char_of (48 + n div 10 mod 10), char_of (48 + n mod 10)]"
      using assms
      by (subst go_itoa.simps, subst go_itoa.simps, subst go_itoa.simps) (auto simp: div_mult2_eq [symmetric])
    moreover have "n div 100 * 10 + n div 10 mod 10 = n div 10"
    proof -
      have "n div 100 = n div 10 div 10" by (simp add: div_mult2_eq [symmetric])
      then show ?thesis by (simp only: div_mult_mod_eq)
    qed
    moreover have "0 < n div 100" "\<not> 255 < n div 100" "\<not> 255 < n div 10" "n div 100 < 10"
      using 3 assms by auto
    ultimately show ?thesis using 3 assms
      by (simp only: append.simps) (simp add: parse4_digit del: parse4.simps)
  qed
qed

lemma parse4_dot:
  "0 < d \<Longrightarrow> length fs < 3 \<Longrightarrow> parse4 (CHR ''.'' # go_itoa m @ s) v d fs = parse4 (go_itoa m @ s) 0 0 (fs @ [v])"
  by (simp add: is_digit_def)

lemmas parse4_itoa_end = parse4_itoa [where s = "[]", unfolded append_Nil2]
  and parse4_dot_end = parse4_dot [where s = "[]", unfolded append_Nil2]

lemma octet_bound: "octet a i \<le> 255"
proof -
  have "octet a i < 256" unfolding octet_def by (rule mod_less_divisor) simp
  then show ?thesis by simp
qed

lemma octets_word_octet: "octets_word [octet a 0, octet a 1, octet a 2, octet a 3] = a"
proof -
  have a: "unat a < 256 ^ 4" using unsigned_less [of a, where 'a = nat] by simp
  have "((octet a 0 * 256 + octet a 1) * 256 + octet a 2) * 256 + octet a 3 = unat a"
  proof -
    define n where "n = unat a"
    have top: "n div 16777216 mod 256 = n div 65536 div 256"
      using a by (simp add: n_def div_mult2_eq [symmetric])
    have "n div 65536 = n div 256 div 256" by (simp add: div_mult2_eq [symmetric])
    then have "(n div 65536 * 256 + n div 256 mod 256) * 256 + n mod 256 = n"
      by (simp only: div_mult_mod_eq)
    then have "((n div 16777216 mod 256 * 256 + n div 65536 mod 256) * 256 + n div 256 mod 256) * 256 + n mod 256 = n"
      by (simp only: top div_mult_mod_eq)
    moreover have "octet a 0 = n div 16777216 mod 256" "octet a 1 = n div 65536 mod 256"
      "octet a 2 = n div 256 mod 256" "octet a 3 = n mod 256"
      by (simp_all add: octet_def n_def)
    ultimately show ?thesis by (simp only: n_def [symmetric])
  qed
  then have "foldl (\<lambda>n f. n * 256 + f) 0 [octet a 0, octet a 1, octet a 2, octet a 3] = unat a" by simp
  then show ?thesis unfolding octets_word_def by (simp only:) simp
qed

lemma parse_family_digits: "list_all is_digit ds \<Longrightarrow> parse_family (ds @ ''.'' @ s) = Some CHR ''.''"
  by (induction ds) (auto simp: is_digit_def)

lemma ParseAddr_string4: "ParseAddr (string4 a) = Inr (Addr4 a)"
proof -
  have len: "0 < length (go_itoa n)" for n using go_itoa_neq_Nil [of n] by simp
  have "parse4 (string4 a) 0 0 [] = Inr [octet a 0, octet a 1, octet a 2, octet a 3]"
    unfolding string4_def
    by (simp add: parse4_itoa parse4_itoa_end parse4_dot parse4_dot_end octet_bound
        del: parse4.simps(2))
  moreover have "parse_family (string4 a) = Some CHR ''.''"
    unfolding string4_def by (rule parse_family_digits) (rule go_itoa_digits)
  ultimately show ?thesis
    using octets_word_octet [of a] by (simp add: ParseAddr_def parseIPv4_def)
qed

lemma ParseIP_To4_string4 [simp]: "ParseIP_To4 (string4 a) = Some a"
  by (simp add: ParseIP_To4_def ParseAddr_string4)

lemma string4_inject [simp]: "string4 a = string4 b \<longleftrightarrow> a = b"
  by (metis ParseIP_To4_string4 option.inject)

end
