(* ===== verification/Pool.thy ===== *)
theory Pool
  imports Kvutil
begin

text \<open>
  The contract the two address allocators share: a pool record lists the addresses it has given
  out, an allocation adds exactly one that was not listed, and a release adds none.
\<close>

locale address_pool =
  fixes listed :: "'r \<Rightarrow> string set"
    and alloc :: "'q \<Rightarrow> ('r, string) mutator"
    and release :: "'p \<Rightarrow> ('r, 'a) mutator"
  assumes alloc_fresh: "alloc q r = Inr (c, r', ip) \<Longrightarrow> ip \<notin> listed r"
    and alloc_listed: "alloc q r = Inr (c, r', ip) \<Longrightarrow> c \<and> listed r' = insert ip (listed r)"
    and release_listed: "release p r = Inr (c, r', a) \<Longrightarrow> listed r' \<subseteq> listed r"

text \<open>A run of allocations, each on the record the previous one left; it stops at a failure.\<close>

fun alloc_run :: "('q \<Rightarrow> ('r, string) mutator) \<Rightarrow> 'q list \<Rightarrow> 'r \<Rightarrow> string list \<times> 'r" where
  "alloc_run alloc [] r = ([], r)"
| "alloc_run alloc (q # qs) r =
     (case alloc q r of
        Inl e \<Rightarrow> ([], r)
      | Inr (c, r', ip) \<Rightarrow> (case alloc_run alloc qs r' of (ips, r'') \<Rightarrow> (ip # ips, r'')))"

context address_pool
begin

lemma alloc_run_fresh:
  "alloc_run alloc qs r = (ips, r') \<Longrightarrow>
   distinct ips \<and> set ips \<inter> listed r = {} \<and> listed r' = set ips \<union> listed r"
proof (induction qs arbitrary: r ips r')
  case (Cons q qs)
  show ?case
  proof (cases "alloc q r")
    case (Inl e)
    with Cons.prems show ?thesis by simp
  next
    case (Inr m)
    obtain c r1 ip where m: "m = (c, r1, ip)" by (cases m)
    obtain ips1 r2 where run: "alloc_run alloc qs r1 = (ips1, r2)" by fastforce
    from Cons.prems Inr m run have out: "ips = ip # ips1" "r' = r2" by auto
    from Cons.IH [OF run] alloc_fresh [OF Inr [unfolded m]] alloc_listed [OF Inr [unfolded m]] out
    show ?thesis by auto
  qed
qed simp

end

end
