(* ===== verification/Ipam.thy ===== *)
theory Ipam
  imports Kvstore Netip Pool
begin

text \<open>
  The VPC address allocator \<open>domains/ec2/vpc/ipam.go\<close>: one record per subnet listing its
  allocations, changed through the store's compare-and-swap loop.
\<close>

section \<open>Records\<close>

definition KVBucketIPAM :: string where "KVBucketIPAM = ''spinifex-vpc-ipam''"
definition KVBucketIPAMVersion :: int where "KVBucketIPAMVersion = 2"
definition KVBucketIPAMHistory :: int where "KVBucketIPAMHistory = 5"
definition ipamCASAttempts :: int where "ipamCASAttempts = 50"

definition ErrIPOutOfRange :: string where "ErrIPOutOfRange = ''ip address not usable in subnet''"
definition ErrIPInUse :: string where "ErrIPInUse = ''ip address already allocated''"

record IPEntry =
  ie_IP :: string
  ie_Purpose :: string
  ie_OwnerID :: string

record IPAMRecord =
  ir_SubnetId :: string
  ir_CidrBlock :: string
  ir_Allocated :: "IPEntry list"

definition ipam_zero :: IPAMRecord where
  "ipam_zero = \<lparr>ir_SubnetId = [], ir_CidrBlock = [], ir_Allocated = []\<rparr>"

text \<open>The bucket's configuration; with a JetStream client its open hook runs the registered
  migrations.\<close>

definition ipamConfig ::
  "('w Registry \<times> ('w, string) JetStream) option \<Rightarrow> ('w, string) Config" where
  "ipamConfig js =
     \<lparr>Name = KVBucketIPAM, History = KVBucketIPAMHistory, Description = [], TTL = 0,
      Missing = ''IPAM KV bucket not initialized'', cfgAttempts = ipamCASAttempts,
      cfgExhausted = Some (\<lambda>key attempts. Text (''IPAM CAS exhausted for subnet '' @ key @ '' after ''
        @ go_itoa attempts @ '' attempts'')),
      RecreateIfMissing = False, AttachOnly = False,
      OnOpen = map_option (\<lambda>(reg, j) kv. runKV reg KVBucketIPAM kv KVBucketIPAMVersion) js\<rparr>"

definition NewIPAM ::
  "'w Registry \<Rightarrow> ('w, string) JetStream \<Rightarrow> Proc \<Rightarrow> 'w \<Rightarrow> unit result \<times> ('w, string) bstate" where
  "NewIPAM reg js p w =
     (case KV (NewBucket (Some js) (ipamConfig (Some (reg, js))), p, w) of
        (Inl err, s) \<Rightarrow> (Inl (Wrapped ''failed to create IPAM KV bucket: '' [err] []), s)
      | (Inr kv, s) \<Rightarrow> (Inr (), s))"

section \<open>Choosing an address\<close>

lemma addr_nat_bound: "addr_nat a < 2 ^ 128"
proof (cases a)
  case (Addr4 x)
  have "unat x < 2 ^ LENGTH(32)" by (rule unsigned_less)
  also have "\<dots> \<le> (2 :: nat) ^ 128" by (intro power_increasing) auto
  finally show ?thesis using Addr4 by simp
next
  case (Addr0 x)
  have "unat x < 2 ^ LENGTH(128)" by (rule unsigned_less)
  with Addr0 show ?thesis by (simp only: addr_nat.simps) simp
next
  case (Addr6 x z)
  have "unat x < 2 ^ LENGTH(128)" by (rule unsigned_less)
  with Addr6 show ?thesis by (simp only: addr_nat.simps) simp
qed

lemma Contains_Next_nat: "Contains p (Next a) \<Longrightarrow> addr_nat (Next a) = Suc (addr_nat a)"
proof -
  have suc: "unat (x + 1) = Suc (unat x)" if "x + 1 \<noteq> 0" for x :: "'b::len word"
    using that by (metis add.commute unatSuc)
  assume "Contains p (Next a)"
  then show ?thesis
    by (cases a) (auto simp: Contains_def suc split: Addr.splits if_splits)
qed

text \<open>The walk of \<open>nextAvailableIP\<close>: it stops when the successor leaves the prefix.\<close>

function walk_free :: "Prefix \<Rightarrow> (string \<Rightarrow> bool) \<Rightarrow> Addr \<Rightarrow> string option" where
  "walk_free prefix allocated addr =
     (if Contains prefix (Next addr)
      then (let candidate = Addr_String addr
            in if \<not> allocated candidate then Some candidate
               else walk_free prefix allocated (Next addr))
      else None)"
  by pat_completeness auto

termination
proof (relation "measure (\<lambda>(p, f, a). 2 ^ 128 - addr_nat a)")
  fix p :: Prefix and f :: "string \<Rightarrow> bool" and a c
  assume "Contains p (Next a)"
  with Contains_Next_nat addr_nat_bound [of a]
  show "((p, f, Next a), (p, f, a)) \<in> measure (\<lambda>(p, f, a). 2 ^ 128 - addr_nat a)"
    by (simp add: diff_less_mono2)
qed simp

declare walk_free.simps [simp del]

definition nextAvailableIP :: "IPAMRecord \<Rightarrow> string result" where
  "nextAvailableIP rcd =
     (case ParsePrefix (ir_CidrBlock rcd) of
        Inl err \<Rightarrow> Inl (Wrapped (''parse CIDR '' @ ir_CidrBlock rcd @ '': '') [err] [])
      | Inr prefix \<Rightarrow>
          (let allocated = (\<lambda>s. s \<in> ie_IP ` set (ir_Allocated rcd));
               addr = (Next ^^ 4) (pfx_addr (Masked prefix))
           in case walk_free prefix allocated addr of
                Some candidate \<Rightarrow> Inr candidate
              | None \<Rightarrow> Inl (Text (''subnet '' @ ir_CidrBlock rcd @ '' exhausted, no IPs available''))))"

definition isClaimableAddr :: "Prefix \<Rightarrow> Addr \<Rightarrow> bool" where
  "isClaimableAddr prefix addr =
     (if \<not> Contains prefix addr then False
      else (let head = pfx_addr (Masked prefix)
            in if addr = head \<or> addr = Next head \<or> addr = Next (Next head) \<or> addr = Next (Next (Next head))
               then False
               else IsValid (Next addr) \<and> Contains prefix (Next addr)))"

section \<open>Operations\<close>

definition adopt_cidr :: "string \<Rightarrow> string \<Rightarrow> IPAMRecord \<Rightarrow> IPAMRecord" where
  "adopt_cidr subnetId cidrBlock rcd =
     (if ir_CidrBlock rcd = [] then rcd\<lparr>ir_SubnetId := subnetId, ir_CidrBlock := cidrBlock\<rparr> else rcd)"

definition AllocateIP_mutate ::
  "string \<Rightarrow> string \<Rightarrow> string \<Rightarrow> string \<Rightarrow> (IPAMRecord, string) mutator" where
  "AllocateIP_mutate subnetId cidrBlock purpose ownerID rcd0 =
     (let rcd = adopt_cidr subnetId cidrBlock rcd0
      in case nextAvailableIP rcd of
           Inl err \<Rightarrow> Inl err
         | Inr next \<Rightarrow>
             Inr (True, rcd\<lparr>ir_Allocated := ir_Allocated rcd @
                   [\<lparr>ie_IP = next, ie_Purpose = purpose, ie_OwnerID = ownerID\<rparr>]\<rparr>, next))"

definition AllocateIP ::
  "'w pause \<Rightarrow> ('d \<Rightarrow> IPAMRecord result) \<Rightarrow> (IPAMRecord \<Rightarrow> 'd result) \<Rightarrow>
   string \<Rightarrow> string \<Rightarrow> string \<Rightarrow> string \<Rightarrow> ('w, 'd) bstate \<Rightarrow> string result \<times> ('w, 'd) bstate" where
  "AllocateIP pause dec enc subnetId cidrBlock purpose ownerID s =
     (case Store_Upsert pause dec enc ipam_zero subnetId
             (AllocateIP_mutate subnetId cidrBlock purpose ownerID) s of
        (Inl err, s1) \<Rightarrow> (Inl err, s1)
      | (Inr (v, ip), s1) \<Rightarrow> (Inr ip, s1))"

text \<open>The checks \<open>ClaimIP\<close> makes before it touches the store; the address it will record.\<close>

definition ClaimIP_check :: "string \<Rightarrow> string \<Rightarrow> string result" where
  "ClaimIP_check cidrBlock requestedIP =
     (case ParseAddr requestedIP of
        Inl err \<Rightarrow> Inl (Wrapped [] [Sentinel ErrIPOutOfRange] ('': '' @ requestedIP @ '' is not a valid IP address''))
      | Inr addr \<Rightarrow>
          (case ParsePrefix cidrBlock of
             Inl err \<Rightarrow> Inl (Wrapped (''parse CIDR '' @ cidrBlock @ '': '') [err] [])
           | Inr prefix \<Rightarrow>
               if \<not> isClaimableAddr prefix addr
               then Inl (Wrapped [] [Sentinel ErrIPOutOfRange]
                      ('': '' @ Addr_String addr @ '' is not a usable address in subnet '' @ cidrBlock))
               else Inr (Addr_String addr)))"

definition ClaimIP_mutate ::
  "string \<Rightarrow> string \<Rightarrow> string \<Rightarrow> string \<Rightarrow> string \<Rightarrow> (IPAMRecord, string) mutator" where
  "ClaimIP_mutate subnetId cidrBlock purpose ownerID ip rcd0 =
     (let rcd = adopt_cidr subnetId cidrBlock rcd0
      in if list_ex (\<lambda>e. ie_IP e = ip) (ir_Allocated rcd)
         then Inl (Wrapped [] [Sentinel ErrIPInUse] ('': '' @ ip @ '' already allocated in subnet '' @ subnetId))
         else Inr (True, rcd\<lparr>ir_Allocated := ir_Allocated rcd @
                [\<lparr>ie_IP = ip, ie_Purpose = purpose, ie_OwnerID = ownerID\<rparr>]\<rparr>, ip))"

definition ClaimIP ::
  "'w pause \<Rightarrow> ('d \<Rightarrow> IPAMRecord result) \<Rightarrow> (IPAMRecord \<Rightarrow> 'd result) \<Rightarrow>
   string \<Rightarrow> string \<Rightarrow> string \<Rightarrow> string \<Rightarrow> string \<Rightarrow> ('w, 'd) bstate \<Rightarrow> string result \<times> ('w, 'd) bstate" where
  "ClaimIP pause dec enc subnetId cidrBlock purpose ownerID requestedIP s =
     (case ClaimIP_check cidrBlock requestedIP of
        Inl err \<Rightarrow> (Inl err, s)
      | Inr ip \<Rightarrow>
          (case Store_Upsert pause dec enc ipam_zero subnetId
                  (ClaimIP_mutate subnetId cidrBlock purpose ownerID ip) s of
             (Inl err, s1) \<Rightarrow> (Inl err, s1)
           | (Inr (v, ip'), s1) \<Rightarrow> (Inr ip, s1)))"

definition ReleaseIP_mutate :: "string \<Rightarrow> string \<Rightarrow> (IPAMRecord, string) mutator" where
  "ReleaseIP_mutate subnetId ip rcd =
     (if list_ex (\<lambda>e. ie_IP e = ip) (ir_Allocated rcd)
      then Inr (True, rcd\<lparr>ir_Allocated := remove_first (\<lambda>e. ie_IP e = ip) (ir_Allocated rcd)\<rparr>, ip)
      else Inl (Text (''IP '' @ ip @ '' not allocated in subnet '' @ subnetId)))"

definition ReleaseIP ::
  "'w pause \<Rightarrow> ('d \<Rightarrow> IPAMRecord result) \<Rightarrow> (IPAMRecord \<Rightarrow> 'd result) \<Rightarrow>
   string \<Rightarrow> string \<Rightarrow> ('w, 'd) bstate \<Rightarrow> unit result \<times> ('w, 'd) bstate" where
  "ReleaseIP pause dec enc subnetId ip s =
     (case Store_Mutate pause dec enc ipam_zero subnetId (ReleaseIP_mutate subnetId ip) s of
        (Inl err, s1) \<Rightarrow>
          (Inl (if errors_Is err ErrNotFound then Text (''no IPAM record for subnet '' @ subnetId) else err), s1)
      | (Inr r, s1) \<Rightarrow> (Inr (), s1))"

definition AllocatedIPs ::
  "('d \<Rightarrow> IPAMRecord result) \<Rightarrow> string \<Rightarrow> ('w, 'd) bstate \<Rightarrow>
   IPEntry list result \<times> ('w, 'd) bstate" where
  "AllocatedIPs dec subnetId s =
     (case Store_Get dec subnetId s of
        (Inl err, s1) \<Rightarrow> (if errors_Is err ErrNotFound then Inr [] else Inl err, s1)
      | (Inr (rcd, r), s1) \<Rightarrow> (Inr (ir_Allocated rcd), s1))"

section \<open>The usable range\<close>

text \<open>The numbers of the host addresses a prefix offers: past the four reserved ones at its head and
  short of its last.\<close>

definition usable :: "Prefix \<Rightarrow> nat \<Rightarrow> bool" where
  "usable p n \<longleftrightarrow> base p + 4 \<le> n \<and> Suc n < base p + block p"

lemma usable_space: "pfx_ok p \<Longrightarrow> usable p n \<Longrightarrow> n < space p"
  using base_block_space [of p] by (simp add: usable_def)

lemma walk_free_find:
  assumes "pfx_ok p" and "n < space p" and "base p \<le> n"
  shows "walk_free p f (mk_addr p n) =
     find (\<lambda>s. \<not> f s) (map (Addr_String \<circ> mk_addr p) [n ..< base p + block p - 1])"
  using assms(2,3)
proof (induction "base p + block p - 1 - n" arbitrary: n rule: less_induct)
  case less
  have C: "Contains p (Next (mk_addr p n)) \<longleftrightarrow> Suc n < base p + block p"
    using less.prems by (intro Contains_Next [OF assms(1)]) auto
  show ?case
  proof (cases "Suc n < base p + block p")
    case False
    with C show ?thesis by (subst walk_free.simps) simp
  next
    case True
    then have S: "Suc n < space p" using base_block_space [OF assms(1)] by simp
    then have N: "Next (mk_addr p n) = mk_addr p (Suc n)"
      using Next_mk_addr [OF assms(1) less.prems(1)] by simp
    from less.hyps [of "Suc n"] True S less.prems
    have IH: "walk_free p f (mk_addr p (Suc n)) =
        find (\<lambda>s. \<not> f s) (map (Addr_String \<circ> mk_addr p) [Suc n ..< base p + block p - 1])" by simp
    have "[n ..< base p + block p - 1] = n # [Suc n ..< base p + block p - 1]"
      using True by (simp add: upt_conv_Cons)
    with IH N C True show ?thesis by (subst walk_free.simps) (simp add: Let_def)
  qed
qed

lemma walk_from_invalid: "walk_free p f (Addr0 a) = None"
  by (subst walk_free.simps) (simp add: Contains_def split: Addr.splits)

text \<open>Four steps from the network address, which may run off the end of the address space.\<close>

lemma Next_pow:
  assumes "pfx_ok p" and "n < space p"
  shows "(Next ^^ k) (mk_addr p n) = mk_addr p (n + k) \<and> n + k < space p \<or>
         (\<exists>a. (Next ^^ k) (mk_addr p n) = Addr0 a) \<and> space p \<le> n + k"
proof (induction k)
  case (Suc k)
  then show ?case
    using Next_mk_addr [OF assms(1), of "n + k"] by (cases "Suc (n + k) < space p") auto
qed (simp add: assms)

lemma usable_iff_range: "usable p n \<longleftrightarrow> n \<in> set [base p + 4 ..< base p + block p - 1]"
  by (auto simp: usable_def)

lemma nextAvailableIP_find:
  assumes "ParsePrefix (ir_CidrBlock rcd) = Inr p"
  shows "nextAvailableIP rcd =
     (case find (\<lambda>s. s \<notin> ie_IP ` set (ir_Allocated rcd))
             (map (Addr_String \<circ> mk_addr p) [base p + 4 ..< base p + block p - 1]) of
        Some ip \<Rightarrow> Inr ip
      | None \<Rightarrow> Inl (Text (''subnet '' @ ir_CidrBlock rcd @ '' exhausted, no IPs available'')))"
proof -
  note ok = ParsePrefix_ok [OF assms]
  have b: "base p < space p" using base_block_space [OF ok] block_pos [of p] by linarith
  let ?f = "\<lambda>s. s \<in> ie_IP ` set (ir_Allocated rcd)"
  have "walk_free p ?f ((Next ^^ 4) (mk_addr p (base p))) =
     find (\<lambda>s. \<not> ?f s) (map (Addr_String \<circ> mk_addr p) [base p + 4 ..< base p + block p - 1])"
    using Next_pow [OF ok b, of 4]
  proof
    assume "(Next ^^ 4) (mk_addr p (base p)) = mk_addr p (base p + 4) \<and> base p + 4 < space p"
    then show ?thesis by (simp only:) (rule walk_free_find [OF ok], simp_all)
  next
    assume "(\<exists>a. (Next ^^ 4) (mk_addr p (base p)) = Addr0 a) \<and> space p \<le> base p + 4"
    moreover from this base_block_space [OF ok] have "base p + block p - 1 \<le> base p + 4" by linarith
    then have "[base p + 4 ..< base p + block p - 1] = []" by (simp del: diff_add_assoc)
    ultimately show ?thesis by (auto simp: walk_from_invalid)
  qed
  with assms Masked_base [OF ok] show ?thesis
    by (simp add: nextAvailableIP_def Let_def)
qed

lemma find_first: "find P xs = Some x \<longleftrightarrow> (\<exists>i < length xs. P (xs ! i) \<and> x = xs ! i \<and> (\<forall>j < i. \<not> P (xs ! j)))"
  by (rule find_Some_iff)

lemma nextAvailableIP_lowest:
  assumes P: "ParsePrefix (ir_CidrBlock rcd) = Inr p" and ip: "nextAvailableIP rcd = Inr ip"
  shows "\<exists>n. usable p n \<and> ip = Addr_String (mk_addr p n) \<and> ip \<notin> ie_IP ` set (ir_Allocated rcd) \<and>
     (\<forall>m. usable p m \<longrightarrow> m < n \<longrightarrow> Addr_String (mk_addr p m) \<in> ie_IP ` set (ir_Allocated rcd))"
proof -
  let ?xs = "[base p + 4 ..< base p + block p - 1]"
  from ip nextAvailableIP_find [OF P] obtain i where i: "i < length ?xs"
    "ip = Addr_String (mk_addr p (?xs ! i))" "ip \<notin> ie_IP ` set (ir_Allocated rcd)"
    "\<forall>j < i. Addr_String (mk_addr p (?xs ! j)) \<in> ie_IP ` set (ir_Allocated rcd)"
    by (auto simp: find_Some_iff split: option.splits)
  have "Addr_String (mk_addr p m) \<in> ie_IP ` set (ir_Allocated rcd)" if "usable p m" "m < ?xs ! i" for m
  proof -
    from that i(1) have "m - (base p + 4) < i" "?xs ! (m - (base p + 4)) = m" by (auto simp: usable_def)
    with i(4) show ?thesis by metis
  qed
  with i show ?thesis
    by (intro exI [of _ "?xs ! i"]) (auto simp: usable_iff_range simp del: set_upt nth_upt intro: nth_mem)
qed

lemma nextAvailableIP_exhausted:
  assumes P: "ParsePrefix (ir_CidrBlock rcd) = Inr p"
  shows "(\<exists>e. nextAvailableIP rcd = Inl e) \<longleftrightarrow>
     (\<forall>n. usable p n \<longrightarrow> Addr_String (mk_addr p n) \<in> ie_IP ` set (ir_Allocated rcd))"
proof -
  have "(\<exists>e. nextAvailableIP rcd = Inl e) \<longleftrightarrow>
     find (\<lambda>s. s \<notin> ie_IP ` set (ir_Allocated rcd))
       (map (Addr_String \<circ> mk_addr p) [base p + 4 ..< base p + block p - 1]) = None"
    unfolding nextAvailableIP_find [OF P] by (auto split: option.splits)
  then show ?thesis unfolding find_None_iff usable_iff_range by auto
qed

lemma isClaimableAddr_usable:
  assumes ok: "pfx_ok p"
  shows "isClaimableAddr p a \<longleftrightarrow> (\<exists>n. usable p n \<and> a = mk_addr p n)"
proof -
  let ?h = "\<lambda>k. (Next ^^ k) (mk_addr p (base p))"
  have b: "base p < space p" using base_block_space [OF ok] block_pos [of p] by linarith
  have heads: "pfx_addr (Masked p) = ?h 0" "Next (?h 0) = ?h 1" "Next (?h 1) = ?h 2" "Next (?h 2) = ?h 3"
    by (simp_all add: Masked_base [OF ok] numeral_eq_Suc)
  have head: "mk_addr p n = ?h k \<longleftrightarrow> n = base p + k" if n: "n < space p" for n k
    using Next_pow [OF ok b, of k]
  proof
    assume "?h k = mk_addr p (base p + k) \<and> base p + k < space p"
    with mk_addr_inj [OF ok n] show ?thesis by auto
  next
    assume "(\<exists>a. ?h k = Addr0 a) \<and> space p \<le> base p + k"
    with n show ?thesis by (auto simp: mk_addr_def split: Addr.splits)
  qed
  have main: "isClaimableAddr p (mk_addr p n) \<longleftrightarrow> usable p n"
    if n: "base p \<le> n" "n < base p + block p" for n
  proof -
    have s: "n < space p" using n base_block_space [OF ok] by simp
    have "Contains p (mk_addr p n)" using n by (auto simp: Contains_range [OF ok])
    moreover have "IsValid (Next (mk_addr p n)) \<and> Contains p (Next (mk_addr p n)) \<longleftrightarrow> Suc n < base p + block p"
      using Contains_Next [OF ok s] n by (auto simp: Contains_def split: Addr.splits)
    ultimately show ?thesis
      using n unfolding isClaimableAddr_def Let_def heads head [OF s] usable_def by auto
  qed
  have "isClaimableAddr p a \<Longrightarrow> \<exists>n. a = mk_addr p n \<and> base p \<le> n \<and> n < base p + block p"
    by (auto simp: isClaimableAddr_def Contains_range [OF ok] split: if_splits)
  with main show ?thesis by (auto simp: usable_def)
qed

section \<open>The subnet's record\<close>

lemma adopt_cidr_allocated [simp]: "ir_Allocated (adopt_cidr subnet cidr r) = ir_Allocated r"
  by (simp add: adopt_cidr_def)

lemma nextAvailableIP_fresh: "nextAvailableIP r = Inr ip \<Longrightarrow> ip \<notin> ie_IP ` set (ir_Allocated r)"
proof -
  assume ip: "nextAvailableIP r = Inr ip"
  then obtain p where "ParsePrefix (ir_CidrBlock r) = Inr p"
    by (cases "ParsePrefix (ir_CidrBlock r)") (auto simp: nextAvailableIP_def)
  from nextAvailableIP_lowest [OF this ip] show ?thesis by blast
qed

lemma AllocateIP_mutate_cases:
  "AllocateIP_mutate subnet cidr purpose owner r = Inr (c, r', ip) \<longleftrightarrow>
   c \<and> nextAvailableIP (adopt_cidr subnet cidr r) = Inr ip \<and>
   r' = (adopt_cidr subnet cidr r)\<lparr>ir_Allocated := ir_Allocated r @
          [\<lparr>ie_IP = ip, ie_Purpose = purpose, ie_OwnerID = owner\<rparr>]\<rparr>"
  by (auto simp: AllocateIP_mutate_def Let_def split: sum.splits)

lemma ClaimIP_mutate_cases:
  "ClaimIP_mutate subnet cidr purpose owner ip r = Inr (c, r', a) \<longleftrightarrow>
   c \<and> a = ip \<and> ip \<notin> ie_IP ` set (ir_Allocated r) \<and>
   r' = (adopt_cidr subnet cidr r)\<lparr>ir_Allocated := ir_Allocated r @
          [\<lparr>ie_IP = ip, ie_Purpose = purpose, ie_OwnerID = owner\<rparr>]\<rparr>"
  by (auto simp: ClaimIP_mutate_def Let_def list_ex_iff)

lemma ReleaseIP_mutate_cases:
  "ReleaseIP_mutate subnet ip r = Inr (c, r', a) \<longleftrightarrow>
   c \<and> a = ip \<and> ip \<in> ie_IP ` set (ir_Allocated r) \<and>
   r' = r\<lparr>ir_Allocated := remove_first (\<lambda>e. ie_IP e = ip) (ir_Allocated r)\<rparr>"
  by (auto simp: ReleaseIP_mutate_def list_ex_iff)

lemmas ipam_mutate_cases = AllocateIP_mutate_cases ClaimIP_mutate_cases ReleaseIP_mutate_cases

definition in_subnet :: "string \<Rightarrow> string \<Rightarrow> bool" where
  "in_subnet cidr ip \<longleftrightarrow> (\<exists>p n. ParsePrefix cidr = Inr p \<and> usable p n \<and> ip = Addr_String (mk_addr p n))"

lemma ClaimIP_check_usable: "ClaimIP_check cidr req = Inr ip \<Longrightarrow> in_subnet cidr ip"
  by (auto simp: in_subnet_def ClaimIP_check_def isClaimableAddr_usable [OF ParsePrefix_ok] split: sum.splits if_splits)

text \<open>The three operations on one subnet as one family of mutators, a claim with its checks.\<close>

datatype ipam_op = OpAllocate string string | OpClaim string string string | OpRelease string

fun ipam_mutate :: "string \<Rightarrow> string \<Rightarrow> ipam_op \<Rightarrow> (IPAMRecord, string) mutator" where
  "ipam_mutate subnet cidr (OpAllocate purpose owner) r = AllocateIP_mutate subnet cidr purpose owner r"
| "ipam_mutate subnet cidr (OpClaim purpose owner req) r =
     (case ClaimIP_check cidr req of
        Inl e \<Rightarrow> Inl e
      | Inr ip \<Rightarrow> ClaimIP_mutate subnet cidr purpose owner ip r)"
| "ipam_mutate subnet cidr (OpRelease ip) r = ReleaseIP_mutate subnet ip r"

definition no_duplicates :: "IPAMRecord \<Rightarrow> bool" where
  "no_duplicates r \<longleftrightarrow> distinct (map ie_IP (ir_Allocated r))"

text \<open>The invariant of a subnet whose callers all name the same CIDR.\<close>

definition subnet_good :: "string \<Rightarrow> IPAMRecord \<Rightarrow> bool" where
  "subnet_good cidr r \<longleftrightarrow>
     no_duplicates r \<and> (ir_CidrBlock r = [] \<or> ir_CidrBlock r = cidr) \<and>
     (\<forall>e \<in> set (ir_Allocated r). in_subnet cidr (ie_IP e))"

interpretation ipam_pool: address_pool
  "\<lambda>r. ie_IP ` set (ir_Allocated r)"
  "\<lambda>(subnet, cidr, purpose, owner). AllocateIP_mutate subnet cidr purpose owner"
  "\<lambda>(subnet, ip). ReleaseIP_mutate subnet ip"
  by unfold_locales
    (auto simp: AllocateIP_mutate_cases ReleaseIP_mutate_cases split: prod.splits
      dest: nextAvailableIP_fresh subsetD [OF set_remove_first_subset])

interpretation ipam_unique: cas_record no_duplicates "\<lambda>(subnet, cidr, op). ipam_mutate subnet cidr op" ipam_zero
proof unfold_locales
  show "no_duplicates ipam_zero" by (simp add: no_duplicates_def ipam_zero_def)
  fix v v' a and p :: "string \<times> string \<times> ipam_op"
  obtain subnet cidr op where p: "p = (subnet, cidr, op)" by (metis prod.exhaust)
  assume "no_duplicates v" "(case p of (subnet, cidr, op) \<Rightarrow> ipam_mutate subnet cidr op) v = Inr (True, v', a)"
  with p show "no_duplicates v'"
    by (cases op) (auto simp: no_duplicates_def ipam_mutate_cases distinct_map_remove_first
        split: sum.splits dest: nextAvailableIP_fresh)
qed

interpretation ipam_subnet: cas_record "subnet_good cidr" "ipam_mutate subnet cidr" ipam_zero for subnet cidr
proof unfold_locales
  show "subnet_good cidr ipam_zero" by (simp add: subnet_good_def no_duplicates_def ipam_zero_def)
  fix v op v' a
  assume v: "subnet_good cidr v" and run: "ipam_mutate subnet cidr op v = Inr (True, v', a)"
  have "no_duplicates v'"
    using ipam_unique.good_mutate [of v "(subnet, cidr, op)" v' a] v run by (simp add: subnet_good_def)
  moreover have "ir_CidrBlock v' = [] \<or> ir_CidrBlock v' = cidr"
    using v run by (cases op) (auto simp: subnet_good_def ipam_mutate_cases adopt_cidr_def split: sum.splits)
  moreover have "\<forall>e \<in> set (ir_Allocated v'). in_subnet cidr (ie_IP e)"
  proof (cases op)
    case (OpAllocate purpose owner)
    with v run have "nextAvailableIP (adopt_cidr subnet cidr v) = Inr a"
      and "ir_CidrBlock (adopt_cidr subnet cidr v) = cidr"
      by (auto simp: ipam_mutate_cases adopt_cidr_def subnet_good_def)
    moreover from this obtain p where "ParsePrefix cidr = Inr p"
      by (cases "ParsePrefix cidr") (auto simp: nextAvailableIP_def)
    ultimately have "in_subnet cidr a"
      using nextAvailableIP_lowest [of "adopt_cidr subnet cidr v" p a] by (auto simp: in_subnet_def)
    with OpAllocate v run show ?thesis by (auto simp: ipam_mutate_cases subnet_good_def)
  next
    case (OpClaim purpose owner req)
    with v run show ?thesis
      by (auto simp: ipam_mutate_cases subnet_good_def split: sum.splits dest: ClaimIP_check_usable)
  next
    case (OpRelease ip)
    with v run show ?thesis
      by (auto simp: ipam_mutate_cases subnet_good_def dest: subsetD [OF set_remove_first_subset])
  qed
  ultimately show "subnet_good cidr v'" by (simp add: subnet_good_def)
qed

end
