(* ===== verification/Ipam_Claims.thy ===== *)
theory Ipam_Claims
  imports Ipam Kvstore_Claims
begin

text \<open>What the VPC address allocator promises: which addresses it hands out, when it reports
  exhaustion, and that no two owners ever share an address, whatever the other nodes do.\<close>

unbundle bit_operations_syntax

section \<open>Choosing addresses\<close>

definition tiny :: IPAMRecord where
  "tiny = \<lparr>ir_SubnetId = ''s'', ir_CidrBlock = ''10.0.0.0/29'',
     ir_Allocated = [\<lparr>ie_IP = ''10.0.0.4'', ie_Purpose = ''eni'', ie_OwnerID = ''e''\<rparr>]\<rparr>"

definition tiny_prefix :: Prefix where
  "tiny_prefix = \<lparr>pfx_addr = Addr4 0x0A000000, pfx_bits = 29\<rparr>"

lemma tiny_parse: "ParsePrefix ''10.0.0.0/29'' = Inr tiny_prefix"
  by (simp add: ParsePrefix_def ParseAddr_def parseIPv4_def octets_word_def tiny_prefix_def decimal_eval)

lemma tiny_eval:
  "base tiny_prefix = 167772160" "block tiny_prefix = 8" "mk_addr tiny_prefix n = Addr4 (of_nat n)"
  "string4 167772164 = ''10.0.0.4''" "string4 167772165 = ''10.0.0.5''" "string4 167772166 = ''10.0.0.6''"
  by (simp_all add: base_def block_def mk_addr_def tiny_prefix_def string4_def octet_def decimal_eval)

lemma tiny_find:
  "nextAvailableIP \<lparr>ir_SubnetId = s, ir_CidrBlock = ''10.0.0.0/29'', ir_Allocated = es\<rparr> =
     (case find (\<lambda>ip. ip \<notin> ie_IP ` set es) [''10.0.0.4'', ''10.0.0.5'', ''10.0.0.6''] of
        Some ip \<Rightarrow> Inr ip | None \<Rightarrow> Inl (Text ''subnet 10.0.0.0/29 exhausted, no IPs available''))"
  by (subst nextAvailableIP_find [where p = tiny_prefix]) (simp_all add: tiny_parse tiny_eval)

lemma tiny_next: "nextAvailableIP tiny = Inr ''10.0.0.5''"
  by (simp add: tiny_def tiny_find)

lemma tiny_mask: "167772160 AND NOT (mask 3) = (167772160 :: 32 word)"
  unfolding and_not_mask by (simp add: drop_bit_numeral_bit0 push_bit_eq_mult)

lemma tiny_claimable:
  "isClaimableAddr tiny_prefix (Addr4 0x0A000006)" "\<not> isClaimableAddr tiny_prefix (Addr4 0x0A000003)"
  by (simp_all add: isClaimableAddr_def tiny_prefix_def Contains_def Masked_def tiny_mask)

text \<open>
  C30. \<open>nextAvailableIP\<close> returns the lowest free host address of the subnet: the text of an
  address past the four reserved ones and short of the last, not yet listed, such that every lower
  host address is listed. It fails only when every host address is listed.
\<close>

theorem nextAvailableIP_lowest_free:
  assumes "ParsePrefix (ir_CidrBlock rcd) = Inr p"
  shows "case nextAvailableIP rcd of
      Inr ip \<Rightarrow> \<exists>n. base p + 4 \<le> n \<and> Suc n < base p + block p \<and> ip = Addr_String (mk_addr p n) \<and>
        ip \<notin> ie_IP ` set (ir_Allocated rcd) \<and>
        (\<forall>m. base p + 4 \<le> m \<and> m < n \<longrightarrow> Addr_String (mk_addr p m) \<in> ie_IP ` set (ir_Allocated rcd))
    | Inl e \<Rightarrow> \<forall>n. base p + 4 \<le> n \<and> Suc n < base p + block p \<longrightarrow>
        Addr_String (mk_addr p n) \<in> ie_IP ` set (ir_Allocated rcd)"
proof (cases "nextAvailableIP rcd")
  case (Inl e)
  then have "\<exists>e. nextAvailableIP rcd = Inl e" by blast
  with nextAvailableIP_exhausted [OF assms] Inl show ?thesis by (simp add: usable_def)
next
  case (Inr ip)
  from nextAvailableIP_lowest [OF assms Inr] obtain n where n: "usable p n" "ip = Addr_String (mk_addr p n)"
    "ip \<notin> ie_IP ` set (ir_Allocated rcd)"
    "\<And>m. usable p m \<Longrightarrow> m < n \<Longrightarrow> Addr_String (mk_addr p m) \<in> ie_IP ` set (ir_Allocated rcd)" by blast
  have "usable p m" if "base p + 4 \<le> m" "m < n" for m using n(1) that by (simp add: usable_def)
  with n Inr show ?thesis by (simp only: sum.case, intro exI [of _ n]) (simp add: usable_def)
qed

theorem nextAvailableIP_lowest_free_witness:
  "\<exists>n. base tiny_prefix + 4 \<le> n \<and> Suc n < base tiny_prefix + block tiny_prefix \<and>
     ''10.0.0.5'' = Addr_String (mk_addr tiny_prefix n) \<and>
     ''10.0.0.5'' \<notin> ie_IP ` set (ir_Allocated tiny) \<and>
     (\<forall>m. base tiny_prefix + 4 \<le> m \<and> m < n \<longrightarrow>
        Addr_String (mk_addr tiny_prefix m) \<in> ie_IP ` set (ir_Allocated tiny))"
  using nextAvailableIP_lowest_free [of tiny tiny_prefix] tiny_parse tiny_next
  by (simp add: tiny_def)

text \<open>
  Pinned requests and automatic allocation agree on the subnet: an address is claimable
  exactly when it is one of the host addresses \<open>nextAvailableIP\<close> walks, and the text of every IPv4
  host address passes \<open>ClaimIP\<close>'s checks unchanged.
\<close>

theorem claimable_iff_allocatable:
  assumes "ParsePrefix cidr = Inr p"
  shows "(isClaimableAddr p a \<longleftrightarrow>
            (\<exists>n. base p + 4 \<le> n \<and> Suc n < base p + block p \<and> a = mk_addr p n)) \<and>
     (\<forall>x. isClaimableAddr p (Addr4 x) \<longrightarrow> ClaimIP_check cidr (Addr_String (Addr4 x)) = Inr (Addr_String (Addr4 x)))"
  using isClaimableAddr_usable [OF ParsePrefix_ok [OF assms]] assms
  by (auto simp: usable_def ClaimIP_check_def ParseAddr_string4)

theorem claimable_iff_allocatable_example:
  "ClaimIP_check ''10.0.0.0/29'' ''10.0.0.6'' = Inr ''10.0.0.6'' \<and>
   \<not> isClaimableAddr tiny_prefix (Addr4 0x0A000003)"
proof -
  note iff = claimable_iff_allocatable [OF tiny_parse]
  from iff tiny_claimable(1) have "ClaimIP_check ''10.0.0.0/29'' (Addr_String (Addr4 0x0A000006)) =
      Inr (Addr_String (Addr4 0x0A000006))" by blast
  with tiny_claimable(2) show ?thesis by (simp add: tiny_eval)
qed

text \<open>A run of allocations on one record, whatever the callers ask, returns pairwise distinct
  addresses, none of which was listed before, and lists exactly those in addition.\<close>

lemma AllocateIP_run_distinct:
  assumes "alloc_run (\<lambda>(subnet, cidr, purpose, owner). AllocateIP_mutate subnet cidr purpose owner) qs r = (ips, r')"
  shows "distinct ips \<and> set ips \<inter> ie_IP ` set (ir_Allocated r) = {} \<and>
     ie_IP ` set (ir_Allocated r') = set ips \<union> ie_IP ` set (ir_Allocated r)"
  using ipam_pool.alloc_run_fresh [OF assms] by simp

section \<open>Allocating against other nodes\<close>

text \<open>The world an operation leaves behind.\<close>

definition world_after :: "'r \<times> ('w, 'd) bstate \<Rightarrow> 'w" where
  "world_after x = snd (snd (snd x))"

lemma ipam_mutate_eta:
  "ipam_mutate subnet cidr (OpAllocate purpose owner) = AllocateIP_mutate subnet cidr purpose owner"
  "ClaimIP_check cidr req = Inr ip \<Longrightarrow>
     ipam_mutate subnet cidr (OpClaim purpose owner req) = ClaimIP_mutate subnet cidr purpose owner ip"
  "ipam_mutate subnet cidr (OpRelease ip) = ReleaseIP_mutate subnet ip"
  by (auto simp: fun_eq_iff)


text \<open>A subnet whose record lists one address while another node adds a second: the raced
  allocation retries on the record it finds and gets the third.\<close>

definition entry :: "string \<Rightarrow> IPEntry" where
  "entry ip = \<lparr>ie_IP = ip, ie_Purpose = ''eni'', ie_OwnerID = ''e''\<rparr>"

definition tiny2 :: IPAMRecord where
  "tiny2 = tiny\<lparr>ir_Allocated := [entry ''10.0.0.4'', entry ''10.0.0.5'']\<rparr>"

definition raced_subnet :: "IPAMRecord mem" where
  "raced_subnet = \<lparr>mem_log = [(''s'', Some tiny)], mem_script = [(''s'', tiny2)]\<rparr>"

abbreviation tiny2_writer :: "string \<times> IPAMRecord \<Rightarrow> bool" where
  "tiny2_writer \<equiv> \<lambda>kd. snd kd = tiny2"

lemma tiny_good: "subnet_good ''10.0.0.0/29'' tiny" "subnet_good ''10.0.0.0/29'' tiny2"
proof -
  have "in_subnet ''10.0.0.0/29'' ''10.0.0.4''" "in_subnet ''10.0.0.0/29'' ''10.0.0.5''"
    unfolding in_subnet_def
    by (rule exI [of _ tiny_prefix], rule exI [of _ 167772164], simp add: tiny_parse usable_def tiny_eval)
      (rule exI [of _ tiny_prefix], rule exI [of _ 167772165], simp add: tiny_parse usable_def tiny_eval)
  then show "subnet_good ''10.0.0.0/29'' tiny" "subnet_good ''10.0.0.0/29'' tiny2"
    by (simp_all add: subnet_good_def no_duplicates_def tiny_def tiny2_def entry_def)
qed

lemma tiny2_keeps:
  "rely_keeps (mem_view tiny2_writer) (record_inv (mem_view tiny2_writer) Inr (subnet_good ''10.0.0.0/29'') ''s'')"
  by (rule mem_rely_keeps) (use tiny_good(2) in auto)

lemma raced_subnet_inv:
  "record_inv (mem_view tiny2_writer) Inr (subnet_good ''10.0.0.0/29'') ''s'' raced_subnet"
  using tiny_good(1) by (simp add: record_inv_def raced_subnet_def)

lemma raced_allocation:
  "AllocateIP mem_pause Inr Inr ''s'' ''10.0.0.0/29'' ''eni'' ''e'' (mem_bucket tiny2_writer, idle_proc, raced_subnet) =
     (Inr ''10.0.0.6'', mem_bucket tiny2_writer, idle_proc,
      \<lparr>mem_log = [(''s'', Some (tiny\<lparr>ir_Allocated := [entry ''10.0.0.4'', entry ''10.0.0.5'', entry ''10.0.0.6'']\<rparr>)),
         (''s'', Some tiny2), (''s'', Some tiny)], mem_script = []\<rparr>)"
  by (simp add: AllocateIP_def AllocateIP_mutate_def Let_def adopt_cidr_def tiny_find tiny_def tiny2_def entry_def
      Store_Upsert_def withKV_def KV_def mem_bucket_def NewOpenBucket_def mem_kv_def raced_subnet_def
      mem_append_def Update_def retryCAS_def cas_attempts_def casAttempts_def upsert_config_def mem_config_def
      eval_nat_numeral Update_attempt_def Update_commit_def cas_write_def mem_foreign_def mem_pause_def
      isConflict_def ErrWrite_def)




end
