(* ===== verification/StaticPool.thy ===== *)
theory StaticPool
  imports Kvstore Netip Pool
begin

text \<open>
  External address pools, \<open>domains/network/external\<close>: the static pool allocator with its
  round-robin cursor (\<open>static_pool.go\<close>), pool selection and the gateway range (\<open>pool.go\<close>), over
  32-bit addresses with their wrap-around (\<open>helpers.go\<close>).
\<close>

section \<open>Configuration and records\<close>

definition KVBucketStaticPool :: string where "KVBucketStaticPool = ''spinifex-external-ipam''"
definition KVBucketStaticPoolVersion :: int where "KVBucketStaticPoolVersion = 2"
definition KVBucketStaticPoolHistory :: int where "KVBucketStaticPoolHistory = 5"
definition staticPoolCASRetries :: int where "staticPoolCASRetries = 25"
definition purposeIGWLRP :: string where "purposeIGWLRP = ''igw-lrp''"
definition purposeEIP :: string where "purposeEIP = ''eip''"

text \<open>The pool configuration, with the fields this code reads.\<close>

record ExternalPoolConfig =
  ep_Name :: string
  ep_RangeStart :: string
  ep_RangeEnd :: string
  ep_Gateway :: string
  ep_GatewayIP :: string
  ep_PrefixLen :: int
  ep_Region :: string
  ep_AZ :: string
  ep_GwLrpRangeStart :: string
  ep_GwLrpRangeEnd :: string

record ExternalIPAllocation =
  ea_Purpose :: string
  ea_AllocationID :: string
  ea_Association :: string
  ea_ENIId :: string
  ea_InstanceId :: string
  ea_Note :: string

text \<open>A nil \<open>Allocated\<close> map reads as the empty one, and \<open>Allocate\<close> replaces it before writing.\<close>

record PoolRecord =
  po_PoolName :: string
  po_RangeStart :: string
  po_RangeEnd :: string
  po_Gateway :: string
  po_GatewayIP :: string
  po_PrefixLen :: int
  po_Region :: string
  po_AZ :: string
  po_GwLrpRangeStart :: string
  po_GwLrpRangeEnd :: string
  po_Allocated :: "string \<Rightarrow> ExternalIPAllocation option"
  po_Cursor :: string

definition pool_zero :: PoolRecord where
  "pool_zero = \<lparr>po_PoolName = [], po_RangeStart = [], po_RangeEnd = [], po_Gateway = [], po_GatewayIP = [],
     po_PrefixLen = 0, po_Region = [], po_AZ = [], po_GwLrpRangeStart = [], po_GwLrpRangeEnd = [],
     po_Allocated = Map.empty, po_Cursor = []\<rparr>"

record AllocateRequest =
  ar_PoolName :: string
  ar_Purpose :: string
  ar_AllocationID :: string
  ar_ENIID :: string
  ar_InstanceID :: string

definition errPoolContended :: string where "errPoolContended = ''external IPAM: pool contended''"

definition ErrorInsufficientAddressCapacity :: string where
  "ErrorInsufficientAddressCapacity = ''InsufficientAddressCapacity''"

definition staticPoolConfig :: "'w Registry \<Rightarrow> ('w, string) Config" where
  "staticPoolConfig reg =
     \<lparr>Name = KVBucketStaticPool, History = KVBucketStaticPoolHistory, Description = [], TTL = 0,
      Missing = ''external IPAM: no JetStream client configured'', cfgAttempts = staticPoolCASRetries,
      cfgExhausted = Some (\<lambda>key attempts. Wrapped [] [Sentinel errPoolContended]
        ('': '' @ key @ '' after '' @ go_itoa attempts @ '' attempts'')),
      RecreateIfMissing = False, AttachOnly = False,
      OnOpen = Some (\<lambda>kv. runKV reg KVBucketStaticPool kv KVBucketStaticPoolVersion)\<rparr>"

section \<open>The next address\<close>

text \<open>
  The scan of \<open>nextAvailableIP\<close>: \<open>n\<close> iterations are left and \<open>k\<close> is the loop variable, a \<open>uint32\<close>;
  \<open>(offset + k) % totalN\<close> wraps at 32 bits.
\<close>

fun pool_scan ::
  "nat \<Rightarrow> 32 word \<Rightarrow> 32 word \<Rightarrow> 32 word \<Rightarrow> 32 word \<Rightarrow> (32 word \<Rightarrow> bool) \<Rightarrow> (string \<Rightarrow> bool) \<Rightarrow> string option" where
  "pool_scan 0 k startInt offset totalN reserved taken = None"
| "pool_scan (Suc n) k startInt offset totalN reserved taken =
     (let i = startInt + (offset + k) mod totalN; candidate = string4 i
      in if reserved i then pool_scan n (k + 1) startInt offset totalN reserved taken
         else if \<not> taken candidate then Some candidate
         else pool_scan n (k + 1) startInt offset totalN reserved taken)"

definition gw_lrp_reserved :: "PoolRecord \<Rightarrow> 32 word \<Rightarrow> bool" where
  "gw_lrp_reserved rcd i =
     (if po_GwLrpRangeStart rcd \<noteq> [] \<and> po_GwLrpRangeEnd rcd \<noteq> []
      then (case (ParseIP_To4 (po_GwLrpRangeStart rcd), ParseIP_To4 (po_GwLrpRangeEnd rcd)) of
              (Some s, Some e) \<Rightarrow> s \<le> i \<and> i \<le> e
            | _ \<Rightarrow> False)
      else False)"

definition pool_offset :: "string \<Rightarrow> 32 word \<Rightarrow> 32 word \<Rightarrow> 32 word \<Rightarrow> 32 word option" where
  "pool_offset cursor startInt endInt totalN =
     (case ParseIP_To4 cursor of
        Some ci \<Rightarrow>
          if startInt \<le> ci \<and> ci \<le> endInt
          then if totalN = 0 then None else Some ((ci - startInt + 1) mod totalN)
          else Some 0
      | None \<Rightarrow> Some 0)"

text \<open>\<open>None\<close> of \<open>pool_offset\<close> is the run-time panic of a division by zero, which a range of all
  2^32 addresses with a cursor inside reaches.\<close>

definition divide_panic :: go_error where
  "divide_panic = Sentinel ''runtime error: integer divide by zero''"

definition pool_nextAvailableIP :: "PoolRecord \<Rightarrow> string result" where
  "pool_nextAvailableIP rcd =
     (let invalid = Text (''invalid IP range: '' @ po_RangeStart rcd @ '' - '' @ po_RangeEnd rcd)
      in case (ParseIP_To4 (po_RangeStart rcd), ParseIP_To4 (po_RangeEnd rcd)) of
           (Some startInt, Some endInt) \<Rightarrow>
             if endInt < startInt then Inl invalid
             else (let totalN = endInt - startInt + 1
                   in case pool_offset (po_Cursor rcd) startInt endInt totalN of
                        None \<Rightarrow> Inl divide_panic
                      | Some offset \<Rightarrow>
                          (case pool_scan (unat totalN) 0 startInt offset totalN (gw_lrp_reserved rcd)
                                  (\<lambda>c. po_Allocated rcd c \<noteq> None) of
                             Some candidate \<Rightarrow> Inr candidate
                           | None \<Rightarrow> Inl (Wrapped (''pool '' @ po_PoolName rcd @ '' exhausted: '')
                                      [Text ErrorInsufficientAddressCapacity] [])))
         | _ \<Rightarrow> Inl invalid)"

section \<open>Operations\<close>

definition Allocate_mutate :: "AllocateRequest \<Rightarrow> (PoolRecord, string) mutator" where
  "Allocate_mutate req rcd =
     (case pool_nextAvailableIP rcd of
        Inl err \<Rightarrow> Inl err
      | Inr next \<Rightarrow>
          Inr (True, rcd\<lparr>po_Allocated := (po_Allocated rcd)(next \<mapsto>
                 \<lparr>ea_Purpose = ar_Purpose req, ea_AllocationID = ar_AllocationID req, ea_Association = [],
                  ea_ENIId = ar_ENIID req, ea_InstanceId = ar_InstanceID req, ea_Note = []\<rparr>),
                 po_Cursor := next\<rparr>, next))"

definition Allocate ::
  "'w pause \<Rightarrow> ('d \<Rightarrow> PoolRecord result) \<Rightarrow> (PoolRecord \<Rightarrow> 'd result) \<Rightarrow> AllocateRequest \<Rightarrow>
   ('w, 'd) bstate \<Rightarrow> 32 word result \<times> ('w, 'd) bstate" where
  "Allocate pause dec enc req s =
     (case Store_Mutate pause dec enc pool_zero (ar_PoolName req) (Allocate_mutate req) s of
        (Inl err, s1) \<Rightarrow> (Inl err, s1)
      | (Inr (v, ip), s1) \<Rightarrow>
          (case ParseIP_To4 ip of
             None \<Rightarrow> (Inl (Text (''parse allocated ip '' @ ip)), s1)
           | Some a \<Rightarrow> (Inr a, s1)))"

text \<open>The closure's \<open>released\<close> is what the mutator assigns.\<close>

definition Release_mutate :: "string \<Rightarrow> string \<Rightarrow> string \<Rightarrow> (PoolRecord, bool) mutator" where
  "Release_mutate poolName target ownerENIID rcd =
     (case po_Allocated rcd target of
        None \<Rightarrow>
          if ownerENIID \<noteq> [] then Inr (False, rcd, False)
          else Inl (Text (''IP '' @ target @ '' not allocated in pool '' @ poolName))
      | Some alloc \<Rightarrow>
          if ownerENIID \<noteq> [] \<and> ea_ENIId alloc \<noteq> [] \<and> ea_ENIId alloc \<noteq> ownerENIID
          then Inr (False, rcd, False)
          else if ea_Purpose alloc = purposeIGWLRP
          then Inl (Text (''cannot release gateway IP '' @ target @ '' in pool '' @ poolName))
          else if ownerENIID \<noteq> [] \<and> (ea_Purpose alloc = purposeEIP \<or> ea_AllocationID alloc \<noteq> [])
          then Inr (False, rcd, False)
          else Inr (True, rcd\<lparr>po_Allocated := (po_Allocated rcd)(target := None)\<rparr>, True))"

definition Release ::
  "'w pause \<Rightarrow> ('d \<Rightarrow> PoolRecord result) \<Rightarrow> (PoolRecord \<Rightarrow> 'd result) \<Rightarrow> string \<Rightarrow> Addr \<Rightarrow> string \<Rightarrow>
   ('w, 'd) bstate \<Rightarrow> unit result \<times> ('w, 'd) bstate" where
  "Release pause dec enc poolName ip ownerENIID s =
     (case Store_Mutate pause dec enc pool_zero poolName
             (Release_mutate poolName (Addr_String ip) ownerENIID) s of
        (Inl err, s1) \<Rightarrow> (Inl err, s1)
      | (Inr (v, released), s1) \<Rightarrow> (Inr (), s1))"

definition GetPoolRecord ::
  "('d \<Rightarrow> PoolRecord result) \<Rightarrow> string \<Rightarrow> ('w, 'd) bstate \<Rightarrow> PoolRecord result \<times> ('w, 'd) bstate" where
  "GetPoolRecord dec poolName s = map_prod (map_sum id fst) id (Store_Get dec poolName s)"

definition rangesMatch :: "PoolRecord \<Rightarrow> ExternalPoolConfig \<Rightarrow> bool" where
  "rangesMatch rcd pool \<longleftrightarrow>
     po_RangeStart rcd = ep_RangeStart pool \<and> po_RangeEnd rcd = ep_RangeEnd pool \<and>
     po_GwLrpRangeStart rcd = ep_GwLrpRangeStart pool \<and> po_GwLrpRangeEnd rcd = ep_GwLrpRangeEnd pool"

definition reconcileDrift_mutate :: "ExternalPoolConfig \<Rightarrow> (PoolRecord, unit) mutator" where
  "reconcileDrift_mutate pool rcd =
     (if rangesMatch rcd pool then Inr (False, rcd, ())
      else Inr (True, rcd\<lparr>po_RangeStart := ep_RangeStart pool, po_RangeEnd := ep_RangeEnd pool,
             po_GwLrpRangeStart := ep_GwLrpRangeStart pool, po_GwLrpRangeEnd := ep_GwLrpRangeEnd pool\<rparr>, ()))"

definition reconcileDrift ::
  "'w pause \<Rightarrow> ('d \<Rightarrow> PoolRecord result) \<Rightarrow> (PoolRecord \<Rightarrow> 'd result) \<Rightarrow> ExternalPoolConfig \<Rightarrow>
   ('w, 'd) bstate \<Rightarrow> (PoolRecord \<times> unit) result \<times> ('w, 'd) bstate" where
  "reconcileDrift pause dec enc pool s =
     Store_Mutate pause dec enc pool_zero (ep_Name pool) (reconcileDrift_mutate pool) s"

definition new_pool_record :: "ExternalPoolConfig \<Rightarrow> PoolRecord" where
  "new_pool_record pool =
     (let gwIP = (if ep_GatewayIP pool = [] then ep_RangeStart pool else ep_GatewayIP pool)
      in \<lparr>po_PoolName = ep_Name pool, po_RangeStart = ep_RangeStart pool, po_RangeEnd = ep_RangeEnd pool,
          po_Gateway = ep_Gateway pool, po_GatewayIP = gwIP, po_PrefixLen = ep_PrefixLen pool,
          po_Region = ep_Region pool, po_AZ = ep_AZ pool,
          po_GwLrpRangeStart = ep_GwLrpRangeStart pool, po_GwLrpRangeEnd = ep_GwLrpRangeEnd pool,
          po_Allocated = [gwIP \<mapsto> \<lparr>ea_Purpose = purposeIGWLRP, ea_AllocationID = [], ea_Association = [],
            ea_ENIId = [], ea_InstanceId = [], ea_Note = ''OVN router SNAT address''\<rparr>],
          po_Cursor = []\<rparr>)"

definition initPool ::
  "'w pause \<Rightarrow> ('d \<Rightarrow> PoolRecord result) \<Rightarrow> (PoolRecord \<Rightarrow> 'd result) \<Rightarrow> ExternalPoolConfig \<Rightarrow>
   ('w, 'd) bstate \<Rightarrow> unit result \<times> ('w, 'd) bstate" where
  "initPool pause dec enc pool s =
     (case Store_Get dec (ep_Name pool) s of
        (Inr (chk, r), s1) \<Rightarrow>
          if \<not> rangesMatch chk pool
          then (case reconcileDrift pause dec enc pool s1 of
                  (Inl err, s2) \<Rightarrow> (if \<not> errors_Is err errPoolContended then Inl err else Inr (), s2)
                | (Inr v, s2) \<Rightarrow> (Inr (), s2))
          else (Inr (), s1)
      | (Inl err, s1) \<Rightarrow>
          if \<not> errors_Is err ErrNotFound then (Inl err, s1)
          else (case Store_Create enc (ep_Name pool) (new_pool_record pool) s1 of
                  (Inl err, s2) \<Rightarrow>
                    (if errors_Is err ErrExists then Inr ()
                     else Inl (Wrapped ''create pool KV entry: '' [err] []), s2)
                | (Inr r, s2) \<Rightarrow> (Inr (), s2)))"

fun initPools ::
  "'w pause \<Rightarrow> ('d \<Rightarrow> PoolRecord result) \<Rightarrow> (PoolRecord \<Rightarrow> 'd result) \<Rightarrow> ExternalPoolConfig list \<Rightarrow>
   ('w, 'd) bstate \<Rightarrow> unit result \<times> ('w, 'd) bstate" where
  "initPools pause dec enc [] s = (Inr (), s)"
| "initPools pause dec enc (pool # pools) s =
     (case initPool pause dec enc pool s of
        (Inl err, s1) \<Rightarrow> (Inl (Wrapped (''init pool '' @ ep_Name pool @ '': '') [err] []), s1)
      | (Inr u, s1) \<Rightarrow> initPools pause dec enc pools s1)"

section \<open>The scan\<close>

lemma pool_scan_find:
  "pool_scan n k startInt offset totalN reserved taken =
     map_option string4 (find (\<lambda>i. \<not> reserved i \<and> \<not> taken (string4 i))
       (map (\<lambda>j. startInt + (offset + (k + of_nat j)) mod totalN) [0 ..< n]))"
proof (induction n arbitrary: k)
  case (Suc n)
  have "[0 ..< Suc n] = 0 # map Suc [0 ..< n]" by (simp only: upt_conv_Cons map_Suc_upt)
  then have "map (\<lambda>j. startInt + (offset + (k + of_nat j)) mod totalN) [0 ..< Suc n] =
      (startInt + (offset + k) mod totalN) #
      map (\<lambda>j. startInt + (offset + (k + 1 + of_nat j)) mod totalN) [0 ..< n]"
    by (simp add: algebra_simps)
  with Suc.IH [of "k + 1"] show ?case by (simp add: Let_def del: upt_Suc)
qed simp

text \<open>
  The number of addresses of a range, as a natural number; the 32-bit \<open>total\<close> of the source is it
  modulo 2^32.
\<close>

definition range_size :: "32 word \<Rightarrow> 32 word \<Rightarrow> nat" where
  "range_size s e = unat e - unat s + 1"

lemma unat32_bound: "unat (x :: 32 word) < 2 ^ 32"
  using unsigned_less [of x, where 'a = nat] by simp

lemma total_unat:
  assumes "s \<le> e" and "range_size s e < 2 ^ 32"
  shows "unat (e - s + 1 :: 32 word) = range_size s e"
proof -
  have sub: "unat (e - s) = unat e - unat s" using assms(1) by (rule unat_sub)
  have "unat (e - s) + unat (1 :: 32 word) < 2 ^ LENGTH(32)"
    using assms(2) sub by (simp add: range_size_def)
  then have "unat (e - s + 1) = unat (e - s) + unat (1 :: 32 word)"
    by (metis unat_add_lem)
  with sub show ?thesis by (simp add: range_size_def)
qed

text \<open>Which address the scan visits at step \<open>j\<close>, for ranges of at most 2^31 addresses: there the
  32-bit sum \<open>offset + k\<close> does not wrap.\<close>

lemma visit_unat:
  assumes se: "s \<le> e" and T: "range_size s e \<le> 2 ^ 31" and off: "unat off < range_size s e"
    and j: "j < range_size s e"
  shows "unat (s + (off + of_nat j) mod (e - s + 1) :: 32 word) =
     unat s + (unat off + j) mod range_size s e"
proof -
  have tot: "unat (e - s + 1) = range_size s e" using se T by (intro total_unat) auto
  have jw: "unat (of_nat j :: 32 word) = j" using j T by (simp add: unat_of_nat)
  have "unat off + unat (of_nat j :: 32 word) < 2 ^ LENGTH(32)" using off j T jw by simp
  then have sum: "unat (off + of_nat j) = unat off + j" by (metis unat_add_lem jw)
  have r: "unat ((off + of_nat j) mod (e - s + 1)) = (unat off + j) mod range_size s e"
    by (simp only: unat_mod sum tot)
  have lt: "(unat off + j) mod range_size s e < range_size s e"
    by (rule mod_less_divisor) (simp add: range_size_def)
  have le: "unat s \<le> unat e" using se by (simp add: word_le_nat_alt)
  have "range_size s e + unat s = unat e + 1" using le by (simp add: range_size_def)
  with lt unat32_bound [of e] have "unat s + (unat off + j) mod range_size s e < 2 ^ LENGTH(32)"
    by simp
  with r show ?thesis by (metis unat_add_lem)
qed

lemma range_visited:
  assumes "0 < T" and "o' < T" and "m < (T :: nat)"
  shows "\<exists>j < T. (o' + j) mod T = m"
proof -
  define j where "j = (m + (T - o')) mod T"
  have "(o' + j) mod T = (o' + (m + (T - o'))) mod T" by (simp add: j_def mod_add_right_eq)
  also have "\<dots> = (m + T) mod T" using assms by simp
  also have "\<dots> = m" using assms by simp
  finally show ?thesis using assms(1) by (intro exI [of _ j]) (simp add: j_def)
qed

text \<open>Where the scan starts: just past the cursor, or at the start of the range.\<close>

definition scan_start :: "string \<Rightarrow> 32 word \<Rightarrow> 32 word \<Rightarrow> nat" where
  "scan_start cursor s e =
     (case ParseIP_To4 cursor of
        Some c \<Rightarrow> if s \<le> c \<and> c \<le> e then (unat c - unat s + 1) mod range_size s e else 0
      | None \<Rightarrow> 0)"

lemma scan_start_less: "scan_start cursor s e < range_size s e"
  by (auto simp: scan_start_def range_size_def split: option.splits)

lemma pool_offset_start:
  assumes "s \<le> e" and "range_size s e < 2 ^ 32"
  shows "\<exists>off. pool_offset cursor s e (e - s + 1) = Some off \<and> unat off = scan_start cursor s e"
proof -
  have tot: "unat (e - s + 1) = range_size s e" using assms by (rule total_unat)
  then have nz: "e - s + 1 \<noteq> 0" by (metis One_nat_def add_is_0 nat.simps(3) range_size_def unat_0 add_Suc_right)
  show ?thesis
  proof (cases "\<exists>c. ParseIP_To4 cursor = Some c \<and> s \<le> c \<and> c \<le> e")
    case False
    then show ?thesis by (auto simp: pool_offset_def scan_start_def split: option.splits)
  next
    case True
    then obtain c where c: "ParseIP_To4 cursor = Some c" "s \<le> c" "c \<le> e" by blast
    have "range_size s c \<le> range_size s e" using c by (simp add: range_size_def word_le_nat_alt)
    then have "unat (c - s + 1) = range_size s c" using assms c by (intro total_unat) auto
    with c nz tot show ?thesis
      by (simp add: pool_offset_def scan_start_def unat_mod range_size_def [of s c])
  qed
qed

lemma pool_next_cases:
  assumes S: "ParseIP_To4 (po_RangeStart rcd) = Some s" and E: "ParseIP_To4 (po_RangeEnd rcd) = Some e"
    and se: "s \<le> e" and T: "range_size s e < 2 ^ 32"
  obtains off where "unat off = scan_start (po_Cursor rcd) s e"
    and "pool_nextAvailableIP rcd =
      (case find (\<lambda>i. \<not> gw_lrp_reserved rcd i \<and> po_Allocated rcd (string4 i) = None)
              (map (\<lambda>j. s + (off + of_nat j) mod (e - s + 1)) [0 ..< range_size s e]) of
         Some i \<Rightarrow> Inr (string4 i)
       | None \<Rightarrow> Inl (Wrapped (''pool '' @ po_PoolName rcd @ '' exhausted: '')
                   [Text ErrorInsufficientAddressCapacity] []))"
proof -
  from pool_offset_start [OF se T] obtain off where
    "pool_offset (po_Cursor rcd) s e (e - s + 1) = Some off" "unat off = scan_start (po_Cursor rcd) s e"
    by blast
  moreover have "unat (e - s + 1) = range_size s e" by (rule total_unat [OF se T])
  moreover have "\<not> e < s" using se by simp
  ultimately show ?thesis
    using S E by (intro that [of off])
      (simp_all add: pool_nextAvailableIP_def Let_def pool_scan_find split: option.split)
qed

lemma pool_next_fresh: "pool_nextAvailableIP rcd = Inr ip \<Longrightarrow> po_Allocated rcd ip = None"
  by (auto simp: pool_nextAvailableIP_def Let_def pool_scan_find find_Some_iff
      split: option.splits if_splits prod.splits)

text \<open>The address found is the first free one at or after the start of the scan, cyclically.\<close>

lemma pool_next_round_robin:
  assumes S: "ParseIP_To4 (po_RangeStart rcd) = Some s" and E: "ParseIP_To4 (po_RangeEnd rcd) = Some e"
    and se: "s \<le> e" and T: "range_size s e \<le> 2 ^ 31" and ip: "pool_nextAvailableIP rcd = Inr ip"
  shows "\<exists>k < range_size s e. \<exists>i. ip = string4 i \<and>
     unat i = unat s + (scan_start (po_Cursor rcd) s e + k) mod range_size s e \<and>
     \<not> gw_lrp_reserved rcd i \<and> po_Allocated rcd ip = None \<and>
     (\<forall>j < k. \<forall>i'. unat i' = unat s + (scan_start (po_Cursor rcd) s e + j) mod range_size s e \<longrightarrow>
        gw_lrp_reserved rcd i' \<or> po_Allocated rcd (string4 i') \<noteq> None)"
proof -
  let ?T = "range_size s e" and ?o = "scan_start (po_Cursor rcd) s e"
  from T have "?T < 2 ^ 32" by simp
  from pool_next_cases [OF S E se this] obtain off where off: "unat off = ?o"
    and run: "pool_nextAvailableIP rcd =
      (case find (\<lambda>i. \<not> gw_lrp_reserved rcd i \<and> po_Allocated rcd (string4 i) = None)
              (map (\<lambda>j. s + (off + of_nat j) mod (e - s + 1)) [0 ..< ?T]) of
         Some i \<Rightarrow> Inr (string4 i)
       | None \<Rightarrow> Inl (Wrapped (''pool '' @ po_PoolName rcd @ '' exhausted: '')
                   [Text ErrorInsufficientAddressCapacity] []))" .
  define at where "at j = s + (off + of_nat j) mod (e - s + 1)" for j
  have at: "unat (at j) = unat s + (?o + j) mod ?T" if "j < ?T" for j
    using visit_unat [OF se T _ that, of off] scan_start_less [of "po_Cursor rcd" s e] off
    by (simp add: at_def)
  from run ip obtain k where k: "k < ?T" "ip = string4 (at k)"
    "\<not> gw_lrp_reserved rcd (at k)" "po_Allocated rcd (string4 (at k)) = None"
    "\<forall>j < k. gw_lrp_reserved rcd (at j) \<or> po_Allocated rcd (string4 (at j)) \<noteq> None"
    by (auto simp: find_Some_iff at_def split: option.splits)
  have "gw_lrp_reserved rcd i' \<or> po_Allocated rcd (string4 i') \<noteq> None"
    if "j < k" "unat i' = unat s + (?o + j) mod ?T" for j i'
  proof -
    have "i' = at j" using that k(1) at [of j] by (simp add: word_unat_eq_iff)
    with k(5) that(1) show ?thesis by blast
  qed
  with k at show ?thesis by (intro exI [of _ k] conjI exI [of _ "at k"]) auto
qed

lemma pool_next_exhausted:
  assumes S: "ParseIP_To4 (po_RangeStart rcd) = Some s" and E: "ParseIP_To4 (po_RangeEnd rcd) = Some e"
    and se: "s \<le> e" and T: "range_size s e \<le> 2 ^ 31"
  shows "(\<exists>err. pool_nextAvailableIP rcd = Inl err) \<longleftrightarrow>
     (\<forall>i. s \<le> i \<and> i \<le> e \<longrightarrow> gw_lrp_reserved rcd i \<or> po_Allocated rcd (string4 i) \<noteq> None)"
proof -
  let ?T = "range_size s e" and ?o = "scan_start (po_Cursor rcd) s e"
  let ?free = "\<lambda>i. \<not> gw_lrp_reserved rcd i \<and> po_Allocated rcd (string4 i) = None"
  from T have "?T < 2 ^ 32" by simp
  from pool_next_cases [OF S E se this] obtain off where off: "unat off = ?o"
    and run: "pool_nextAvailableIP rcd =
      (case find ?free (map (\<lambda>j. s + (off + of_nat j) mod (e - s + 1)) [0 ..< ?T]) of
         Some i \<Rightarrow> Inr (string4 i)
       | None \<Rightarrow> Inl (Wrapped (''pool '' @ po_PoolName rcd @ '' exhausted: '')
                   [Text ErrorInsufficientAddressCapacity] []))" .
  define at where "at j = s + (off + of_nat j) mod (e - s + 1)" for j
  have at: "unat (at j) = unat s + (?o + j) mod ?T" if "j < ?T" for j
    using visit_unat [OF se T _ that, of off] scan_start_less [of "po_Cursor rcd" s e] off
    by (simp add: at_def)
  have le: "unat s \<le> unat e" using se by (simp add: word_le_nat_alt)
  have range: "(\<exists>j < ?T. i = at j) \<longleftrightarrow> s \<le> i \<and> i \<le> e" for i
  proof
    assume "\<exists>j < ?T. i = at j"
    then obtain j where "j < ?T" "i = at j" by blast
    with at have "unat i = unat s + (?o + j) mod ?T" by simp
    moreover have "(?o + j) mod ?T < ?T" by (rule mod_less_divisor) (simp add: range_size_def)
    moreover have "?T + unat s = unat e + 1" using le by (simp add: range_size_def)
    ultimately show "s \<le> i \<and> i \<le> e" unfolding word_le_nat_alt by linarith
  next
    assume i: "s \<le> i \<and> i \<le> e"
    then have "unat i - unat s < ?T" unfolding word_le_nat_alt range_size_def by linarith
    then obtain j where "j < ?T" "(?o + j) mod ?T = unat i - unat s"
      using range_visited [of ?T ?o "unat i - unat s"] scan_start_less [of "po_Cursor rcd" s e]
      by (auto simp: range_size_def)
    moreover from i have "unat s + (unat i - unat s) = unat i" by (simp add: word_le_nat_alt)
    ultimately have "i = at j" using at [of j] by (simp add: word_unat_eq_iff)
    with \<open>j < ?T\<close> show "\<exists>j < ?T. i = at j" by blast
  qed
  have "(\<exists>err. pool_nextAvailableIP rcd = Inl err) \<longleftrightarrow> find ?free (map at [0 ..< ?T]) = None"
    unfolding run at_def by (auto split: option.splits)
  also have "\<dots> \<longleftrightarrow> (\<forall>i. (\<exists>j < ?T. i = at j) \<longrightarrow> \<not> ?free i)"
  proof -
    have "i \<in> set (map at [0 ..< ?T]) \<longleftrightarrow> (\<exists>j < ?T. i = at j)" for i by auto
    then show ?thesis unfolding find_None_iff by blast
  qed
  finally show ?thesis by (simp only: range de_Morgan_conj not_not)
qed

section \<open>What releases and allocations keep\<close>

lemma Release_frees_iff:
  "Release_mutate pool target owner rcd = Inr (True, rcd', released) \<longleftrightarrow>
   released \<and> rcd' = rcd\<lparr>po_Allocated := (po_Allocated rcd)(target := None)\<rparr> \<and>
   (\<exists>alloc. po_Allocated rcd target = Some alloc \<and> ea_Purpose alloc \<noteq> purposeIGWLRP \<and>
      (owner \<noteq> [] \<longrightarrow> (ea_ENIId alloc = [] \<or> ea_ENIId alloc = owner) \<and>
         ea_Purpose alloc \<noteq> purposeEIP \<and> ea_AllocationID alloc = []))"
  by (auto simp: Release_mutate_def split: option.splits if_splits)

lemma Release_unchanged: "Release_mutate pool target owner rcd = Inr (False, rcd', released) \<Longrightarrow> rcd' = rcd"
  by (auto simp: Release_mutate_def split: option.splits if_splits)

text \<open>The gateway's address stays listed as the gateway's.\<close>

definition gateway_kept :: "PoolRecord \<Rightarrow> bool" where
  "gateway_kept rcd \<longleftrightarrow>
     (\<exists>a. po_Allocated rcd (po_GatewayIP rcd) = Some a \<and> ea_Purpose a = purposeIGWLRP)"

lemma new_pool_gateway: "gateway_kept (new_pool_record pool)"
  by (simp add: gateway_kept_def new_pool_record_def Let_def)

interpretation pool_allocate: cas_update gateway_kept Allocate_mutate
proof unfold_locales
  fix v p v' a
  assume "gateway_kept v" and run: "Allocate_mutate p v = Inr (True, v', a)"
  moreover from run have "pool_nextAvailableIP v = Inr a" by (auto simp: Allocate_mutate_def split: sum.splits)
  then have "po_Allocated v a = None" by (rule pool_next_fresh)
  ultimately show "gateway_kept v'"
    by (auto simp: gateway_kept_def Allocate_mutate_def split: sum.splits)
qed

interpretation pool_release: cas_update gateway_kept "\<lambda>(pool, target, owner). Release_mutate pool target owner"
  by unfold_locales (auto simp: gateway_kept_def Release_frees_iff split: prod.splits)

interpretation pool_drift: cas_update gateway_kept reconcileDrift_mutate
  by unfold_locales (auto simp: gateway_kept_def reconcileDrift_mutate_def split: if_splits)

interpretation external_pool: address_pool
  "\<lambda>r. dom (po_Allocated r)" Allocate_mutate "\<lambda>(pool, target, owner). Release_mutate pool target owner"
proof unfold_locales
  fix q r c r' ip
  assume run: "Allocate_mutate q r = Inr (c, r', ip)"
  then have "pool_nextAvailableIP r = Inr ip" by (auto simp: Allocate_mutate_def split: sum.splits)
  then show "ip \<notin> dom (po_Allocated r)" by (simp add: domIff pool_next_fresh)
  from run show "c \<and> dom (po_Allocated r') = insert ip (dom (po_Allocated r))"
    by (auto simp: Allocate_mutate_def split: sum.splits)
next
  fix p :: "string \<times> string \<times> string" and r c r' a
  obtain pool target owner where p: "p = (pool, target, owner)" by (metis prod.exhaust)
  assume "(case p of (pool, target, owner) \<Rightarrow> Release_mutate pool target owner) r = Inr (c, r', a)"
  with p show "dom (po_Allocated r') \<subseteq> dom (po_Allocated r)"
    by (cases c) (auto simp: Release_frees_iff dest: Release_unchanged split: if_splits)
qed

section \<open>Choosing a pool\<close>

definition FindPool :: "ExternalPoolConfig list \<Rightarrow> string \<Rightarrow> string \<Rightarrow> ExternalPoolConfig option" where
  "FindPool pools region az =
     (case find (\<lambda>p. ep_AZ p \<noteq> [] \<and> ep_AZ p = az \<and> ep_Region p = region) pools of
        Some p \<Rightarrow> Some p
      | None \<Rightarrow>
          (case find (\<lambda>p. ep_AZ p = [] \<and> ep_Region p \<noteq> [] \<and> ep_Region p = region) pools of
             Some p \<Rightarrow> Some p
           | None \<Rightarrow> find (\<lambda>p. ep_Region p = [] \<and> ep_AZ p = []) pools))"

section \<open>The gateway range\<close>

text \<open>The stages of \<open>gwLrpRange\<close> after the WAN subnet is known: shift below the pool's range, clip
  to the host addresses, and step around the gateway.\<close>

definition auto_shift :: "ExternalPoolConfig \<Rightarrow> 32 word \<Rightarrow> 32 word \<Rightarrow> (32 word \<times> 32 word) option" where
  "auto_shift pool autoStart autoEnd =
     (if ep_RangeStart pool \<noteq> [] \<and> ep_RangeEnd pool \<noteq> []
      then (case (ParseIP_To4 (ep_RangeStart pool), ParseIP_To4 (ep_RangeEnd pool)) of
              (Some rs, Some re) \<Rightarrow>
                if autoEnd \<ge> rs \<and> autoStart \<le> re
                then if rs < 17 then None else Some (rs - 16, rs - 1)
                else Some (autoStart, autoEnd)
            | _ \<Rightarrow> Some (autoStart, autoEnd))
      else Some (autoStart, autoEnd))"

definition auto_clip :: "32 word \<Rightarrow> 32 word \<Rightarrow> 32 word \<times> 32 word \<Rightarrow> (32 word \<times> 32 word) option" where
  "auto_clip netU bcastU r =
     (let autoStart = (if fst r \<le> netU then netU + 1 else fst r);
          autoEnd = (if snd r \<ge> bcastU then bcastU - 1 else snd r)
      in if autoStart > autoEnd then None else Some (autoStart, autoEnd))"

definition auto_around :: "32 word \<Rightarrow> 32 word \<times> 32 word \<Rightarrow> (32 word \<times> 32 word) option" where
  "auto_around gwU r =
     (case r of (autoStart, autoEnd) \<Rightarrow>
       if gwU \<ge> autoStart \<and> gwU \<le> autoEnd
       then (let r' = (if gwU = autoStart then (autoStart + 1, autoEnd)
                       else if gwU = autoEnd then (autoStart, autoEnd - 1)
                       else (gwU + 1, autoEnd))
             in if fst r' > snd r' then None else Some r')
       else Some (autoStart, autoEnd))"

unbundle bit_operations_syntax

definition auto_range :: "ExternalPoolConfig \<Rightarrow> nat \<Rightarrow> (32 word \<times> 32 word) option" where
  "auto_range pool prefix =
     (case ParseIP_To4 (ep_Gateway pool) of
        None \<Rightarrow> None
      | Some gw \<Rightarrow>
          (let netU = gw AND NOT (mask (32 - prefix)); bcastU = netU OR mask (32 - prefix)
           in if bcastU < 17 then None
              else Option.bind (auto_shift pool (bcastU - 16) (bcastU - 1))
                     (\<lambda>r. Option.bind (auto_clip netU bcastU r) (auto_around gw))))"

definition gwLrpRange :: "ExternalPoolConfig option \<Rightarrow> (32 word \<times> 32 word \<times> nat) option" where
  "gwLrpRange p =
     (case p of
        None \<Rightarrow> None
      | Some pool \<Rightarrow>
          (let prefix = (if ep_PrefixLen pool \<le> 0 \<or> ep_PrefixLen pool > 32 then 24 else nat (ep_PrefixLen pool));
               explicit =
                 (if ep_GwLrpRangeStart pool \<noteq> [] \<or> ep_GwLrpRangeEnd pool \<noteq> []
                  then (case (ParseIP_To4 (ep_GwLrpRangeStart pool), ParseIP_To4 (ep_GwLrpRangeEnd pool)) of
                          (Some s, Some e) \<Rightarrow> if s \<le> e then Some (s, e) else None
                        | _ \<Rightarrow> None)
                  else None)
           in case explicit of
                Some (s, e) \<Rightarrow> Some (s, e, prefix)
              | None \<Rightarrow> map_option (\<lambda>(s, e). (s, e, prefix)) (auto_range pool prefix)))"

text \<open>
  \<open>StaticRangeAllocator.Allocate\<close> over the router ports OVN lists (their name and recorded gateway
  address). The loop variable is a \<open>uint32\<close> that wraps, so a full range ending at the last address
  keeps looping; \<open>None\<close> of \<open>range_scan\<close> is not returning.
\<close>

partial_function (option) range_scan ::
  "(32 word \<Rightarrow> bool) \<Rightarrow> 32 word \<Rightarrow> 32 word \<Rightarrow> 32 word option option" where
  "range_scan used endU n =
     (if n \<le> endU then if used n then range_scan used endU (n + 1) else Some (Some n) else Some None)"

fun lrp_walk ::
  "string \<Rightarrow> (string \<times> string) list \<Rightarrow> 32 word list \<Rightarrow> string + 32 word list" where
  "lrp_walk gwPortName [] used = Inr used"
| "lrp_walk gwPortName ((name, existing) # lrps) used =
     (if existing = [] then lrp_walk gwPortName lrps used
      else if name = gwPortName then Inl existing
      else case ParseIP_To4 existing of
             Some v \<Rightarrow> lrp_walk gwPortName lrps (v # used)
           | None \<Rightarrow> lrp_walk gwPortName lrps used)"

definition GatewayRouterPort :: "string \<Rightarrow> string" where
  "GatewayRouterPort vpcID = ''gw-'' @ vpcID"

text \<open>The outer option is not returning; an inner \<open>None\<close> is \<open>ok = false\<close>.\<close>

definition StaticRange_Allocate ::
  "(string \<times> string) list result \<Rightarrow> string \<Rightarrow> ExternalPoolConfig option \<Rightarrow>
   (string \<times> nat \<times> string) option result option" where
  "StaticRange_Allocate lrps vpcID p =
     (case (p, gwLrpRange p) of
        (Some pool, Some (startU, endU, prefix)) \<Rightarrow>
          (case lrps of
             Inl err \<Rightarrow> Some (Inl (Wrapped ''list LRPs for gw IP allocation: '' [err] []))
           | Inr ports \<Rightarrow>
               (case lrp_walk (GatewayRouterPort vpcID) ports [] of
                  Inl existing \<Rightarrow> Some (Inr (Some (existing, prefix, ep_Gateway pool)))
                | Inr used \<Rightarrow>
                    map_option (\<lambda>r. case r of
                        Some n \<Rightarrow> Inr (Some (string4 n, prefix, ep_Gateway pool))
                      | None \<Rightarrow> Inl (Text (''gw_lrp_range exhausted for pool '' @ ep_Name pool)))
                      (range_scan (\<lambda>n. n \<in> set used) endU startU)))
      | _ \<Rightarrow> Some (Inr None))"

section \<open>The derived range\<close>

lemma word32_succ_less: "(x :: 32 word) < y \<Longrightarrow> unat (x + 1) = unat x + 1"
proof -
  assume "x < y"
  then have "unat x + unat (1 :: 32 word) < 2 ^ LENGTH(32)"
    using unat32_bound [of y] by (simp add: word_less_nat_alt)
  then have "unat (x + 1) = unat x + unat (1 :: 32 word)" by (metis unat_add_lem)
  then show ?thesis by simp
qed

lemma word32_pred: "(0 :: 32 word) < x \<Longrightarrow> unat (x - 1) = unat x - 1"
proof -
  assume "0 < x"
  then have "1 \<le> x" by (simp add: word_less_nat_alt word_le_nat_alt)
  from unat_sub [OF this] show ?thesis by simp
qed

text \<open>Each stage stays inside the one before and cuts out what it is there for.\<close>

lemma auto_shift_avoids:
  assumes "auto_shift pool a b = Some (s, e)"
    and "ParseIP_To4 (ep_RangeStart pool) = Some rs" and "ParseIP_To4 (ep_RangeEnd pool) = Some re"
    and "ep_RangeStart pool \<noteq> []" and "ep_RangeEnd pool \<noteq> []"
  shows "e < rs \<or> re < s"
proof (cases "rs \<le> b \<and> a \<le> re")
  case True
  with assms have "17 \<le> rs" "e = rs - 1" by (auto simp: auto_shift_def split: if_splits)
  then have "0 < unat rs" by (simp add: word_le_nat_alt)
  then have "unat e = unat rs - 1" using \<open>e = rs - 1\<close> word32_pred [of rs] by (simp add: word_less_nat_alt)
  with \<open>0 < unat rs\<close> have "e < rs" by (simp add: word_less_nat_alt)
  then show ?thesis ..
next
  case False
  with assms show ?thesis by (auto simp: auto_shift_def not_le split: if_splits)
qed

lemma auto_clip_inside:
  assumes "auto_clip netU bcastU (a, b) = Some (s, e)" and "netU < m" and "0 < bcastU"
  shows "s \<le> e \<and> a \<le> s \<and> e \<le> b \<and> netU < s \<and> e < bcastU"
proof -
  have "unat (netU + 1) = unat netU + 1" by (rule word32_succ_less [OF assms(2)])
  moreover have "unat (bcastU - 1) = unat bcastU - 1" by (rule word32_pred [OF assms(3)])
  moreover have "0 < unat bcastU" using assms(3) by (simp add: word_less_nat_alt)
  ultimately show ?thesis
    using assms(1)
    by (auto simp: auto_clip_def Let_def word_le_nat_alt word_less_nat_alt not_le not_less split: if_splits)
qed

lemma auto_around_inside:
  assumes "auto_around gw (a, b) = Some (s, e)" and "a \<le> b" and "b < m"
  shows "s \<le> e \<and> a \<le> s \<and> e \<le> b \<and> (gw < s \<or> e < gw)"
proof (cases "a \<le> gw \<and> gw \<le> b")
  case False
  with assms show ?thesis by (auto simp: auto_around_def not_le)
next
  case True
  have "unat (gw + 1) = unat gw + 1" using True assms(3) by (intro word32_succ_less [of _ m]) auto
  moreover have "gw = b \<Longrightarrow> gw \<noteq> a \<Longrightarrow> unat (b - 1) = unat b - 1 \<and> 0 < unat b"
    using True word32_pred [of b] by (auto simp: word_less_nat_alt word_le_nat_alt word_unat_eq_iff)
  ultimately show ?thesis
    using assms(1) True
    by (cases "gw = a"; cases "gw = b")
      (auto simp: auto_around_def Let_def word_le_nat_alt word_less_nat_alt not_le not_less split: if_splits)
qed

lemma netU_le: "gw AND NOT (mask n) \<le> (gw :: 32 word)"
  by (simp add: word_le_nat_alt unat_and_not_mask)

lemma auto_range_avoids:
  assumes run: "auto_range pool prefix = Some (s, e)" and gw: "ParseIP_To4 (ep_Gateway pool) = Some gw"
    and top: "gw < m"
  defines "netU \<equiv> gw AND NOT (mask (32 - prefix))"
  defines "bcastU \<equiv> netU OR mask (32 - prefix)"
  shows "s \<le> e \<and> netU < s \<and> e < bcastU \<and> (gw < s \<or> e < gw) \<and>
     (\<forall>rs re. ep_RangeStart pool \<noteq> [] \<longrightarrow> ep_RangeEnd pool \<noteq> [] \<longrightarrow>
        ParseIP_To4 (ep_RangeStart pool) = Some rs \<longrightarrow> ParseIP_To4 (ep_RangeEnd pool) = Some re \<longrightarrow>
        e < rs \<or> re < s)"
proof -
  from run gw obtain a b c d where b17: "\<not> bcastU < 17"
    and shift: "auto_shift pool (bcastU - 16) (bcastU - 1) = Some (a, b)"
    and clip: "auto_clip netU bcastU (a, b) = Some (c, d)" and arnd: "auto_around gw (c, d) = Some (s, e)"
    by (auto simp: auto_range_def Let_def netU_def bcastU_def split: if_splits Option.bind_splits)
  from b17 have "0 < bcastU" by (simp add: word_less_nat_alt)
  moreover have "netU < m" using netU_le top unfolding netU_def by (rule le_less_trans)
  ultimately have C: "c \<le> d" "a \<le> c" "d \<le> b" "netU < c" "d < bcastU"
    using auto_clip_inside [OF clip] by auto
  from auto_around_inside [OF arnd C(1) C(5)]
  have R: "s \<le> e" "c \<le> s" "e \<le> d" "gw < s \<or> e < gw" by auto
  have "e < rs \<or> re < s"
    if "ep_RangeStart pool \<noteq> []" "ep_RangeEnd pool \<noteq> []"
      "ParseIP_To4 (ep_RangeStart pool) = Some rs" "ParseIP_To4 (ep_RangeEnd pool) = Some re" for rs re
    using auto_shift_avoids [OF shift that(3,4,1,2)] C R by (meson le_less_trans less_le_trans order_trans)
  with C R show ?thesis by (meson le_less_trans less_le_trans)
qed

section \<open>The range scan\<close>

lemma range_scan_returns:
  assumes "endU < m"
  shows "\<exists>r. range_scan used endU n = Some r \<and>
     (case r of
        None \<Rightarrow> \<forall>i. n \<le> i \<and> i \<le> endU \<longrightarrow> used i
      | Some i \<Rightarrow> n \<le> i \<and> i \<le> endU \<and> \<not> used i \<and> (\<forall>j. n \<le> j \<and> j < i \<longrightarrow> used j))"
proof (induction "unat endU + 1 - unat n" arbitrary: n rule: less_induct)
  case less
  show ?case
  proof (cases "n \<le> endU \<and> used n")
    case False
    then show ?thesis by (subst range_scan.simps) (auto split: option.splits)
  next
    case True
    then have n1: "unat (n + 1) = unat n + 1" using assms by (intro word32_succ_less [of _ m]) auto
    from True have "unat n \<le> unat endU" by (simp add: word_le_nat_alt)
    then have "unat endU + 1 - unat (n + 1) < unat endU + 1 - unat n" using n1 by linarith
    from less.hyps [OF this] obtain r where r: "range_scan used endU (n + 1) = Some r"
      "case r of
        None \<Rightarrow> \<forall>i. n + 1 \<le> i \<and> i \<le> endU \<longrightarrow> used i
      | Some i \<Rightarrow> n + 1 \<le> i \<and> i \<le> endU \<and> \<not> used i \<and> (\<forall>j. n + 1 \<le> j \<and> j < i \<longrightarrow> used j)"
      by blast
    have split: "n \<le> j \<longleftrightarrow> j = n \<or> n + 1 \<le> j" for j
      using n1 by (auto simp: word_le_nat_alt word_unat_eq_iff)
    from True r have "range_scan used endU n = Some r" by (subst range_scan.simps) simp
    with r(2) True show ?thesis by (intro exI [of _ r]) (auto simp: split split: option.splits)
  qed
qed

end
