(* ===== verification/StaticPool_Claims.thy ===== *)
theory StaticPool_Claims
  imports StaticPool Kvstore_Claims
begin

text \<open>What the external address pools promise: round-robin allocation of free addresses outside
  the gateway range, exact exhaustion, guarded releases, and a derived gateway range that overlaps
  nothing.\<close>

unbundle bit_operations_syntax

section \<open>Allocation\<close>

definition demo_pool :: PoolRecord where
  "demo_pool = pool_zero\<lparr>po_PoolName := ''wan'', po_RangeStart := ''192.0.2.10'', po_RangeEnd := ''192.0.2.13'',
     po_GatewayIP := ''192.0.2.10'', po_Cursor := ''192.0.2.12'',
     po_Allocated := [''192.0.2.10'' \<mapsto> \<lparr>ea_Purpose = purposeIGWLRP, ea_AllocationID = [], ea_Association = [],
       ea_ENIId = [], ea_InstanceId = [], ea_Note = []\<rparr>,
       ''192.0.2.13'' \<mapsto> \<lparr>ea_Purpose = purposeEIP, ea_AllocationID = ''eipalloc-1'', ea_Association = [],
       ea_ENIId = [], ea_InstanceId = [], ea_Note = []\<rparr>]\<rparr>"

lemma demo_parse:
  "ParseIP_To4 ''192.0.2.10'' = Some 0xC000020A" "ParseIP_To4 ''192.0.2.12'' = Some 0xC000020C"
  "ParseIP_To4 ''192.0.2.13'' = Some 0xC000020D"
  by (simp_all add: ParseIP_To4_def ParseAddr_def parseIPv4_def octets_word_def decimal_eval)

lemma demo_print:
  "string4 0xC000020A = ''192.0.2.10''" "string4 0xC000020B = ''192.0.2.11''"
  "string4 0xC000020C = ''192.0.2.12''" "string4 0xC000020D = ''192.0.2.13''"
  by (simp_all add: string4_def octet_def decimal_eval)

lemma demo_range: "(0xC000020A :: 32 word) \<le> 0xC000020D" "range_size 0xC000020A 0xC000020D = 4"
  by (simp_all add: range_size_def)

lemma demo_next: "pool_nextAvailableIP demo_pool = Inr ''192.0.2.11''"
  by (simp add: pool_nextAvailableIP_def demo_pool_def pool_zero_def demo_parse pool_offset_def
      pool_scan_find upt_rec gw_lrp_reserved_def Let_def demo_print)

text \<open>
  C32. Allocation is round robin. In a range of at most 2^31 addresses, the address picked is the
  first one, counting cyclically from just past the cursor (from the start of the range when the
  cursor is unset or outside), that is neither in the gateway range nor allocated; every address
  skipped on the way is one or the other. Exhaustion is reported only when every address of the
  range is one or the other.
\<close>

theorem pool_allocation_round_robin:
  assumes "ParseIP_To4 (po_RangeStart rcd) = Some s" and "ParseIP_To4 (po_RangeEnd rcd) = Some e"
    and "s \<le> e" and "range_size s e \<le> 2 ^ 31"
  shows "case pool_nextAvailableIP rcd of
      Inr ip \<Rightarrow> \<exists>k < range_size s e. \<exists>i. ip = string4 i \<and>
        unat i = unat s + (scan_start (po_Cursor rcd) s e + k) mod range_size s e \<and>
        \<not> gw_lrp_reserved rcd i \<and> po_Allocated rcd ip = None \<and>
        (\<forall>j < k. \<forall>i'. unat i' = unat s + (scan_start (po_Cursor rcd) s e + j) mod range_size s e \<longrightarrow>
           gw_lrp_reserved rcd i' \<or> po_Allocated rcd (string4 i') \<noteq> None)
    | Inl err \<Rightarrow> \<forall>i. s \<le> i \<and> i \<le> e \<longrightarrow> gw_lrp_reserved rcd i \<or> po_Allocated rcd (string4 i) \<noteq> None"
proof (cases "pool_nextAvailableIP rcd")
  case (Inl err)
  then have "\<exists>err. pool_nextAvailableIP rcd = Inl err" by blast
  with pool_next_exhausted [OF assms] Inl show ?thesis by simp
next
  case (Inr ip)
  from pool_next_round_robin [OF assms Inr] Inr show ?thesis by simp
qed

theorem pool_allocation_round_robin_witness:
  "\<exists>k < range_size 0xC000020A 0xC000020D. \<exists>i. ''192.0.2.11'' = string4 i \<and>
     unat i = unat (0xC000020A :: 32 word) +
       (scan_start (po_Cursor demo_pool) 0xC000020A 0xC000020D + k) mod range_size 0xC000020A 0xC000020D \<and>
     po_Allocated demo_pool ''192.0.2.11'' = None"
  using pool_allocation_round_robin [of demo_pool "0xC000020A" "0xC000020D"] demo_next
    demo_range demo_parse
  by (simp add: demo_pool_def) blast

section \<open>Release\<close>

text \<open>
  A release frees an address exactly when it may: the address is allocated, it is not the
  gateway's, and, if the caller names an owner, the allocation is not held for another interface
  and is no Elastic IP. Then that one address leaves the pool and nothing else changes; in every
  other case the record is left as it was.
\<close>

theorem Release_frees_exactly:
  "(Release_mutate pool target owner rcd = Inr (True, rcd', released) \<longleftrightarrow>
      released \<and> rcd' = rcd\<lparr>po_Allocated := (po_Allocated rcd)(target := None)\<rparr> \<and>
      (\<exists>alloc. po_Allocated rcd target = Some alloc \<and> ea_Purpose alloc \<noteq> purposeIGWLRP \<and>
         (owner = [] \<or> (ea_ENIId alloc = [] \<or> ea_ENIId alloc = owner) \<and>
            ea_Purpose alloc \<noteq> purposeEIP \<and> ea_AllocationID alloc = []))) \<and>
   (\<forall>c r'. Release_mutate pool target owner rcd = Inr (c, r', released) \<longrightarrow> c \<or> r' = rcd)"
proof -
  have "c \<or> r' = rcd" if "Release_mutate pool target owner rcd = Inr (c, r', released)" for c r'
    using that Release_unchanged by (cases c) auto
  then show ?thesis by (auto simp: Release_frees_iff)
qed

theorem Release_frees_exactly_example:
  "Release_mutate ''wan'' ''192.0.2.13'' ''eni-1'' demo_pool = Inr (False, demo_pool, False) \<and>
   (\<exists>rcd'. Release_mutate ''wan'' ''192.0.2.13'' [] demo_pool = Inr (True, rcd', True))"
  using Release_frees_exactly [of "''wan''" "''192.0.2.13''" "[]" demo_pool _ True]
  by (auto simp: demo_pool_def Release_mutate_def purposeIGWLRP_def purposeEIP_def)

text \<open>
  C31. The gateway keeps its address. Whatever the other nodes do, as long as they keep it too,
  allocating, releasing (with or without an owner) and reconciling the ranges of a pool leave its
  stored record listing the gateway address under the gateway's purpose.
\<close>

theorem pool_operations_keep_gateway:
  assumes "bucket_lawful b V" and "pause_lawful pause V" and "codec_ok dec enc"
    and "rely_keeps V (record_inv V dec gateway_kept key)"
    and "record_inv V dec gateway_kept key w"
    and "ar_PoolName req = key" and "ep_Name pool = key"
  shows "record_inv V dec gateway_kept key (snd (snd (snd (Allocate pause dec enc req (b, p, w))))) \<and>
     record_inv V dec gateway_kept key (snd (snd (snd (Release pause dec enc key ip owner (b, p, w))))) \<and>
     record_inv V dec gateway_kept key (snd (snd (snd (reconcileDrift pause dec enc pool (b, p, w)))))"
proof (intro conjI)
  obtain x b1 p1 w1 where a: "Store_Mutate pause dec enc pool_zero key (Allocate_mutate req) (b, p, w) = (x, b1, p1, w1)"
    by (metis prod.exhaust)
  from pool_allocate.Mutate_inv [OF assms(1-5) a] a assms(6)
  show "record_inv V dec gateway_kept key (snd (snd (snd (Allocate pause dec enc req (b, p, w)))))"
    by (simp add: Allocate_def split: sum.splits prod.splits option.splits)
  obtain y b2 p2 w2 where r: "Store_Mutate pause dec enc pool_zero key
      ((\<lambda>(pool, target, owner). Release_mutate pool target owner) (key, Addr_String ip, owner)) (b, p, w) = (y, b2, p2, w2)"
    by (metis prod.exhaust)
  from pool_release.Mutate_inv [OF assms(1-5) r] r
  show "record_inv V dec gateway_kept key (snd (snd (snd (Release pause dec enc key ip owner (b, p, w)))))"
    by (simp add: Release_def split: sum.splits prod.splits)
  obtain z b3 p3 w3 where d: "Store_Mutate pause dec enc pool_zero key (reconcileDrift_mutate pool) (b, p, w) = (z, b3, p3, w3)"
    by (metis prod.exhaust)
  from pool_drift.Mutate_inv [OF assms(1-5) d] d assms(7)
  show "record_inv V dec gateway_kept key (snd (snd (snd (reconcileDrift pause dec enc pool (b, p, w)))))"
    by (simp add: reconcileDrift_def)
qed

definition demo_world :: "PoolRecord mem" where
  "demo_world = \<lparr>mem_log = [(''wan'', Some demo_pool)], mem_script = [(''wan'', demo_pool)]\<rparr>"

definition demo_request :: AllocateRequest where
  "demo_request = \<lparr>ar_PoolName = ''wan'', ar_Purpose = ''eni'', ar_AllocationID = [], ar_ENIID = ''eni-1'',
     ar_InstanceID = ''i-1''\<rparr>"

definition demo_config :: ExternalPoolConfig where
  "demo_config = \<lparr>ep_Name = ''wan'', ep_RangeStart = ''192.0.2.10'', ep_RangeEnd = ''192.0.2.250'',
     ep_Gateway = ''192.0.2.1'', ep_GatewayIP = [], ep_PrefixLen = 24, ep_Region = [], ep_AZ = [],
     ep_GwLrpRangeStart = [], ep_GwLrpRangeEnd = []\<rparr>"

abbreviation demo_writer :: "string \<times> PoolRecord \<Rightarrow> bool" where
  "demo_writer \<equiv> \<lambda>kd. snd kd = demo_pool"

lemma demo_gateway: "gateway_kept demo_pool"
  by (simp add: gateway_kept_def demo_pool_def)

theorem pool_operations_keep_gateway_witness:
  "record_inv (mem_view demo_writer) Inr gateway_kept ''wan''
     (snd (snd (snd (Allocate mem_pause Inr Inr demo_request (mem_bucket demo_writer, idle_proc, demo_world)))))"
proof -
  have "rely_keeps (mem_view demo_writer) (record_inv (mem_view demo_writer) Inr gateway_kept ''wan'')"
    by (rule mem_rely_keeps) (use demo_gateway in auto)
  moreover have "record_inv (mem_view demo_writer) Inr gateway_kept ''wan'' demo_world"
    using demo_gateway by (simp add: record_inv_def demo_world_def)
  ultimately show ?thesis
    using pool_operations_keep_gateway [OF mem_bucket_lawful mem_pause_lawful codec_ok_id, of demo_writer
        "''wan''" demo_world demo_request demo_config]
    by (simp add: demo_request_def demo_config_def)
qed

section \<open>The gateway range\<close>

lemma demo_subnet:
  "0xC0000201 AND NOT (mask 8) = (0xC0000200 :: 32 word)" "0xC0000200 OR mask 8 = (0xC00002FF :: 32 word)"
proof -
  show "0xC0000201 AND NOT (mask 8) = (0xC0000200 :: 32 word)"
    unfolding and_not_mask by (simp add: push_bit_eq_mult)
  have "(mask 8 :: 32 word) = 255" by (simp add: mask_eq_exp_minus_1)
  then show "0xC0000200 OR mask 8 = (0xC00002FF :: 32 word)" by simp
qed

lemma demo_gw_parse:
  "ParseIP_To4 ''192.0.2.1'' = Some 0xC0000201" "ParseIP_To4 ''192.0.2.250'' = Some 0xC00002FA"
  by (simp_all add: ParseIP_To4_def ParseAddr_def parseIPv4_def octets_word_def decimal_eval)

lemma demo_gw_range: "gwLrpRange (Some demo_config) = Some (0xC0000202, 0xC0000209, 24)"
  by (simp add: gwLrpRange_def demo_config_def auto_range_def demo_gw_parse demo_parse demo_subnet Let_def
      auto_shift_def auto_clip_def auto_around_def)

text \<open>
  C33. A derived gateway range is safe to use. When no explicit range is configured and the gateway
  is not the last address of all, the range found is not empty, lies strictly between the network
  and the broadcast address of the WAN subnet, and contains neither the gateway nor any address of
  the pool's own range.
\<close>

theorem gwLrpRange_avoids:
  assumes "gwLrpRange (Some pool) = Some (s, e, prefix)"
    and "ep_GwLrpRangeStart pool = []" and "ep_GwLrpRangeEnd pool = []"
    and "ParseIP_To4 (ep_Gateway pool) = Some gw" and "gw < 0xFFFFFFFF"
  shows "s \<le> e \<and> gw AND NOT (mask (32 - prefix)) < s \<and>
     e < (gw AND NOT (mask (32 - prefix))) OR mask (32 - prefix) \<and> (gw < s \<or> e < gw) \<and>
     (\<forall>rs re. ep_RangeStart pool \<noteq> [] \<and> ep_RangeEnd pool \<noteq> [] \<and>
        ParseIP_To4 (ep_RangeStart pool) = Some rs \<and> ParseIP_To4 (ep_RangeEnd pool) = Some re \<longrightarrow>
        e < rs \<or> re < s)"
proof -
  from assms(1-3) have "auto_range pool prefix = Some (s, e)"
    by (auto simp: gwLrpRange_def Let_def split: option.splits if_splits)
  from auto_range_avoids [OF this assms(4,5)] show ?thesis by blast
qed

theorem gwLrpRange_avoids_witness:
  "\<exists>s e. gwLrpRange (Some demo_config) = Some (s, e, 24) \<and> s \<le> e \<and>
     (\<forall>rs re. ParseIP_To4 ''192.0.2.10'' = Some rs \<and> ParseIP_To4 ''192.0.2.250'' = Some re \<longrightarrow> e < rs \<or> re < s)"
proof (intro exI conjI)
  show "gwLrpRange (Some demo_config) = Some (0xC0000202, 0xC0000209, 24)" by (rule demo_gw_range)
qed (use gwLrpRange_avoids [OF demo_gw_range, of "0xC0000201"] in \<open>simp_all add: demo_config_def demo_gw_parse\<close>)

text \<open>
  The gateway allocator is idempotent per VPC and otherwise takes the lowest free address. For a
  range that does not end at the last address of all, it always returns: the recorded address of
  the VPC's own port if there is one, else the lowest address of the range no other port records,
  else an error when all are recorded.
\<close>

theorem StaticRange_lowest_free:
  assumes "gwLrpRange (Some pool) = Some (s, e, prefix)" and "e < 0xFFFFFFFF"
  shows "case lrp_walk (GatewayRouterPort vpc) ports [] of
      Inl existing \<Rightarrow>
        StaticRange_Allocate (Inr ports) vpc (Some pool) = Some (Inr (Some (existing, prefix, ep_Gateway pool)))
    | Inr used \<Rightarrow>
        (\<exists>r. StaticRange_Allocate (Inr ports) vpc (Some pool) = Some r \<and>
         (case r of
            Inr (Some (ip, pl, hop)) \<Rightarrow> pl = prefix \<and> hop = ep_Gateway pool \<and>
              (\<exists>i. ip = string4 i \<and> s \<le> i \<and> i \<le> e \<and> i \<notin> set used \<and> (\<forall>j. s \<le> j \<and> j < i \<longrightarrow> j \<in> set used))
          | Inr None \<Rightarrow> False
          | Inl err \<Rightarrow> \<forall>i. s \<le> i \<and> i \<le> e \<longrightarrow> i \<in> set used))"
proof (cases "lrp_walk (GatewayRouterPort vpc) ports []")
  case (Inl existing)
  with assms show ?thesis by (simp add: StaticRange_Allocate_def)
next
  case (Inr used)
  from range_scan_returns [OF assms(2), of "\<lambda>n. n \<in> set used" s] obtain r where
    r: "range_scan (\<lambda>n. n \<in> set used) e s = Some r"
    "case r of None \<Rightarrow> \<forall>i. s \<le> i \<and> i \<le> e \<longrightarrow> i \<in> set used
      | Some i \<Rightarrow> s \<le> i \<and> i \<le> e \<and> i \<notin> set used \<and> (\<forall>j. s \<le> j \<and> j < i \<longrightarrow> j \<in> set used)" by blast
  show ?thesis
  proof (cases r)
    case None
    with r assms Inr show ?thesis by (simp add: StaticRange_Allocate_def)
  next
    case (Some i)
    with r assms Inr show ?thesis by (auto simp: StaticRange_Allocate_def)
  qed
qed

lemma result_not_none:
  "(case r of Inr (Some (a, b, c)) \<Rightarrow> P a b c | Inr None \<Rightarrow> False | Inl e \<Rightarrow> Q e) \<Longrightarrow> r \<noteq> Inr None"
  by auto

lemma demo_walk: "lrp_walk (GatewayRouterPort ''vpc-1'') [(''gw-vpc-2'', ''192.0.2.10'')] [] = Inr [0xC000020A]"
  by (simp add: GatewayRouterPort_def demo_parse)

theorem StaticRange_lowest_free_example:
  "\<exists>r. StaticRange_Allocate (Inr [(''gw-vpc-2'', ''192.0.2.10'')]) ''vpc-1'' (Some demo_config) = Some r \<and>
     r \<noteq> Inr None"
proof -
  have lt: "(0xC0000209 :: 32 word) < 0xFFFFFFFF" by simp
  from StaticRange_lowest_free [OF demo_gw_range lt,
    where vpc = "''vpc-1''" and ports = "[(''gw-vpc-2'', ''192.0.2.10'')]", unfolded demo_walk sum.case]
  obtain r where "StaticRange_Allocate (Inr [(''gw-vpc-2'', ''192.0.2.10'')]) ''vpc-1'' (Some demo_config) = Some r"
    and "r \<noteq> Inr None" by (elim exE conjE) (rule that, assumption, erule result_not_none)
  then show ?thesis by blast
qed

text \<open>The excluded case: a full range that ends at the last address of all wraps, and the scan goes on
  to hand out an address outside it.\<close>

lemma range_scan_wraps: "range_scan (\<lambda>n. n = 0xFFFFFFFF) 0xFFFFFFFF 0xFFFFFFFF = Some (Some 0)"
  by (subst range_scan.simps, simp, subst range_scan.simps) simp

end
