(* ===== verification/VmState.thy ===== *)
theory VmState
  imports Prelude
begin

text \<open>
  The instance life cycle on one node: the states and the transition table (\<open>vm/state.go\<close>), the
  daemon's \<open>TransitionState\<close> and the manager's guarded transition with the shutting-down stamp
  (\<open>vm/shutdown.go\<close>), and crash recovery with its restart budget (\<open>vm/crash_recovery.go\<close>).
\<close>

section \<open>States and transitions\<close>

text \<open>\<open>InstanceState\<close> is a string type; a value that is none of the named constants is \<open>StateOther\<close>.\<close>

datatype InstanceState =
    StateProvisioning | StatePending | StateRunning | StateStopping | StateStopped
  | StateShuttingDown | StateTerminated | StateError | StateOther string

record EC2StateInfo =
  ec2_Code :: int
  ec2_Name :: string

fun state_text :: "InstanceState \<Rightarrow> string" where
  "state_text StateProvisioning = ''provisioning''"
| "state_text StatePending = ''pending''"
| "state_text StateRunning = ''running''"
| "state_text StateStopping = ''stopping''"
| "state_text StateStopped = ''stopped''"
| "state_text StateShuttingDown = ''shutting-down''"
| "state_text StateTerminated = ''terminated''"
| "state_text StateError = ''error''"
| "state_text (StateOther s) = s"

fun EC2StateCodes :: "InstanceState \<Rightarrow> EC2StateInfo option" where
  "EC2StateCodes StateProvisioning = Some \<lparr>ec2_Code = 0, ec2_Name = ''pending''\<rparr>"
| "EC2StateCodes StatePending = Some \<lparr>ec2_Code = 0, ec2_Name = ''pending''\<rparr>"
| "EC2StateCodes StateRunning = Some \<lparr>ec2_Code = 16, ec2_Name = ''running''\<rparr>"
| "EC2StateCodes StateStopping = Some \<lparr>ec2_Code = 64, ec2_Name = ''stopping''\<rparr>"
| "EC2StateCodes StateStopped = Some \<lparr>ec2_Code = 80, ec2_Name = ''stopped''\<rparr>"
| "EC2StateCodes StateShuttingDown = Some \<lparr>ec2_Code = 32, ec2_Name = ''shutting-down''\<rparr>"
| "EC2StateCodes StateTerminated = Some \<lparr>ec2_Code = 48, ec2_Name = ''terminated''\<rparr>"
| "EC2StateCodes StateError = Some \<lparr>ec2_Code = 0, ec2_Name = ''error''\<rparr>"
| "EC2StateCodes (StateOther s) = None"

definition EC2APIState :: "InstanceState \<Rightarrow> EC2StateInfo option" where
  "EC2APIState status = (if status = StateError then EC2StateCodes StateStopped else EC2StateCodes status)"

fun ValidTransitions :: "InstanceState \<Rightarrow> InstanceState list option" where
  "ValidTransitions StateProvisioning = Some [StateRunning, StateError, StateShuttingDown]"
| "ValidTransitions StatePending = Some [StateRunning, StateError, StateShuttingDown]"
| "ValidTransitions StateRunning = Some [StateStopping, StateShuttingDown, StateError]"
| "ValidTransitions StateStopping = Some [StateStopped, StateShuttingDown, StateError]"
| "ValidTransitions StateStopped = Some [StateRunning, StateShuttingDown, StateError]"
| "ValidTransitions StateShuttingDown = Some [StateTerminated, StateError]"
| "ValidTransitions StateError = Some [StatePending, StateRunning, StateShuttingDown]"
| "ValidTransitions StateTerminated = None"
| "ValidTransitions (StateOther s) = None"

definition IsValidTransition :: "InstanceState \<Rightarrow> InstanceState \<Rightarrow> bool" where
  "IsValidTransition current target =
     (case ValidTransitions current of None \<Rightarrow> False | Some allowed \<Rightarrow> target \<in> set allowed)"

section \<open>Instances\<close>

text \<open>
  A \<open>time.Time\<close> is its nanoseconds, the zero time \<open>None\<close>. Of \<open>VM\<close> the fields the modelled
  operations read or write are kept; \<open>vm_LaunchTime\<close> and \<open>vm_Mappings\<close> belong to the embedded EC2
  instance, which may be missing.
\<close>

type_synonym time = "int option"

record InstanceHealthState =
  CrashCount :: int
  LastCrashTime :: time
  LastCrashReason :: string
  RestartCount :: int
  FirstCrashTime :: time

record EBSRequest =
  rq_Name :: string
  rq_Boot :: bool
  rq_EFI :: bool
  rq_NBDURI :: string
  rq_DeviceName :: string
  rq_HotplugPort :: int
  rq_BlockDevice :: string
  rq_BlockSizeBytes :: nat

record BlockDeviceMapping =
  bdm_DeviceName :: "string option"
  bdm_VolumeId :: "string option"

record EC2Instance =
  ei_LaunchTime :: time
  ei_BlockDeviceMappings :: "BlockDeviceMapping list"

record VM =
  vm_ID :: string
  vm_Status :: InstanceState
  vm_InstanceType :: string
  vm_AccountID :: string
  vm_DirectBoot :: bool
  vm_EBSRequests :: "EBSRequest list"
  vm_Instance :: "EC2Instance option"
  vm_Health :: InstanceHealthState
  vm_CapacityReservationId :: string
  vm_GPUAttachments :: "string list"
  vm_QMPSocket :: string
  vm_ShuttingDownAt :: time

section \<open>Transitions of an instance\<close>

definition ErrInvalidTransition :: string where "ErrInvalidTransition = ''invalid state transition''"

definition invalid_transition :: "InstanceState \<Rightarrow> InstanceState \<Rightarrow> VM \<Rightarrow> string \<Rightarrow> go_error" where
  "invalid_transition current target v suffix =
     Wrapped [] [Sentinel ErrInvalidTransition]
       ('': '' @ state_text current @ '' -> '' @ state_text target @ '' for instance '' @ vm_ID v @ suffix)"

text \<open>
  The daemon's \<open>TransitionState\<close>. \<open>write\<close> is what persisting the node's state file returned; a
  failure keeps the new status in memory.
\<close>

definition TransitionState :: "go_error option \<Rightarrow> VM \<Rightarrow> InstanceState \<Rightarrow> go_error option \<times> VM" where
  "TransitionState write v target =
     (if \<not> IsValidTransition (vm_Status v) target then
        (Some (invalid_transition (vm_Status v) target v []), v)
      else
        (map_option (\<lambda>e. Wrapped ''state transition applied but write failed: '' [e] []) write,
         v\<lparr>vm_Status := target\<rparr>))"

definition stampShuttingDownAt :: "int \<Rightarrow> VM \<Rightarrow> InstanceState \<Rightarrow> VM" where
  "stampShuttingDownAt now v target =
     (if target = StateShuttingDown \<and> vm_ShuttingDownAt v = None then v\<lparr>vm_ShuttingDownAt := Some now\<rparr> else v)"

text \<open>
  The guarded transition. \<open>transition\<close> is the wired \<open>Deps.TransitionState\<close>, if any; \<open>race\<close> is what
  other goroutines did to the instance between the precheck and the transition, \<open>race2\<close> between
  the transition and the look at its outcome.
\<close>

definition transitionWithPrecheck ::
  "(VM \<Rightarrow> InstanceState \<Rightarrow> go_error option \<times> VM) option \<Rightarrow> (VM \<Rightarrow> VM) \<Rightarrow> (VM \<Rightarrow> VM) \<Rightarrow> int \<Rightarrow>
   VM \<Rightarrow> InstanceState \<Rightarrow> go_error option \<times> VM" where
  "transitionWithPrecheck transition race race2 now v target =
     (let current = vm_Status v in
      if \<not> IsValidTransition current target then (Some (invalid_transition current target v []), v)
      else
        (case transition of
           None \<Rightarrow> (None, stampShuttingDownAt now ((race v)\<lparr>vm_Status := target\<rparr>) target)
         | Some step \<Rightarrow>
             (case step (race v) target of
                (Some err, v1) \<Rightarrow>
                  (let v2 = race2 v1 in
                   if vm_Status v2 \<noteq> target then (Some (invalid_transition current target v2 '' (raced)''), v2)
                   else (Some err, stampShuttingDownAt now v2 target))
              | (None, v1) \<Rightarrow> (None, stampShuttingDownAt now (race2 v1) target))))"

section \<open>Crash recovery\<close>

definition second :: int where "second = 1000000000"
definition MaxRestartsInWindow :: int where "MaxRestartsInWindow = 3"
definition RestartWindow :: int where "RestartWindow = 10 * 60 * second"
definition restartBackoffBase :: int where "restartBackoffBase = 5 * second"
definition restartBackoffMax :: int where "restartBackoffMax = 2 * 60 * second"

primrec backoff_from :: "nat \<Rightarrow> int \<Rightarrow> int" where
  "backoff_from 0 delay = delay"
| "backoff_from (Suc n) delay =
     (if delay * 2 > restartBackoffMax then restartBackoffMax else backoff_from n (delay * 2))"

text \<open>Ranging over a negative count runs the loop no times, as \<open>nat\<close> does.\<close>

definition RestartBackoff :: "int \<Rightarrow> int" where
  "RestartBackoff restartCount = backoff_from (nat restartCount) restartBackoffBase"

definition recordCrash :: "string \<Rightarrow> int \<Rightarrow> VM \<Rightarrow> VM" where
  "recordCrash reason now v =
     v\<lparr>vm_Health := (vm_Health v)\<lparr>CrashCount := CrashCount (vm_Health v) + 1, LastCrashTime := Some now,
         LastCrashReason := reason,
         FirstCrashTime := (if FirstCrashTime (vm_Health v) = None then Some now else FirstCrashTime (vm_Health v))\<rparr>\<rparr>"

definition rollRestartWindow :: "int \<Rightarrow> VM \<Rightarrow> bool \<times> VM" where
  "rollRestartWindow now v =
     (let h = vm_Health v;
          h' = (case FirstCrashTime h of
                  Some t \<Rightarrow> if now - t > RestartWindow
                            then h\<lparr>CrashCount := 1, FirstCrashTime := Some now, RestartCount := 0\<rparr> else h
                | None \<Rightarrow> h)
      in (CrashCount h' \<le> MaxRestartsInWindow, v\<lparr>vm_Health := h'\<rparr>))"

text \<open>What \<open>cmd.Wait\<close> reported: no error, an error that is no exit status, a status without the
  system's wait status, a signal, an exit code, or a status that is neither.\<close>

datatype wait_error = NoWaitError | NotExitError | NoWaitStatus | Signaled nat | Exited nat | StoppedStatus

definition ClassifyCrashReason :: "wait_error \<Rightarrow> string" where
  "ClassifyCrashReason e = (case e of
     NoWaitError \<Rightarrow> ''clean-exit''
   | Signaled s \<Rightarrow> (if s = 9 then ''oom-killed'' else if s = 11 then ''segfault'' else if s = 6 then ''abort''
                   else ''signal-'' @ go_itoa s)
   | Exited c \<Rightarrow> ''exit-'' @ go_itoa c
   | _ \<Rightarrow> ''unknown'')"

text \<open>
  The crash path acts on one instance the manager handed out. \<open>UpdateState\<close> reaches it only while
  the manager's map still holds it (\<open>listed\<close>). The collaborators' answers are given by
  \<open>CrashDeps\<close>; their calls are logged newest first.
\<close>

datatype crash_event =
    Deallocate string
  | ReleaseToReservation string string
  | AllocateType string
  | RemoveSocket string
  | UnmountVolumes
  | WriteRunningState
  | ScheduleRestart int
  | ReleaseGPU
  | RunGuest

record CrashDeps =
  cd_transition :: bool
  cd_write :: "go_error option"
  cd_shutdown :: bool
  cd_resources :: bool
  cd_types :: "(string \<Rightarrow> bool) option"
  cd_can_allocate :: "string \<Rightarrow> int"
  cd_allocate :: "go_error option"
  cd_mounter :: bool
  cd_cleaner :: bool

record crash_state =
  cr_vm :: VM
  cr_listed :: bool
  cr_log :: "crash_event list"

definition emit :: "crash_event \<Rightarrow> crash_state \<Rightarrow> crash_state" where
  "emit e s = s\<lparr>cr_log := e # cr_log s\<rparr>"

definition UpdateState :: "(VM \<Rightarrow> VM) \<Rightarrow> crash_state \<Rightarrow> crash_state" where
  "UpdateState f s = (if cr_listed s then s\<lparr>cr_vm := f (cr_vm s)\<rparr> else s)"

definition crash_transition :: "CrashDeps \<Rightarrow> InstanceState \<Rightarrow> crash_state \<Rightarrow> go_error option \<times> crash_state" where
  "crash_transition d target s =
     (if cd_transition d then
        (case TransitionState (cd_write d) (cr_vm s) target of (e, v) \<Rightarrow> (e, s\<lparr>cr_vm := v\<rparr>))
      else (None, s))"

definition deallocateResources :: "CrashDeps \<Rightarrow> crash_state \<Rightarrow> crash_state" where
  "deallocateResources d s =
     (if \<not> cd_resources d \<or> vm_InstanceType (cr_vm s) = [] then s
      else if vm_CapacityReservationId (cr_vm s) \<noteq> [] then
        emit (ReleaseToReservation (vm_CapacityReservationId (cr_vm s)) (vm_InstanceType (cr_vm s))) s
      else emit (Deallocate (vm_InstanceType (cr_vm s))) s)"

definition releaseGPUOnTerminalCrash :: "CrashDeps \<Rightarrow> crash_state \<Rightarrow> crash_state" where
  "releaseGPUOnTerminalCrash d s =
     (if \<not> cd_cleaner d then s
      else
        (let s1 = emit ReleaseGPU s in
         if vm_GPUAttachments (cr_vm s1) \<noteq> [] then UpdateState (\<lambda>v. v\<lparr>vm_GPUAttachments := []\<rparr>) s1 else s1))"

text \<open>An instance that is no longer listed keeps the zero values of the closure's variables: its
  window is not judged exceeded and its restart count reads 0.\<close>

definition MaybeRestart :: "CrashDeps \<Rightarrow> int \<Rightarrow> crash_state \<Rightarrow> crash_state" where
  "MaybeRestart d now s =
     (if cd_shutdown d then s
      else
        (let s1 = UpdateState (\<lambda>v. snd (rollRestartWindow now v)) s;
             exceeded = (cr_listed s \<and> \<not> fst (rollRestartWindow now (cr_vm s)));
             restartCount = (if cr_listed s then RestartCount (vm_Health (cr_vm s1)) else 0);
             ty = vm_InstanceType (cr_vm s1)
         in
         if exceeded then releaseGPUOnTerminalCrash d s1
         else if (case cd_types d of Some resolve \<Rightarrow> \<not> resolve ty | None \<Rightarrow> False) then releaseGPUOnTerminalCrash d s1
         else if cd_resources d \<and> cd_can_allocate d ty < 1 then releaseGPUOnTerminalCrash d s1
         else emit (ScheduleRestart (RestartBackoff restartCount)) s1))"

definition crash_cleanup :: "CrashDeps \<Rightarrow> int \<Rightarrow> wait_error \<Rightarrow> crash_state \<Rightarrow> crash_state" where
  "crash_cleanup d now waitErr s =
     (let reason = ClassifyCrashReason waitErr;
          s1 = snd (crash_transition d StateError s);
          s2 = UpdateState (recordCrash reason now) s1;
          s3 = deallocateResources d s2;
          s4 = (if vm_CapacityReservationId (cr_vm s3) \<noteq> []
                then UpdateState (\<lambda>v. v\<lparr>vm_CapacityReservationId := []\<rparr>) s3 else s3);
          s5 = (if vm_QMPSocket (cr_vm s4) \<noteq> [] then emit (RemoveSocket (vm_QMPSocket (cr_vm s4))) s4 else s4);
          s6 = (if cd_mounter d then emit UnmountVolumes s5 else s5)
      in emit WriteRunningState s6)"

definition HandleCrash :: "CrashDeps \<Rightarrow> int \<Rightarrow> wait_error \<Rightarrow> crash_state \<Rightarrow> crash_state" where
  "HandleCrash d now waitErr s =
     (if vm_Status (cr_vm s) \<noteq> StateRunning then s
      else if cd_shutdown d then s
      else MaybeRestart d now (crash_cleanup d now waitErr s))"

text \<open>\<open>run\<close> is what the relaunch returned, with what it made of the instance.\<close>

definition RestartCrashedInstance ::
  "CrashDeps \<Rightarrow> int \<Rightarrow> (VM \<Rightarrow> go_error option \<times> VM) \<Rightarrow> crash_state \<Rightarrow> crash_state" where
  "RestartCrashedInstance d now run s =
     (if cr_listed s \<and> (vm_Status (cr_vm s) \<noteq> StateError \<or> cd_shutdown d) then s
      else
        (let s1 = UpdateState (\<lambda>v. v\<lparr>vm_Health := (vm_Health v)\<lparr>RestartCount := RestartCount (vm_Health v) + 1\<rparr>,
                     vm_Instance := map_option (\<lambda>i. i\<lparr>ei_LaunchTime := Some now\<rparr>) (vm_Instance v)\<rparr>) s;
             ty = vm_InstanceType (cr_vm s1)
         in
         if \<not> cd_resources d then s1
         else if cd_allocate d \<noteq> None then s1
         else
           (let s2 = emit (AllocateType ty) s1 in
            case crash_transition d StatePending s2 of
              (Some e, s3) \<Rightarrow> deallocateResources d s3
            | (None, s3) \<Rightarrow>
                (case run (cr_vm s3) of
                   (None, v) \<Rightarrow> emit RunGuest (s3\<lparr>cr_vm := v\<rparr>)
                 | (Some e, v) \<Rightarrow>
                     releaseGPUOnTerminalCrash d
                       (snd (crash_transition d StateError
                         (emit (Deallocate (vm_InstanceType v)) (s3\<lparr>cr_vm := v\<rparr>))))))))"

section \<open>Life-cycle runs\<close>

text \<open>
  What the manager can do to an instance over time: guarded transitions, with other runs racing in
  between; the direct transitions of launch and crash recovery; crash handling; and restarts whose
  relaunch is itself such a run. All of them use the daemon's \<open>TransitionState\<close>.
\<close>

inductive vm_run :: "VM \<Rightarrow> VM \<Rightarrow> bool" where
  vm_idle: "vm_run v v"
| vm_guarded: "vm_run v u \<Longrightarrow> \<forall>x. vm_run x (race x) \<Longrightarrow> \<forall>x. vm_run x (race2 x) \<Longrightarrow>
    vm_run v (snd (transitionWithPrecheck (Some (TransitionState w)) race race2 now u target))"
| vm_direct: "vm_run v u \<Longrightarrow> target \<in> {StatePending, StateRunning, StateError} \<Longrightarrow>
    vm_run v (snd (TransitionState w u target))"
| vm_crash: "vm_run v u \<Longrightarrow> vm_run v (cr_vm (HandleCrash d now e \<lparr>cr_vm = u, cr_listed = l, cr_log = lg\<rparr>))"
| vm_restart: "vm_run v u \<Longrightarrow> \<forall>x. vm_run x (snd (run x)) \<Longrightarrow>
    vm_run v (cr_vm (RestartCrashedInstance d now run \<lparr>cr_vm = u, cr_listed = l, cr_log = lg\<rparr>))"

text \<open>\<open>evolves\<close> is what every such run respects: the status moves along the transition table, and
  the shutting-down stamp is never taken away and is there while the instance is shutting down.\<close>

definition status_moves :: "(InstanceState \<times> InstanceState) set" where
  "status_moves = {(a, b). IsValidTransition a b}"

definition stamped :: "VM \<Rightarrow> bool" where
  "stamped v \<longleftrightarrow> (vm_Status v = StateShuttingDown \<longrightarrow> vm_ShuttingDownAt v \<noteq> None)"

definition evolves :: "VM \<Rightarrow> VM \<Rightarrow> bool" where
  "evolves v v' \<longleftrightarrow> (vm_Status v, vm_Status v') \<in> status_moves\<^sup>* \<and> (stamped v \<longrightarrow> stamped v') \<and>
     (vm_ShuttingDownAt v \<noteq> None \<longrightarrow> vm_ShuttingDownAt v' = vm_ShuttingDownAt v)"

lemma evolves_refl [simp, intro]: "evolves v v"
  by (simp add: evolves_def)

lemma evolves_trans [trans]: "evolves u v \<Longrightarrow> evolves v w \<Longrightarrow> evolves u w"
  by (auto simp: evolves_def)

lemma IsValidTransition_cases:
  "IsValidTransition a b \<longleftrightarrow> (case ValidTransitions a of None \<Rightarrow> False | Some bs \<Rightarrow> b \<in> set bs)"
  by (simp add: IsValidTransition_def)

lemma terminated_is_final [simp]: "\<not> IsValidTransition StateTerminated b"
  by (simp add: IsValidTransition_def)

lemma to_terminated: "IsValidTransition a StateTerminated \<longleftrightarrow> a = StateShuttingDown"
  by (cases a) (simp_all add: IsValidTransition_def)

text \<open>A change of other fields is no evolution of the status or the stamp.\<close>

definition same_life :: "VM \<Rightarrow> VM \<Rightarrow> bool" where
  "same_life v v' \<longleftrightarrow> vm_Status v' = vm_Status v \<and> vm_ShuttingDownAt v' = vm_ShuttingDownAt v"

lemma same_life_evolves: "same_life v v' \<Longrightarrow> evolves v v'"
  by (simp add: same_life_def evolves_def stamped_def)

lemma TransitionState_evolves:
  assumes "target \<noteq> StateShuttingDown"
  shows "evolves v (snd (TransitionState w v target))"
  using assms by (auto simp: TransitionState_def evolves_def stamped_def status_moves_def)

lemma stamp_status [simp]: "vm_Status (stampShuttingDownAt now v t) = vm_Status v"
  by (simp add: stampShuttingDownAt_def)

lemma stamp_evolves: "evolves v (stampShuttingDownAt now v t)"
  by (simp add: evolves_def stamped_def stampShuttingDownAt_def)

lemma stamp_stamped: "t = StateShuttingDown \<Longrightarrow> stamped (stampShuttingDownAt now v t)"
  by (simp add: stamped_def stampShuttingDownAt_def)

lemma TransitionState_moves:
  "(vm_Status v, vm_Status (snd (TransitionState w v t))) \<in> status_moves\<^sup>*"
  "vm_ShuttingDownAt (snd (TransitionState w v t)) = vm_ShuttingDownAt v"
  by (auto simp: TransitionState_def status_moves_def)

lemma TransitionState_other:
  "fst (TransitionState w v t) \<noteq> None \<Longrightarrow>
     snd (TransitionState w v t) = v \<or> vm_Status (snd (TransitionState w v t)) = t"
  by (auto simp: TransitionState_def)

lemma guarded_evolves:
  assumes "\<And>x. evolves x (race x)" and "\<And>x. evolves x (race2 x)"
  shows "evolves v (snd (transitionWithPrecheck (Some (TransitionState w)) race race2 now v target))"
proof -
  obtain r v1 where step: "TransitionState w (race v) target = (r, v1)" by fastforce
  let ?v2 = "race2 v1"
  have m: "(vm_Status v, vm_Status ?v2) \<in> status_moves\<^sup>*"
    "vm_ShuttingDownAt v \<noteq> None \<longrightarrow> vm_ShuttingDownAt ?v2 = vm_ShuttingDownAt v"
    using assms(1) [of v] assms(2) [of v1] TransitionState_moves [where v = "race v" and w = w and t = target] step
    by (auto simp: evolves_def)
  have st: "stamped v \<Longrightarrow> vm_Status ?v2 \<noteq> target \<or> target \<noteq> StateShuttingDown \<Longrightarrow> stamped ?v2"
    using assms(1) [of v] assms(2) [of v1] TransitionState_evolves [where v = "race v" and w = w and target = target] step
    by (cases "target = StateShuttingDown") (auto simp: evolves_def stamped_def)
  have st2: "stamped v \<Longrightarrow> stamped (stampShuttingDownAt now ?v2 target)"
    using st stamp_evolves [of ?v2 now target] stamp_stamped [of target now ?v2] by (auto simp: evolves_def)
  have at: "vm_ShuttingDownAt v \<noteq> None \<longrightarrow> vm_ShuttingDownAt (stampShuttingDownAt now ?v2 target) = vm_ShuttingDownAt v"
    using m(2) by (auto simp: stampShuttingDownAt_def)
  show ?thesis
    using m st st2 at
    by (auto simp: transitionWithPrecheck_def Let_def step evolves_def split: option.split)
qed

text \<open>Crash handling and restarts as evolutions.\<close>

lemma emit_fields [simp]: "cr_vm (emit e s) = cr_vm s" "cr_listed (emit e s) = cr_listed s"
  "cr_log (emit e s) = e # cr_log s"
  by (simp_all add: emit_def)

lemma UpdateState_fields [simp]: "cr_listed (UpdateState f s) = cr_listed s" "cr_log (UpdateState f s) = cr_log s"
  by (simp_all add: UpdateState_def)

lemma UpdateState_same: "(\<And>v. same_life v (f v)) \<Longrightarrow> same_life (cr_vm s) (cr_vm (UpdateState f s))"
  by (simp add: UpdateState_def same_life_def)

lemma same_life_trans [trans]: "same_life u v \<Longrightarrow> same_life v w \<Longrightarrow> same_life u w"
  by (simp add: same_life_def)

lemma same_life_refl [simp, intro]: "same_life v v"
  by (simp add: same_life_def)

lemma recordCrash_same [simp]: "same_life v (recordCrash r now v)"
  by (simp add: recordCrash_def same_life_def)

lemma roll_same [simp]: "same_life v (snd (rollRestartWindow now v))"
  by (simp add: rollRestartWindow_def Let_def same_life_def)

lemma deallocate_vm [simp]: "cr_vm (deallocateResources d s) = cr_vm s" "cr_listed (deallocateResources d s) = cr_listed s"
  by (simp_all add: deallocateResources_def)

lemma releaseGPU_same: "same_life (cr_vm s) (cr_vm (releaseGPUOnTerminalCrash d s))"
  by (simp add: releaseGPUOnTerminalCrash_def Let_def UpdateState_def same_life_def)

lemma MaybeRestart_same: "same_life (cr_vm s) (cr_vm (MaybeRestart d now s))"
proof -
  let ?s1 = "UpdateState (\<lambda>v. snd (rollRestartWindow now v)) s"
  have "same_life (cr_vm s) (cr_vm ?s1)" by (rule UpdateState_same) simp
  with same_life_trans [OF this releaseGPU_same [of ?s1 d]] show ?thesis
    by (simp add: MaybeRestart_def Let_def split: option.split)
qed

lemma crash_transition_evolves:
  "t \<noteq> StateShuttingDown \<Longrightarrow> evolves (cr_vm s) (cr_vm (snd (crash_transition d t s)))"
  using TransitionState_evolves [of t "cr_vm s" "cd_write d"]
  by (auto simp: crash_transition_def split: prod.split)

lemma crash_transition_fields [simp]:
  "cr_listed (snd (crash_transition d t s)) = cr_listed s" "cr_log (snd (crash_transition d t s)) = cr_log s"
  "vm_Health (cr_vm (snd (crash_transition d t s))) = vm_Health (cr_vm s)"
  by (simp_all add: crash_transition_def TransitionState_def split: prod.split)

lemma crash_cleanup_same:
  "same_life (cr_vm (snd (crash_transition d StateError s))) (cr_vm (crash_cleanup d now e s))"
  by (simp add: crash_cleanup_def Let_def UpdateState_def same_life_def recordCrash_def)

lemma HandleCrash_evolves: "evolves (cr_vm s) (cr_vm (HandleCrash d now e s))"
  using evolves_trans [OF crash_transition_evolves [of StateError s d]
      same_life_evolves [OF same_life_trans [OF crash_cleanup_same MaybeRestart_same]]]
  by (simp add: HandleCrash_def)

lemma RestartCrashedInstance_evolves:
  assumes "\<And>x. evolves x (snd (run x))"
  shows "evolves (cr_vm s) (cr_vm (RestartCrashedInstance d now run s))"
proof -
  let ?f = "\<lambda>v :: VM. v\<lparr>vm_Health := (vm_Health v)\<lparr>RestartCount := RestartCount (vm_Health v) + 1\<rparr>,
    vm_Instance := map_option (\<lambda>i. i\<lparr>ei_LaunchTime := Some now\<rparr>) (vm_Instance v)\<rparr>"
  let ?s1 = "UpdateState ?f s"
  let ?s2 = "emit (AllocateType (vm_InstanceType (cr_vm ?s1))) ?s1"
  have 1: "evolves (cr_vm s) (cr_vm ?s1)"
    by (rule same_life_evolves, rule UpdateState_same) (simp add: same_life_def)
  obtain r s3 where tr: "crash_transition d StatePending ?s2 = (r, s3)" by fastforce
  have 3: "evolves (cr_vm s) (cr_vm s3)"
    using evolves_trans [OF 1] crash_transition_evolves [of StatePending ?s2 d] tr by simp
  have 4: "evolves (cr_vm s) (snd (run (cr_vm s3)))"
    using evolves_trans [OF 3 assms] .
  have 5: "evolves (cr_vm s) (cr_vm (releaseGPUOnTerminalCrash d (snd (crash_transition d StateError s4))))"
    if "cr_vm s4 = snd (run (cr_vm s3))" for s4
    using evolves_trans [OF evolves_trans [OF 4] same_life_evolves [OF releaseGPU_same]]
      crash_transition_evolves [of StateError s4 d] that by simp
  obtain q v where "run (cr_vm s3) = (q, v)" by fastforce
  with 1 3 4 5 show ?thesis
    by (simp add: RestartCrashedInstance_def Let_def tr split: option.split)
qed

lemma vm_run_evolves: "vm_run v v' \<Longrightarrow> evolves v v'"
proof (induction rule: vm_run.induct)
  case (vm_guarded v u race race2 w now target)
  then show ?case using evolves_trans [OF vm_guarded.IH(1) guarded_evolves [of race race2]] by blast
next
  case (vm_direct v u target w)
  then show ?case
    using evolves_trans [OF vm_direct.IH TransitionState_evolves [where v = u and w = w and target = target]] by auto
next
  case (vm_crash v u d now e l lg)
  then show ?case
    using evolves_trans [OF vm_crash.IH] HandleCrash_evolves [of "\<lparr>cr_vm = u, cr_listed = l, cr_log = lg\<rparr>" d now e] by simp
next
  case (vm_restart v u run d now l lg)
  then show ?case
    using evolves_trans [OF vm_restart.IH(1)]
      RestartCrashedInstance_evolves [of run "\<lparr>cr_vm = u, cr_listed = l, cr_log = lg\<rparr>" d now] by auto
qed simp

end
