(* ===== verification/VmState_Claims.thy ===== *)
theory VmState_Claims
  imports VmState
begin

text \<open>
  Properties of the instance life cycle: the transition table is respected by every run, crash
  recovery is bounded in number and in delay, and it gives capacity back exactly once.
\<close>

section \<open>Life cycle\<close>


definition demo_vm :: VM where
  "demo_vm = \<lparr>vm_ID = ''i-1'', vm_Status = StatePending, vm_InstanceType = ''t3.micro'', vm_AccountID = ''1'',
     vm_DirectBoot = False, vm_EBSRequests = [], vm_Instance = None,
     vm_Health = \<lparr>CrashCount = 0, LastCrashTime = None, LastCrashReason = [], RestartCount = 0, FirstCrashTime = None\<rparr>,
     vm_CapacityReservationId = [], vm_GPUAttachments = [], vm_QMPSocket = [], vm_ShuttingDownAt = None\<rparr>"

lemma demo_run:
  "vm_run demo_vm (demo_vm\<lparr>vm_Status := StateShuttingDown, vm_ShuttingDownAt := Some 7\<rparr>)"
proof -
  have "vm_run demo_vm (snd (TransitionState None demo_vm StateRunning))"
    by (rule vm_direct [OF vm_idle]) simp
  then have "vm_run demo_vm (snd (transitionWithPrecheck (Some (TransitionState None)) (\<lambda>x. x) (\<lambda>x. x) 7
    (snd (TransitionState None demo_vm StateRunning)) StateShuttingDown))"
    by (rule vm_guarded) (simp_all add: vm_idle)
  then show ?thesis
    by (simp add: TransitionState_def transitionWithPrecheck_def IsValidTransition_def demo_vm_def
        stampShuttingDownAt_def Let_def)
qed


section \<open>Restart delay and budget\<close>

lemma backoff_from_min:
  assumes "0 \<le> delay" and "delay \<le> restartBackoffMax"
  shows "backoff_from n delay = min (delay * 2 ^ n) restartBackoffMax"
  using assms
proof (induction n arbitrary: delay)
  case (Suc n)
  show ?case
  proof (cases "delay * 2 > restartBackoffMax")
    case True
    have "delay * 2 * 1 \<le> delay * 2 * 2 ^ n" using Suc.prems(1) by (intro mult_left_mono) simp_all
    with True show ?thesis by (simp add: mult.assoc)
  next
    case False
    then show ?thesis using Suc.IH [of "delay * 2"] Suc.prems by (simp add: mult.assoc)
  qed
qed simp

text \<open>
  The restart delay is exponential with a cap: for every restart count it is five seconds doubled
  that many times, or two minutes where that is less, a negative count being read as none.
\<close>

theorem RestartBackoff_capped_exponential:
  "RestartBackoff n = min (restartBackoffBase * 2 ^ nat n) restartBackoffMax"
  unfolding RestartBackoff_def
  by (rule backoff_from_min) (simp_all add: restartBackoffBase_def restartBackoffMax_def second_def)

text \<open>A crash loop: each crash hits the instance running again after its last relaunch.\<close>

definition relaunched :: "crash_state \<Rightarrow> crash_state" where
  "relaunched s = s\<lparr>cr_vm := (cr_vm s)\<lparr>vm_Status := StateRunning\<rparr>\<rparr>"

fun crash_loop :: "CrashDeps \<Rightarrow> (int \<times> wait_error) list \<Rightarrow> crash_state \<Rightarrow> crash_state" where
  "crash_loop d [] s = s"
| "crash_loop d ((t, e) # cs) s = crash_loop d cs (HandleCrash d t e (relaunched s))"

definition scheduled :: "crash_state \<Rightarrow> nat" where
  "scheduled s = length [e \<leftarrow> cr_log s. \<exists>t. e = ScheduleRestart t]"

lemma scheduled_emit [simp]:
  "scheduled (emit e s) = scheduled s + (case e of ScheduleRestart t \<Rightarrow> 1 | _ \<Rightarrow> 0)"
  by (simp add: scheduled_def split: crash_event.split)

lemma scheduled_vm [simp]: "scheduled (s\<lparr>cr_vm := v\<rparr>) = scheduled s" "scheduled (UpdateState f s) = scheduled s"
  by (simp_all add: scheduled_def)

lemma releaseGPU_scheduled [simp]: "scheduled (releaseGPUOnTerminalCrash d s) = scheduled s"
  by (simp add: releaseGPUOnTerminalCrash_def Let_def)

lemma relaunched_scheduled [simp]: "scheduled (relaunched s) = scheduled s"
  by (simp add: relaunched_def)

lemma releaseGPU_health [simp]: "vm_Health (cr_vm (releaseGPUOnTerminalCrash d s)) = vm_Health (cr_vm s)"
  "cr_listed (releaseGPUOnTerminalCrash d s) = cr_listed s"
  by (simp_all add: releaseGPUOnTerminalCrash_def UpdateState_def Let_def)

lemma MaybeRestart_budget:
  assumes "cr_listed s"
  shows "scheduled (MaybeRestart d now s) \<le> scheduled s + (if fst (rollRestartWindow now (cr_vm s)) then 1 else 0)"
    and "vm_Health (cr_vm (MaybeRestart d now s)) =
      (if cd_shutdown d then vm_Health (cr_vm s) else vm_Health (snd (rollRestartWindow now (cr_vm s))))"
    and "cr_listed (MaybeRestart d now s)"
  using assms
  by (auto simp: MaybeRestart_def Let_def UpdateState_def split: option.split)

lemma crash_cleanup_fields [simp]: "cr_listed (crash_cleanup d now e s) = cr_listed s"
  "scheduled (crash_cleanup d now e s) = scheduled s"
  by (simp_all add: crash_cleanup_def Let_def deallocateResources_def scheduled_def)

lemma crash_cleanup_health:
  "cr_listed s \<Longrightarrow>
    vm_Health (cr_vm (crash_cleanup d now e s)) = vm_Health (recordCrash (ClassifyCrashReason e) now (cr_vm s))"
  by (simp add: crash_cleanup_def Let_def UpdateState_def recordCrash_def)

text \<open>Inside the window that began at \<open>t0\<close>, a crash counts one up and is answered by at most one
  restart, and by none once the count is past the limit.\<close>

definition window_open :: "int \<Rightarrow> int \<Rightarrow> InstanceHealthState \<Rightarrow> bool" where
  "window_open t0 n h \<longleftrightarrow> CrashCount h = n \<and> FirstCrashTime h = Some t0"

lemma roll_inside:
  assumes "window_open t0 n (vm_Health v)" and "now - t0 \<le> RestartWindow"
  shows "rollRestartWindow now v = (n \<le> MaxRestartsInWindow, v)"
  using assms by (simp add: rollRestartWindow_def window_open_def Let_def)

lemma HandleCrash_inside:
  assumes l: "cr_listed s" and st: "vm_Status (cr_vm s) = StateRunning" and live: "\<not> cd_shutdown d"
    and h: "window_open t0 n (vm_Health (recordCrash (ClassifyCrashReason e) now (cr_vm s)))"
    and w: "now - t0 \<le> RestartWindow"
  shows "cr_listed (HandleCrash d now e s) \<and> window_open t0 n (vm_Health (cr_vm (HandleCrash d now e s))) \<and>
    scheduled (HandleCrash d now e s) \<le> scheduled s + (if n \<le> MaxRestartsInWindow then 1 else 0)"
proof -
  let ?u = "crash_cleanup d now e s"
  have open_u: "window_open t0 n (vm_Health (cr_vm ?u))" using h crash_cleanup_health [OF l] by simp
  show ?thesis
    using MaybeRestart_budget [of ?u d now] roll_inside [OF open_u w] open_u live l st
    by (simp add: HandleCrash_def)
qed

lemma recordCrash_counts:
  "window_open t0 n (vm_Health v) \<Longrightarrow> window_open t0 (n + 1) (vm_Health (recordCrash r now v))"
  by (simp add: window_open_def recordCrash_def)

lemma crash_loop_inside:
  assumes "cr_listed s" and "\<not> cd_shutdown d" and "window_open t0 n (vm_Health (cr_vm s))" and "0 \<le> n"
    and "\<forall>(t, e) \<in> set cs. t - t0 \<le> RestartWindow"
  shows "scheduled (crash_loop d cs s) \<le> scheduled s + nat (MaxRestartsInWindow - n)"
  using assms
proof (induction cs arbitrary: s n)
  case (Cons c cs)
  obtain t e where c: "c = (t, e)" by fastforce
  let ?s = "HandleCrash d t e (relaunched s)"
  have h: "window_open t0 (n + 1) (vm_Health (recordCrash (ClassifyCrashReason e) t (cr_vm (relaunched s))))"
    using Cons.prems(3) by (intro recordCrash_counts) (simp add: relaunched_def)
  have one: "cr_listed ?s \<and> window_open t0 (n + 1) (vm_Health (cr_vm ?s)) \<and>
      scheduled ?s \<le> scheduled s + (if n + 1 \<le> MaxRestartsInWindow then 1 else 0)"
    using HandleCrash_inside [OF _ _ Cons.prems(2) h] Cons.prems(1,5) c by (simp add: relaunched_def)
  have "scheduled (crash_loop d cs ?s) \<le> scheduled ?s + nat (MaxRestartsInWindow - (n + 1))"
    using Cons.IH [of ?s "n + 1"] one Cons.prems by simp
  with one show ?case by (auto simp: c MaxRestartsInWindow_def split: if_splits)
qed simp


definition demo_deps :: CrashDeps where
  "demo_deps = \<lparr>cd_transition = True, cd_write = None, cd_shutdown = False, cd_resources = True, cd_types = None,
     cd_can_allocate = (\<lambda>t. 1), cd_allocate = None, cd_mounter = True, cd_cleaner = True\<rparr>"

definition demo_crash :: crash_state where
  "demo_crash = \<lparr>cr_vm = demo_vm, cr_listed = True, cr_log = []\<rparr>"


text \<open>
  The window is anchored at its first crash, not rolling: six crashes of which five fall within
  five seconds of each other are all answered by a restart, because the fourth is the first one more
  than ten minutes after the window began and starts the count anew.
\<close>

lemma restart_window_anchored:
  "scheduled (crash_loop demo_deps (map (\<lambda>t. (t * second, Exited 1)) [0, 598, 599, 601, 602, 603]) demo_crash) = 6"
  by (simp add: demo_deps_def demo_crash_def demo_vm_def relaunched_def HandleCrash_def crash_cleanup_def
      crash_transition_def TransitionState_def IsValidTransition_def UpdateState_def recordCrash_def
      deallocateResources_def MaybeRestart_def rollRestartWindow_def RestartWindow_def second_def
      MaxRestartsInWindow_def Let_def) (simp add: scheduled_def)

section \<open>Capacity\<close>

text \<open>Slots of the general pool taken less slots given back, over a log.\<close>

fun pool_balance :: "crash_event list \<Rightarrow> int" where
  "pool_balance [] = 0"
| "pool_balance (AllocateType t # l) = pool_balance l + 1"
| "pool_balance (Deallocate t # l) = pool_balance l - 1"
| "pool_balance (e # l) = pool_balance l"

lemma releaseGPU_balance [simp]: "pool_balance (cr_log (releaseGPUOnTerminalCrash d s)) = pool_balance (cr_log s)"
  by (simp add: releaseGPUOnTerminalCrash_def Let_def)

lemma releaseGPU_guest [simp]: "RunGuest \<in> set (cr_log (releaseGPUOnTerminalCrash d s)) \<longleftrightarrow> RunGuest \<in> set (cr_log s)"
  by (simp add: releaseGPUOnTerminalCrash_def Let_def)

text \<open>
  A restart takes capacity exactly when it starts the guest. For an instance with a type and no
  reservation, whatever the allocator, the state file and the relaunch answer, the slots a restart
  took from the general pool and did not give back are one if the guest was relaunched and none
  otherwise.
\<close>

theorem restart_capacity_balanced:
  assumes "vm_InstanceType (cr_vm s) \<noteq> []" and "vm_CapacityReservationId (cr_vm s) = []"
    and "RunGuest \<notin> set (cr_log s)"
  shows "pool_balance (cr_log (RestartCrashedInstance d now run s)) =
    pool_balance (cr_log s) + (if RunGuest \<in> set (cr_log (RestartCrashedInstance d now run s)) then 1 else 0)"
proof -
  let ?f = "\<lambda>v :: VM. v\<lparr>vm_Health := (vm_Health v)\<lparr>RestartCount := RestartCount (vm_Health v) + 1\<rparr>,
    vm_Instance := map_option (\<lambda>i. i\<lparr>ei_LaunchTime := Some now\<rparr>) (vm_Instance v)\<rparr>"
  let ?s1 = "UpdateState ?f s"
  let ?s2 = "emit (AllocateType (vm_InstanceType (cr_vm ?s1))) ?s1"
  have s1: "vm_InstanceType (cr_vm ?s1) = vm_InstanceType (cr_vm s)"
    "vm_CapacityReservationId (cr_vm ?s1) = []"
    using assms by (simp_all add: UpdateState_def)
  obtain r s3 where tr: "crash_transition d StatePending ?s2 = (r, s3)" by fastforce
  then have s3: "vm_InstanceType (cr_vm s3) \<noteq> []" "vm_CapacityReservationId (cr_vm s3) = []"
    "cr_log s3 = cr_log ?s2"
    using s1 assms(1) by (auto simp: crash_transition_def TransitionState_def split: prod.splits if_splits)
  obtain q v where "run (cr_vm s3) = (q, v)" by fastforce
  then show ?thesis
    using assms(3) s3
    by (cases r; cases q) (simp_all add: RestartCrashedInstance_def Let_def tr deallocateResources_def)
qed

theorem restart_capacity_balanced_example:
  "pool_balance (cr_log (RestartCrashedInstance demo_deps 5 (\<lambda>v. (Some (Text ''no kvm''), v))
     (demo_crash\<lparr>cr_vm := demo_vm\<lparr>vm_Status := StateError\<rparr>\<rparr>))) = 0"
  using restart_capacity_balanced [of "demo_crash\<lparr>cr_vm := demo_vm\<lparr>vm_Status := StateError\<rparr>\<rparr>" demo_deps 5
    "\<lambda>v. (Some (Text ''no kvm''), v)"]
  by (simp add: demo_crash_def demo_vm_def demo_deps_def RestartCrashedInstance_def Let_def UpdateState_def
      crash_transition_def TransitionState_def IsValidTransition_def)

text \<open>
  When persisting the pending status fails, the restart gives its capacity back and returns, but the
  instance stays pending in memory with no guest.
\<close>

lemma restart_write_failure_strands:
  "let s = RestartCrashedInstance (demo_deps\<lparr>cd_write := Some (Text ''disk full'')\<rparr>) 5 (\<lambda>v. (None, v))
             (demo_crash\<lparr>cr_vm := demo_vm\<lparr>vm_Status := StateError\<rparr>\<rparr>)
   in vm_Status (cr_vm s) = StatePending \<and> pool_balance (cr_log s) = 0 \<and> RunGuest \<notin> set (cr_log s)"
  by (simp add: demo_crash_def demo_vm_def demo_deps_def RestartCrashedInstance_def Let_def UpdateState_def
      crash_transition_def TransitionState_def IsValidTransition_def deallocateResources_def)

end
