(* ===== verification/VmVolumes.thy ===== *)
theory VmVolumes
  imports VmState "HOL-Library.Multiset"
begin

text \<open>
  Volumes of a running instance: guest device names (\<open>vm/device_map.go\<close>), the classification of a
  volume's export (\<open>vm/ebs_requests.go\<close>), the block-graph names (\<open>vm/devices.go\<close>), and the hot-plug
  pipelines \<open>AttachVolume\<close> and \<open>DetachVolume\<close> with their rollbacks (\<open>vm/volumes.go\<close>).

  QEMU, the volume mounter and the metadata service answer through a \<open>VolEnv\<close>: an answer may depend
  on everything that happened before, given as the log of calls with their outcomes, newest first.
  Quantifying over the environment covers every behaviour of the collaborators.
\<close>

section \<open>Guest device names\<close>

record BlockDevice =
  bd_Device :: string
  bd_QDev :: string
  bd_NodeName :: "string option"

text \<open>
  \<open>FindStringSubmatch\<close> for the patterns \<open>device\[(\d+)\]\<close> and \<open>hotplug-ebs(\d+)\<close>: the leftmost place
  where the literal is followed by digits, all of them, and then by the closing literal.
\<close>

definition number_at :: "string \<Rightarrow> string \<Rightarrow> string \<Rightarrow> string option" where
  "number_at lit close s =
     (if go_has_prefix s lit then
        (let rest = drop (length lit) s; ds = takeWhile is_digit rest in
         if ds \<noteq> [] \<and> go_has_prefix (drop (length ds) rest) close then Some ds else None)
      else None)"

fun find_number :: "string \<Rightarrow> string \<Rightarrow> string \<Rightarrow> string option" where
  "find_number lit close [] = number_at lit close []"
| "find_number lit close (c # cs) =
     (case number_at lit close (c # cs) of Some ds \<Rightarrow> Some ds | None \<Rightarrow> find_number lit close cs)"

definition matched_index :: "string option \<Rightarrow> int" where
  "matched_index m = (case m of
     None \<Rightarrow> - 1
   | Some ds \<Rightarrow> (case go_atoi ds of None \<Rightarrow> - 1 | Some i \<Rightarrow> i))"

definition extractPCIIndex :: "string \<Rightarrow> int" where
  "extractPCIIndex qdev = matched_index (find_number ''device['' '']'' qdev)"

definition extractHotplugPort :: "string \<Rightarrow> int" where
  "extractHotplugPort qdev = matched_index (find_number ''hotplug-ebs'' [] qdev)"

definition extractPeripheralName :: "string \<Rightarrow> string" where
  "extractPeripheralName qdev =
     (let prefix = ''/machine/peripheral/'' in
      if \<not> go_has_prefix qdev prefix then []
      else
        (let rest = drop (length prefix) qdev; name = takeWhile (\<lambda>c. c \<noteq> CHR ''/'') rest in
         if length name < length rest then name else []))"

record deviceEntry =
  de_name :: string
  de_pciIndex :: int

definition device_entry :: "BlockDevice \<Rightarrow> deviceEntry option" where
  "device_entry dev =
     (if bd_QDev dev = [] \<or> \<not> go_contains (bd_QDev dev) ''virtio-backend'' then None
      else
        (let pciIndex = extractPCIIndex (bd_QDev dev);
             name = (if bd_Device dev = [] \<and> pciIndex \<ge> 0
                     then (case bd_NodeName dev of Some n \<Rightarrow> n | None \<Rightarrow> bd_Device dev) else bd_Device dev)
         in
         if pciIndex < 0 then
           (let name' = (if name = [] then extractPeripheralName (bd_QDev dev) else name);
                port = extractHotplugPort (bd_QDev dev)
            in if name' = [] then None
               else Some \<lparr>de_name = name', de_pciIndex = (if port < 0 then 1000 else port)\<rparr>)
         else Some \<lparr>de_name = name, de_pciIndex = pciIndex\<rparr>))"

text \<open>
  \<open>sort.Slice\<close> is not stable: which of two entries with the same index comes first is not
  specified, so the sort is a parameter \<open>order\<close> with the library's promise.
\<close>

definition sorts_entries :: "(deviceEntry list \<Rightarrow> deviceEntry list) \<Rightarrow> bool" where
  "sorts_entries order \<longleftrightarrow> (\<forall>es. mset (order es) = mset es \<and> sorted (map de_pciIndex (order es)))"

definition guest_path :: "nat \<Rightarrow> string" where
  "guest_path i = ''/dev/vd'' @ [char_of (97 + i)]"

fun name_devices :: "nat \<Rightarrow> deviceEntry list \<Rightarrow> (string \<rightharpoonup> string) \<Rightarrow> (string \<rightharpoonup> string)" where
  "name_devices i [] result = result"
| "name_devices i (e # es) result =
     (if i \<ge> 26 then result else name_devices (Suc i) es (result(de_name e \<mapsto> guest_path i)))"

definition buildDeviceMap :: "(deviceEntry list \<Rightarrow> deviceEntry list) \<Rightarrow> BlockDevice list \<Rightarrow> (string \<rightharpoonup> string)" where
  "buildDeviceMap order devices = name_devices 0 (order (List.map_filter device_entry devices)) Map.empty"

section \<open>Device slots\<close>

definition device_name :: "char \<Rightarrow> string" where
  "device_name c = ''/dev/sd'' @ [c]"

definition used_devices :: "VM \<Rightarrow> string set" where
  "used_devices v =
     (case vm_Instance v of None \<Rightarrow> {}
      | Some i \<Rightarrow> set (List.map_filter bdm_DeviceName (ei_BlockDeviceMappings i)))
     \<union> set [rq_DeviceName r. r \<leftarrow> vm_EBSRequests v, rq_DeviceName r \<noteq> []]"

definition device_letters :: string where "device_letters = ''fghijklmnop''"

definition nextAvailableDevice :: "VM \<Rightarrow> string" where
  "nextAvailableDevice v =
     (case find (\<lambda>c. device_name c \<notin> used_devices v) device_letters of Some c \<Rightarrow> device_name c | None \<Rightarrow> [])"

definition EBSHotPlugSlotCount :: int where "EBSHotPlugSlotCount = 11"

definition freeHotplugEBSPort :: "EBSRequest list \<Rightarrow> int" where
  "freeHotplugEBSPort reqs =
     (case find (\<lambda>p. p \<notin> set [rq_HotplugPort r. r \<leftarrow> reqs, rq_HotplugPort r > 0]) [1..EBSHotPlugSlotCount] of
        Some p \<Rightarrow> p | None \<Rightarrow> 0)"

section \<open>Exports\<close>

text \<open>The invalid kind is always returned with an error. Error texts leave the quoted path out.\<close>

datatype volumeExportKind = volumeExportNBD | volumeExportBlock

definition classifyVolumeExport :: "EBSRequest \<Rightarrow> volumeExportKind result" where
  "classifyVolumeExport req =
     (if rq_NBDURI req \<noteq> [] \<and> rq_BlockDevice req \<noteq> [] then
        Inl (Text (''volume '' @ rq_Name req @ '' has both NBDURI and BlockDevice set''))
      else if rq_BlockSizeBytes req \<noteq> 0 \<and> rq_BlockDevice req = [] then
        Inl (Text (''volume '' @ rq_Name req @ '' has BlockSizeBytes set without BlockDevice''))
      else if rq_NBDURI req \<noteq> [] then Inr volumeExportNBD
      else if rq_BlockDevice req \<noteq> [] then
        (if hd (rq_BlockDevice req) \<noteq> CHR ''/'' then
           Inl (Text (''volume '' @ rq_Name req @ '' BlockDevice is not an absolute path''))
         else if CHR '','' \<in> set (rq_BlockDevice req) then
           Inl (Text (''volume '' @ rq_Name req @ '' BlockDevice contains a comma''))
         else if rq_BlockSizeBytes req = 0 then
           Inl (Text (''volume '' @ rq_Name req @ '' BlockDevice has zero BlockSizeBytes''))
         else Inr volumeExportBlock)
      else Inl (Text (''NBDURI not set for volume '' @ rq_Name req @ '' - was volume mounted?'')))"

section \<open>Block-graph names\<close>

datatype json = JStr string | JInt int | JBool bool | JObj "(string \<times> json) list"

definition VolumeNodeName :: "string \<Rightarrow> string" where "VolumeNodeName volumeID = ''nbd-'' @ volumeID"
definition VolumeDeviceID :: "string \<Rightarrow> string" where "VolumeDeviceID volumeID = ''vdisk-'' @ volumeID"
definition VolumeIOThreadID :: "string \<Rightarrow> string" where "VolumeIOThreadID volumeID = ''ioth-'' @ volumeID"
definition VolumeSerial :: "string \<Rightarrow> string" where "VolumeSerial volumeID = filter (\<lambda>c. c \<noteq> CHR ''-'') volumeID"
definition HotplugEBSBus :: "int \<Rightarrow> string" where "HotplugEBSBus port = ''hotplug-ebs'' @ go_itoa (nat port)"
definition NBDReconnectDelaySeconds :: int where "NBDReconnectDelaySeconds = 30"

definition VolumeBlkDeviceQMPArgs :: "string \<Rightarrow> string \<Rightarrow> string \<Rightarrow> string \<Rightarrow> (string \<times> json) list" where
  "VolumeBlkDeviceQMPArgs volumeID nodeName iothreadID bus =
     [(''driver'', JStr ''virtio-blk-pci''), (''id'', JStr (VolumeDeviceID volumeID)), (''drive'', JStr nodeName),
      (''iothread'', JStr iothreadID), (''serial'', JStr (VolumeSerial volumeID)), (''bus'', JStr bus),
      (''werror'', JStr ''stop''), (''rerror'', JStr ''stop'')]"

definition host_device_args :: "string \<Rightarrow> nat \<Rightarrow> string \<Rightarrow> (string \<times> json) list" where
  "host_device_args path bytes nodeName =
     [(''node-name'', JStr nodeName), (''driver'', JStr ''raw''), (''size'', JInt (int bytes)),
      (''file'', JObj [(''driver'', JStr ''host_device''), (''filename'', JStr path), (''aio'', JStr ''native''),
                       (''cache'', JObj [(''direct'', JBool True)])])]"

definition nbd_args :: "json \<Rightarrow> string \<Rightarrow> (string \<times> json) list" where
  "nbd_args server nodeName =
     [(''node-name'', JStr nodeName), (''driver'', JStr ''nbd''), (''server'', server), (''export'', JStr []),
      (''read-only'', JBool False), (''reconnect-delay'', JInt NBDReconnectDelaySeconds)]"

section \<open>Collaborators\<close>

record QMPCommand =
  qc_Execute :: string
  qc_Arguments :: "(string \<times> json) list"

datatype vevent =
    EvQMP QMPCommand "go_error option"
  | EvMount string EBSRequest "go_error option"
  | EvUnmount string EBSRequest "go_error option"
  | EvVolumeState string string string string string "go_error option"
  | EvWriteState "go_error option"
  | EvQemuDead string bool
  | EvWaitDeleted string "go_error option"
  | EvSleep int

type_synonym vlog = "vevent list"

text \<open>
  \<open>ve_qmp\<close> is \<open>sendQMPCommand\<close> on the instance's client, its reply the raw return value; \<open>ve_decode\<close>
  decodes the reply of \<open>query-block\<close>; \<open>ve_nbd\<close> parses an NBD URI into the server argument;
  \<open>ve_mount\<close> writes the export it resolved back into the request.
\<close>

record VolEnv =
  ve_qmp :: "vlog \<Rightarrow> QMPCommand \<Rightarrow> string result"
  ve_decode :: "string \<Rightarrow> BlockDevice list result"
  ve_order :: "deviceEntry list \<Rightarrow> deviceEntry list"
  ve_nbd :: "string \<Rightarrow> json result"
  ve_mounter :: bool
  ve_mount :: "vlog \<Rightarrow> string \<Rightarrow> EBSRequest \<Rightarrow> go_error option \<times> EBSRequest"
  ve_unmount :: "vlog \<Rightarrow> string \<Rightarrow> EBSRequest \<Rightarrow> go_error option"
  ve_updater :: bool
  ve_update :: "vlog \<Rightarrow> string \<Rightarrow> string \<Rightarrow> string \<Rightarrow> string \<Rightarrow> string \<Rightarrow> go_error option"
  ve_store :: bool
  ve_write :: "vlog \<Rightarrow> go_error option"
  ve_dead :: "vlog \<Rightarrow> string \<Rightarrow> bool"
  ve_wait :: "vlog \<Rightarrow> string \<Rightarrow> go_error option"
  ve_DetachDelay :: int
  ve_DeviceDeletedTimeout :: int

definition error_of :: "'a result \<Rightarrow> go_error option" where
  "error_of r = (case r of Inl e \<Rightarrow> Some e | Inr x \<Rightarrow> None)"

definition send :: "VolEnv \<Rightarrow> string \<Rightarrow> (string \<times> json) list \<Rightarrow> vlog \<Rightarrow> string result \<times> vlog" where
  "send env execute arguments tr =
     (let cmd = \<lparr>qc_Execute = execute, qc_Arguments = arguments\<rparr>; r = ve_qmp env tr cmd
      in (r, EvQMP cmd (error_of r) # tr))"

definition unmount_one :: "VolEnv \<Rightarrow> string \<Rightarrow> EBSRequest \<Rightarrow> vlog \<Rightarrow> go_error option \<times> vlog" where
  "unmount_one env account req tr =
     (let e = ve_unmount env tr account req in (e, EvUnmount account req e # tr))"

definition update_volume_state ::
  "VolEnv \<Rightarrow> string \<Rightarrow> string \<Rightarrow> string \<Rightarrow> string \<Rightarrow> string \<Rightarrow> vlog \<Rightarrow> go_error option \<times> vlog" where
  "update_volume_state env account vol st inst dev tr =
     (let e = ve_update env tr account vol st inst dev in (e, EvVolumeState account vol st inst dev e # tr))"

definition writeRunningState :: "VolEnv \<Rightarrow> vlog \<Rightarrow> go_error option \<times> vlog" where
  "writeRunningState env tr =
     (if \<not> ve_store env then (None, tr) else (let e = ve_write env tr in (e, EvWriteState e # tr)))"

section \<open>Querying the guest\<close>

definition queryGuestDeviceMap :: "VolEnv \<Rightarrow> vlog \<Rightarrow> (string \<rightharpoonup> string) result \<times> vlog" where
  "queryGuestDeviceMap env tr =
     (case send env ''query-block'' [] tr of
        (Inl err, tr1) \<Rightarrow> (Inl (Wrapped ''query-block failed: '' [err] []), tr1)
      | (Inr resp, tr1) \<Rightarrow>
          (case ve_decode env resp of
             Inl err \<Rightarrow> (Inl (Wrapped ''failed to parse query-block response: '' [err] []), tr1)
           | Inr devices \<Rightarrow> (Inr (buildDeviceMap (ve_order env) devices), tr1)))"

definition deviceMapRetryDelay :: int where "deviceMapRetryDelay = 200 * 1000000"

text \<open>\<open>n\<close> attempts are left before the last look, which is returned as it is.\<close>

fun query_wait :: "VolEnv \<Rightarrow> string \<Rightarrow> nat \<Rightarrow> vlog \<Rightarrow> (string \<rightharpoonup> string) result \<times> vlog" where
  "query_wait env expected 0 tr = queryGuestDeviceMap env tr"
| "query_wait env expected (Suc n) tr =
     (case queryGuestDeviceMap env tr of
        (Inl err, tr1) \<Rightarrow> (Inl err, tr1)
      | (Inr deviceMap, tr1) \<Rightarrow>
          if deviceMap expected \<noteq> None then (Inr deviceMap, tr1)
          else query_wait env expected n (if n > 0 then EvSleep deviceMapRetryDelay # tr1 else tr1))"

definition queryGuestDeviceMapWait :: "VolEnv \<Rightarrow> string \<Rightarrow> vlog \<Rightarrow> (string \<rightharpoonup> string) result \<times> vlog" where
  "queryGuestDeviceMapWait env expected tr = query_wait env expected 5 tr"

section \<open>Attaching\<close>

definition ErrInstanceNotFound :: string where "ErrInstanceNotFound = ''instance not found''"
definition ErrHotAttachUnsupported :: string where
  "ErrHotAttachUnsupported = ''volume hot-attach is not supported on a direct-boot microvm''"
definition ErrAttachmentLimitExceeded :: string where "ErrAttachmentLimitExceeded = ''attachment limit exceeded''"
definition ErrMountAmbiguous :: string where "ErrMountAmbiguous = ''publish reply carried no usable export''"
definition ErrVolumeNotAttached :: string where "ErrVolumeNotAttached = ''volume not attached to instance''"
definition ErrVolumeNotDetachable :: string where "ErrVolumeNotDetachable = ''volume cannot be detached''"
definition ErrVolumeDeviceMismatch :: string where "ErrVolumeDeviceMismatch = ''volume device name mismatch''"

definition rollbackUnmount :: "VolEnv \<Rightarrow> string \<Rightarrow> EBSRequest \<Rightarrow> vlog \<Rightarrow> go_error option \<times> vlog" where
  "rollbackUnmount env account req tr =
     (if \<not> ve_mounter env then (None, tr) else unmount_one env account req tr)"

definition delIothreadBestEffort :: "VolEnv \<Rightarrow> string \<Rightarrow> vlog \<Rightarrow> vlog" where
  "delIothreadBestEffort env iothreadID tr = snd (send env ''object-del'' [(''id'', JStr iothreadID)] tr)"

definition blockdev_del :: "VolEnv \<Rightarrow> string \<Rightarrow> vlog \<Rightarrow> string result \<times> vlog" where
  "blockdev_del env nodeName tr = send env ''blockdev-del'' [(''node-name'', JStr nodeName)] tr"

definition rollbackHotAttach ::
  "VolEnv \<Rightarrow> string \<Rightarrow> EBSRequest \<Rightarrow> string \<Rightarrow> string \<Rightarrow> vlog \<Rightarrow> bool \<times> vlog" where
  "rollbackHotAttach env account req nodeName iothreadID tr =
     (case blockdev_del env nodeName tr of
        (Inl err, tr1) \<Rightarrow> (False, tr1)
      | (Inr r, tr1) \<Rightarrow>
          (case rollbackUnmount env account req (delIothreadBestEffort env iothreadID tr1) of
             (e, tr2) \<Rightarrow> (e = None, tr2)))"

definition blockdev_args :: "VolEnv \<Rightarrow> EBSRequest \<Rightarrow> string \<Rightarrow> (string \<times> json) list result" where
  "blockdev_args env req nodeName =
     (case classifyVolumeExport req of
        Inl err \<Rightarrow> Inl (Wrapped ''volume export: '' [err] [])
      | Inr volumeExportBlock \<Rightarrow> Inr (host_device_args (rq_BlockDevice req) (rq_BlockSizeBytes req) nodeName)
      | Inr volumeExportNBD \<Rightarrow>
          (case ve_nbd env (rq_NBDURI req) of
             Inl err \<Rightarrow> Inl (Wrapped ''parse NBDURI: '' [err] [])
           | Inr server \<Rightarrow> Inr (nbd_args server nodeName)))"

text \<open>The hot-plug itself: iothread, block node, routing state, guest device, each failure undoing
  what came before it.\<close>

definition attach_plug ::
  "VolEnv \<Rightarrow> VM \<Rightarrow> string \<Rightarrow> string \<Rightarrow> EBSRequest \<Rightarrow> (string \<times> json) list \<Rightarrow> vlog \<Rightarrow> go_error option \<times> vlog" where
  "attach_plug env v volumeID device req args tr =
     (let account = vm_AccountID v; nodeName = VolumeNodeName volumeID; iothreadID = VolumeIOThreadID volumeID in
      case send env ''object-add'' [(''qom-type'', JStr ''iothread''), (''id'', JStr iothreadID)] tr of
        (Inl err, tr1) \<Rightarrow>
          (Some (Wrapped ''QMP object-add iothread: '' [err] []), snd (rollbackUnmount env account req tr1))
      | (Inr r1, tr1) \<Rightarrow>
      (case send env ''blockdev-add'' args tr1 of
        (Inl err, tr2) \<Rightarrow>
          (Some (Wrapped ''QMP blockdev-add: '' [err] []),
           snd (rollbackUnmount env account req (delIothreadBestEffort env iothreadID tr2)))
      | (Inr r2, tr2) \<Rightarrow>
      if \<not> ve_updater env then
        (Some (Text ''volume state updater not wired''),
         snd (rollbackHotAttach env account req nodeName iothreadID tr2))
      else
      (case update_volume_state env account volumeID ''in-use'' (vm_ID v) device tr2 of
        (Some err, tr3) \<Rightarrow>
          (Some (Wrapped (''persist in-use state for volume '' @ volumeID @ '': '') [err] []),
           snd (rollbackHotAttach env account req nodeName iothreadID tr3))
      | (None, tr3) \<Rightarrow>
      (case send env ''device_add''
              (VolumeBlkDeviceQMPArgs volumeID nodeName iothreadID (HotplugEBSBus (rq_HotplugPort req))) tr3 of
        (Inl err, tr4) \<Rightarrow>
          (Some (Wrapped ''QMP device_add: '' [err] []),
           (case rollbackHotAttach env account req nodeName iothreadID tr4 of
              (True, tr5) \<Rightarrow> snd (update_volume_state env account volumeID ''available'' [] [] tr5)
            | (False, tr5) \<Rightarrow> tr5))
      | (Inr r4, tr4) \<Rightarrow> (None, tr4)))))"

fun replace_or_append :: "string \<Rightarrow> EBSRequest \<Rightarrow> EBSRequest list \<Rightarrow> EBSRequest list" where
  "replace_or_append volumeID q [] = [q]"
| "replace_or_append volumeID q (r # rs) =
     (if rq_Name r = volumeID then q # rs else r # replace_or_append volumeID q rs)"

definition attach_record :: "string \<Rightarrow> string \<Rightarrow> EBSRequest \<Rightarrow> VM \<Rightarrow> VM" where
  "attach_record volumeID device req v =
     v\<lparr>vm_EBSRequests := replace_or_append volumeID req (vm_EBSRequests v),
       vm_Instance := map_option (\<lambda>i. i\<lparr>ei_BlockDeviceMappings := ei_BlockDeviceMappings i @
         [\<lparr>bdm_DeviceName = Some device, bdm_VolumeId = Some volumeID\<rparr>]\<rparr>) (vm_Instance v)\<rparr>"

type_synonym vols = "(string \<rightharpoonup> VM) \<times> vlog"

definition new_request :: "string \<Rightarrow> string \<Rightarrow> EBSRequest" where
  "new_request volumeID device =
     \<lparr>rq_Name = volumeID, rq_Boot = False, rq_EFI = False, rq_NBDURI = [], rq_DeviceName = device,
       rq_HotplugPort = 0, rq_BlockDevice = [], rq_BlockSizeBytes = 0\<rparr>"

text \<open>Everything before the hot-plug: the mount, the export and the port. A failure has unmounted
  what was mounted.\<close>

definition attach_prepare ::
  "VolEnv \<Rightarrow> VM \<Rightarrow> string \<Rightarrow> string \<Rightarrow> vlog \<Rightarrow> (EBSRequest \<times> (string \<times> json) list) result \<times> vlog" where
  "attach_prepare env v volumeID device tr =
     (if \<not> ve_mounter env then (Inl (Text ''VolumeMounter not wired''), tr)
      else
        (let req = new_request volumeID device; account = vm_AccountID v in
         case ve_mount env tr account req of
           (Some err, req1) \<Rightarrow>
             (let tr1 = EvMount account req (Some err) # tr in
              (Inl (Wrapped (''mount volume '' @ volumeID @ '': '') [err] []),
               if errors_Is err ErrMountAmbiguous then snd (rollbackUnmount env account req1 tr1) else tr1))
         | (None, req1) \<Rightarrow>
             (let tr1 = EvMount account req None # tr in
              case blockdev_args env req1 (VolumeNodeName volumeID) of
                Inl err \<Rightarrow> (Inl err, snd (rollbackUnmount env account req1 tr1))
              | Inr args \<Rightarrow>
                  (let port = freeHotplugEBSPort (vm_EBSRequests v) in
                   if port = 0 then
                     (Inl (Sentinel ErrAttachmentLimitExceeded), snd (rollbackUnmount env account req1 tr1))
                   else (Inr (req1\<lparr>rq_HotplugPort := port\<rparr>, args), tr1)))))"

definition AttachVolume :: "VolEnv \<Rightarrow> string \<Rightarrow> string \<Rightarrow> string \<Rightarrow> vols \<Rightarrow> string result \<times> vols" where
  "AttachVolume env iid volumeID device s =
     (case s of (vms, tr) \<Rightarrow>
      (case vms iid of
         None \<Rightarrow> (Inl (Sentinel ErrInstanceNotFound), s)
       | Some v \<Rightarrow>
           if vm_DirectBoot v then
             (Inl (Wrapped [] [Sentinel ErrHotAttachUnsupported] ('': instance '' @ iid)), s)
           else if vm_Status v \<noteq> StateRunning then
             (Inl (Wrapped [] [Sentinel ErrInvalidTransition]
                     ('': cannot attach to instance '' @ iid @ '' in state '' @ state_text (vm_Status v))), s)
           else
             (let device = (if device = [] then nextAvailableDevice v else device) in
              if device = [] then (Inl (Sentinel ErrAttachmentLimitExceeded), s)
              else
                (case attach_prepare env v volumeID device tr of
                   (Inl err, tr1) \<Rightarrow> (Inl err, (vms, tr1))
                 | (Inr (req, args), tr1) \<Rightarrow>
                     (case attach_plug env v volumeID device req args tr1 of
                        (Some err, tr2) \<Rightarrow> (Inl err, (vms, tr2))
                      | (None, tr2) \<Rightarrow>
                          (let tr3 = snd (queryGuestDeviceMapWait env (VolumeDeviceID volumeID) tr2) in
                           (Inr device,
                            (vms(iid \<mapsto> attach_record volumeID device req v),
                             snd (writeRunningState env tr3)))))))))"

section \<open>Detaching\<close>

definition blockdevDelMaxAttempts :: nat where "blockdevDelMaxAttempts = 20"

definition isQMPDeviceNotFound :: "go_error \<Rightarrow> bool" where
  "isQMPDeviceNotFound err = go_contains (error_text err) ''DeviceNotFound''"

definition isQMPNodeInUse :: "go_error \<Rightarrow> bool" where
  "isQMPNodeInUse err = go_contains (error_text err) ''in use''"

definition isQMPNodeNotFound :: "go_error \<Rightarrow> bool" where
  "isQMPNodeNotFound err =
     (go_contains (error_text err) ''Failed to find node'' \<or> go_contains (error_text err) ''Cannot find device'')"

text \<open>\<open>n\<close> is the number of attempts left, so that attempt \<open>20 - n + 1\<close> comes next; the last one breaks
  out without a pause.\<close>

fun blockdev_del_attempts :: "VolEnv \<Rightarrow> string \<Rightarrow> nat \<Rightarrow> go_error option \<Rightarrow> vlog \<Rightarrow> go_error option \<times> vlog" where
  "blockdev_del_attempts env nodeName 0 lastErr tr = (lastErr, tr)"
| "blockdev_del_attempts env nodeName (Suc n) lastErr tr =
     (case blockdev_del env nodeName tr of
        (Inr r, tr1) \<Rightarrow> (None, tr1)
      | (Inl err, tr1) \<Rightarrow>
          if isQMPNodeNotFound err then (None, tr1)
          else if \<not> isQMPNodeInUse err then (Some err, tr1)
          else if n = 0 then (Some err, tr1)
          else blockdev_del_attempts env nodeName n (Some err)
                 (if ve_DetachDelay env > 0 then EvSleep (ve_DetachDelay env) # tr1 else tr1))"

definition tryBlockdevDel :: "VolEnv \<Rightarrow> string \<Rightarrow> vlog \<Rightarrow> go_error option \<times> vlog" where
  "tryBlockdevDel env nodeName tr = blockdev_del_attempts env nodeName blockdevDelMaxAttempts None tr"

definition wait_unplugged :: "VolEnv \<Rightarrow> bool \<Rightarrow> string \<Rightarrow> vlog \<Rightarrow> vlog" where
  "wait_unplugged env issued deviceID tr =
     (if issued \<and> ve_DeviceDeletedTimeout env > 0 then EvWaitDeleted deviceID (ve_wait env tr deviceID) # tr
      else if ve_DetachDelay env > 0 then EvSleep (ve_DetachDelay env) # tr
      else tr)"

definition detach_unplug :: "VolEnv \<Rightarrow> string \<Rightarrow> bool \<Rightarrow> vlog \<Rightarrow> go_error option \<times> vlog" where
  "detach_unplug env volumeID force tr =
     (let deviceID = VolumeDeviceID volumeID; nodeName = VolumeNodeName volumeID in
      case send env ''device_del'' [(''id'', JStr deviceID)] tr of
        (r, tr1) \<Rightarrow>
          if (case r of Inl err \<Rightarrow> \<not> isQMPDeviceNotFound err \<and> \<not> force | Inr x \<Rightarrow> False) then
            (Some (Wrapped ''QMP device_del: '' (case r of Inl err \<Rightarrow> [err] | Inr x \<Rightarrow> []) []), tr1)
          else
            (case tryBlockdevDel env nodeName (wait_unplugged env (error_of r = None) deviceID tr1) of
               (Some err, tr2) \<Rightarrow> (Some (Wrapped ''QMP blockdev-del: '' [err] []), tr2)
             | (None, tr2) \<Rightarrow> (None, delIothreadBestEffort env (VolumeIOThreadID volumeID) tr2)))"

definition detach_record :: "string \<Rightarrow> VM \<Rightarrow> VM" where
  "detach_record volumeID v =
     v\<lparr>vm_EBSRequests := remove_first (\<lambda>r. rq_Name r = volumeID) (vm_EBSRequests v),
       vm_Instance := map_option (\<lambda>i. i\<lparr>ei_BlockDeviceMappings :=
         filter (\<lambda>b. bdm_VolumeId b \<noteq> Some volumeID) (ei_BlockDeviceMappings i)\<rparr>) (vm_Instance v)\<rparr>"

definition detach_seal :: "VolEnv \<Rightarrow> VM \<Rightarrow> EBSRequest \<Rightarrow> vlog \<Rightarrow> go_error option \<times> vlog" where
  "detach_seal env v req tr =
     (if ve_mounter env then
        (case unmount_one env (vm_AccountID v) req tr of
           (Some err, tr1) \<Rightarrow> (Some (Wrapped ''unpublish seal: '' [err] []), tr1)
         | (None, tr1) \<Rightarrow> (None, tr1))
      else (None, tr))"

definition DetachVolume :: "VolEnv \<Rightarrow> string \<Rightarrow> string \<Rightarrow> string \<Rightarrow> bool \<Rightarrow> vols \<Rightarrow> string result \<times> vols" where
  "DetachVolume env iid volumeID device force s =
     (case s of (vms, tr) \<Rightarrow>
      (case vms iid of
         None \<Rightarrow> (Inl (Sentinel ErrInstanceNotFound), s)
       | Some v \<Rightarrow>
           if vm_Status v \<noteq> StateRunning then
             (Inl (Wrapped [] [Sentinel ErrInvalidTransition]
                     ('': cannot detach from instance '' @ iid @ '' in state '' @ state_text (vm_Status v))), s)
           else
             (case find (\<lambda>r. rq_Name r = volumeID) (vm_EBSRequests v) of
                None \<Rightarrow> (Inl (Wrapped [] [Sentinel ErrVolumeNotAttached] ('': '' @ volumeID)), s)
              | Some req \<Rightarrow>
                  if rq_Boot req \<or> rq_EFI req then
                    (Inl (Wrapped [] [Sentinel ErrVolumeNotDetachable] ('': '' @ volumeID)), s)
                  else if device \<noteq> [] \<and> rq_DeviceName req \<noteq> [] \<and> device \<noteq> rq_DeviceName req then
                    (Inl (Wrapped [] [Sentinel ErrVolumeDeviceMismatch]
                            ('': requested '' @ device @ '', recorded '' @ rq_DeviceName req)), s)
                  else
                    (let dead = ve_dead env tr (vm_ID v); tr0 = EvQemuDead (vm_ID v) dead # tr in
                     case (if dead then (None, tr0) else detach_unplug env volumeID force tr0) of
                       (Some err, tr1) \<Rightarrow> (Inl err, (vms, tr1))
                     | (None, tr1) \<Rightarrow>
                         (case detach_seal env v req tr1 of
                            (Some err, tr2) \<Rightarrow> (Inl err, (vms, tr2))
                          | (None, tr2) \<Rightarrow>
                              (let tr3 = (if ve_updater env
                                          then snd (update_volume_state env (vm_AccountID v) volumeID ''available'' [] [] tr2)
                                          else tr2)
                               in (Inr (rq_DeviceName req),
                                   (vms(iid \<mapsto> detach_record volumeID v), snd (writeRunningState env tr3)))))))))"

end
