(* ===== verification/VmVolumes_Claims.thy ===== *)
theory VmVolumes_Claims
  imports VmVolumes
begin

text \<open>
  Properties of volume hot-plug: data is never sealed away under a block node QEMU still holds,
  ports and device names are never shared, an operation takes effect as a whole or not at all, and
  attaching and detaching undo each other.
\<close>

section \<open>What the log says about a block node\<close>

text \<open>
  A node is live after the last acknowledged \<open>blockdev-add\<close> for it, until a \<open>blockdev-del\<close> is
  acknowledged, QEMU says the node is not there, or QEMU itself is found dead. The log is safe if
  every unmount of a volume found its node not live.
\<close>

definition cmd_node :: "QMPCommand \<Rightarrow> json option" where
  "cmd_node c = map_of (qc_Arguments c) ''node-name''"

definition adds_node :: "string \<Rightarrow> QMPCommand \<Rightarrow> bool" where
  "adds_node n c \<longleftrightarrow> qc_Execute c = ''blockdev-add'' \<and> cmd_node c = Some (JStr n)"

definition dels_node :: "string \<Rightarrow> QMPCommand \<Rightarrow> bool" where
  "dels_node n c \<longleftrightarrow> qc_Execute c = ''blockdev-del'' \<and> cmd_node c = Some (JStr n)"

fun node_live :: "string \<Rightarrow> vlog \<Rightarrow> bool" where
  "node_live n [] = False"
| "node_live n (EvQMP c None # l) = (adds_node n c \<or> \<not> dels_node n c \<and> node_live n l)"
| "node_live n (EvQMP c (Some e) # l) = (\<not> (dels_node n c \<and> isQMPNodeNotFound e) \<and> node_live n l)"
| "node_live n (EvQemuDead i b # l) = (\<not> b \<and> node_live n l)"
| "node_live n (_ # l) = node_live n l"

fun seal_safe :: "vlog \<Rightarrow> bool" where
  "seal_safe [] = True"
| "seal_safe (EvUnmount a r e # l) = (\<not> node_live (VolumeNodeName (rq_Name r)) l \<and> seal_safe l)"
| "seal_safe (_ # l) = seal_safe l"

text \<open>The commands that do not touch block nodes.\<close>

lemma other_command:
  assumes "x \<noteq> ''blockdev-add''" and "x \<noteq> ''blockdev-del''"
  shows "node_live n (snd (send env x args tr)) = node_live n tr"
    and "seal_safe (snd (send env x args tr)) = seal_safe tr"
  using assms by (cases "error_of (ve_qmp env tr \<lparr>qc_Execute = x, qc_Arguments = args\<rparr>)";
      simp add: send_def Let_def adds_node_def dels_node_def)+

lemma send_safe [simp]: "seal_safe (snd (send env x args tr)) = seal_safe tr"
  by (simp add: send_def Let_def)

lemma other_send:
  assumes "send env x args tr = (r, tr1)" and "x \<noteq> ''blockdev-add''" and "x \<noteq> ''blockdev-del''"
  shows "node_live n tr1 = node_live n tr" and "seal_safe tr1 = seal_safe tr"
  using other_command [OF assms(2,3), where env = env and args = args and tr = tr] assms(1) by simp_all

lemma blockdev_add_result:
  assumes "send env ''blockdev-add'' args tr = (r, tr1)"
  shows "seal_safe tr1 = seal_safe tr" and "r = Inl e \<Longrightarrow> node_live n tr1 = node_live n tr"
  using assms by (auto simp: send_def Let_def error_of_def adds_node_def dels_node_def split: sum.splits)

lemma blockdev_del_result:
  assumes "blockdev_del env n tr = (r, tr1)"
  shows "seal_safe tr1 = seal_safe tr"
    and "r = Inr x \<Longrightarrow> \<not> node_live n tr1"
    and "r = Inl e \<Longrightarrow> isQMPNodeNotFound e \<Longrightarrow> \<not> node_live n tr1"
    and "r = Inl e \<Longrightarrow> node_live n tr1 \<Longrightarrow> node_live n tr"
  using assms
  by (auto simp: blockdev_del_def send_def Let_def error_of_def adds_node_def dels_node_def cmd_node_def split: sum.splits)

lemma delIothread_log [simp]:
  "node_live n (delIothreadBestEffort env i tr) = node_live n tr"
  "seal_safe (delIothreadBestEffort env i tr) = seal_safe tr"
  by (simp_all add: delIothreadBestEffort_def other_command)

lemma rollbackUnmount_log:
  "node_live n (snd (rollbackUnmount env a req tr)) = node_live n tr"
  "\<not> node_live (VolumeNodeName (rq_Name req)) tr \<Longrightarrow> seal_safe (snd (rollbackUnmount env a req tr)) = seal_safe tr"
  by (simp_all add: rollbackUnmount_def unmount_one_def Let_def)

lemma update_volume_state_log [simp]:
  "node_live n (snd (update_volume_state env a v st i d tr)) = node_live n tr"
  "seal_safe (snd (update_volume_state env a v st i d tr)) = seal_safe tr"
  by (simp_all add: update_volume_state_def Let_def)

lemma writeRunningState_log [simp]:
  "node_live n (snd (writeRunningState env tr)) = node_live n tr"
  "seal_safe (snd (writeRunningState env tr)) = seal_safe tr"
  by (simp_all add: writeRunningState_def Let_def)

lemma rollbackHotAttach_log:
  "rq_Name req = vol \<Longrightarrow>
    seal_safe (snd (rollbackHotAttach env a req (VolumeNodeName vol) i tr)) = seal_safe tr"
proof -
  assume n: "rq_Name req = vol"
  obtain r tr1 where d: "blockdev_del env (VolumeNodeName vol) tr = (r, tr1)" by fastforce
  obtain e tr2 where u: "rollbackUnmount env a req (delIothreadBestEffort env i tr1) = (e, tr2)" by fastforce
  then have s: "\<not> node_live (VolumeNodeName vol) tr1 \<Longrightarrow> seal_safe tr2 = seal_safe tr1"
    using rollbackUnmount_log(2) [where env = env and a = a and req = req and tr = "delIothreadBestEffort env i tr1"] n by (simp add: delIothread_log)
  show ?thesis
    using blockdev_del_result [OF d] s
    by (cases r) (simp_all add: rollbackHotAttach_def d u)
qed

lemma queryGuestDeviceMap_safe [simp]: "seal_safe (snd (queryGuestDeviceMap env tr)) = seal_safe tr"
proof -
  obtain r tr1 where s: "send env ''query-block'' [] tr = (r, tr1)" by fastforce
  with send_safe [of env "''query-block''" "[]" tr] have "seal_safe tr1 = seal_safe tr" by simp
  then show ?thesis by (simp add: queryGuestDeviceMap_def s split: sum.split)
qed

lemma query_wait_safe: "seal_safe (snd (query_wait env x n tr)) = seal_safe tr"
proof (induction n arbitrary: tr)
  case (Suc n)
  obtain r tr1 where q: "queryGuestDeviceMap env tr = (r, tr1)" by fastforce
  with queryGuestDeviceMap_safe [of env tr] Suc show ?case by (simp split: sum.split)
qed (simp add: queryGuestDeviceMap_safe)

lemma attach_plug_safe:
  assumes safe: "seal_safe tr" and off: "\<not> node_live (VolumeNodeName vol) tr" and n: "rq_Name req = vol"
  shows "seal_safe (snd (attach_plug env v vol device req args tr))"
proof -
  obtain r1 tr1 where a: "send env ''object-add'' [(''qom-type'', JStr ''iothread''), (''id'', JStr (VolumeIOThreadID vol))] tr = (r1, tr1)"
    by fastforce
  then have 1: "seal_safe tr1" "\<not> node_live (VolumeNodeName vol) tr1"
    using safe off other_send [OF a] by simp_all
  obtain r2 tr2 where b: "send env ''blockdev-add'' args tr1 = (r2, tr2)" by fastforce
  note 2 = blockdev_add_result [OF b]
  obtain r3 tr3 where c: "update_volume_state env (vm_AccountID v) vol ''in-use'' (vm_ID v) device tr2 = (r3, tr3)"
    by fastforce
  then have 3: "seal_safe tr3" using 1 2(1) update_volume_state_log(2) by (metis snd_conv)
  let ?d = "VolumeBlkDeviceQMPArgs vol (VolumeNodeName vol) (VolumeIOThreadID vol) (HotplugEBSBus (rq_HotplugPort req))"
  obtain r4 tr4 where d: "send env ''device_add'' ?d tr3 = (r4, tr4)" by fastforce
  then have 4: "seal_safe tr4" using 3 send_safe by (metis snd_conv)
  obtain b5 tr5 where e: "rollbackHotAttach env (vm_AccountID v) req (VolumeNodeName vol) (VolumeIOThreadID vol) tr4 = (b5, tr5)"
    by fastforce
  then have 5: "seal_safe tr5" using 4 rollbackHotAttach_log [OF n] by (metis snd_conv)
  show ?thesis
    using 1 2 3 4 5 n
    by (simp add: attach_plug_def Let_def a b c d e rollbackUnmount_log rollbackHotAttach_log
        split: sum.split option.split bool.split)
qed

text \<open>The mounter writes the resolved export into the request and leaves the volume's name and device
  name alone.\<close>

definition mount_keeps_name :: "VolEnv \<Rightarrow> bool" where
  "mount_keeps_name env \<longleftrightarrow> (\<forall>tr a req. rq_Name (snd (ve_mount env tr a req)) = rq_Name req \<and>
     rq_DeviceName (snd (ve_mount env tr a req)) = rq_DeviceName req)"

lemma attach_prepare_safe:
  assumes "seal_safe tr" and "\<not> node_live (VolumeNodeName vol) tr" and "mount_keeps_name env"
    and "attach_prepare env v vol device tr = (r, tr1)"
  shows "seal_safe tr1 \<and> \<not> node_live (VolumeNodeName vol) tr1 \<and>
    (\<forall>req args. r = Inr (req, args) \<longrightarrow> rq_Name req = vol)"
proof -
  obtain e req1 where m: "ve_mount env tr (vm_AccountID v) (new_request vol device) = (e, req1)" by fastforce
  then have n: "rq_Name req1 = vol"
    using assms(3) unfolding mount_keeps_name_def new_request_def by (metis EBSRequest.select_convs(1) snd_conv)
  show ?thesis
    using assms(1,2,4) n
    by (auto simp: attach_prepare_def m Let_def rollbackUnmount_log split: if_splits option.splits sum.splits)
qed


definition demo_env :: VolEnv where
  "demo_env = \<lparr>ve_qmp = (\<lambda>tr c. Inr []), ve_decode = (\<lambda>s. Inr []), ve_order = (\<lambda>es. es),
     ve_nbd = (\<lambda>u. Inr (JStr u)), ve_mounter = True,
     ve_mount = (\<lambda>tr a req. (None, req\<lparr>rq_NBDURI := ''nbd://10.0.0.1:10809''\<rparr>)),
     ve_unmount = (\<lambda>tr a req. None), ve_updater = True, ve_update = (\<lambda>tr a v s i d. None),
     ve_store = True, ve_write = (\<lambda>tr. None), ve_dead = (\<lambda>tr i. False), ve_wait = (\<lambda>tr d. None),
     ve_DetachDelay = 1, ve_DeviceDeletedTimeout = 0\<rparr>"

lemma demo_env_keeps: "mount_keeps_name demo_env"
  by (simp add: mount_keeps_name_def demo_env_def)

definition demo_guest :: VM where
  "demo_guest = \<lparr>vm_ID = ''i-1'', vm_Status = StateRunning, vm_InstanceType = ''t3.micro'', vm_AccountID = ''1'',
     vm_DirectBoot = False, vm_EBSRequests = [],
     vm_Instance = Some \<lparr>ei_LaunchTime = None, ei_BlockDeviceMappings = []\<rparr>,
     vm_Health = \<lparr>CrashCount = 0, LastCrashTime = None, LastCrashReason = [], RestartCount = 0, FirstCrashTime = None\<rparr>,
     vm_CapacityReservationId = [], vm_GPUAttachments = [], vm_QMPSocket = [], vm_ShuttingDownAt = None\<rparr>"


section \<open>Detaching\<close>

lemma blockdev_del_attempts_log:
  assumes "blockdev_del_attempts env n k le tr = (r, tr1)"
  shows "seal_safe tr1 = seal_safe tr \<and> (r = None \<and> (le \<noteq> None \<or> k > 0) \<longrightarrow> \<not> node_live n tr1)"
  using assms
proof (induction k arbitrary: le tr)
  case (Suc k)
  obtain q tr2 where d: "blockdev_del env n tr = (q, tr2)" by fastforce
  show ?case
  proof (cases q)
    case (Inl e)
    with Suc d blockdev_del_result [OF d] show ?thesis by (auto split: if_splits)
  next
    case (Inr x)
    with Suc d blockdev_del_result [OF d] show ?thesis by auto
  qed
qed auto

lemma wait_unplugged_log [simp]: "seal_safe (wait_unplugged env b d tr) = seal_safe tr"
  by (simp add: wait_unplugged_def)

lemma detach_unplug_log:
  assumes "detach_unplug env vol force tr = (r, tr1)"
  shows "seal_safe tr1 = seal_safe tr" and "r = None \<Longrightarrow> \<not> node_live (VolumeNodeName vol) tr1"
proof -
  obtain q tr2 where s: "send env ''device_del'' [(''id'', JStr (VolumeDeviceID vol))] tr = (q, tr2)" by fastforce
  obtain e tr3 where t: "tryBlockdevDel env (VolumeNodeName vol)
      (wait_unplugged env (error_of q = None) (VolumeDeviceID vol) tr2) = (e, tr3)" by fastforce
  note b = blockdev_del_attempts_log [OF t [unfolded tryBlockdevDel_def]]
  from assms have "r \<noteq> None \<and> tr1 = tr2 \<or>
      (r, tr1) = (case e of Some x \<Rightarrow> (Some (Wrapped ''QMP blockdev-del: '' [x] []), tr3)
        | None \<Rightarrow> (None, delIothreadBestEffort env (VolumeIOThreadID vol) tr3))"
    by (auto simp: detach_unplug_def Let_def s t split: if_splits)
  with b other_send(2) [OF s]
  show "seal_safe tr1 = seal_safe tr" and "r = None \<Longrightarrow> \<not> node_live (VolumeNodeName vol) tr1"
    by (auto simp: blockdevDelMaxAttempts_def split: option.splits)
qed

text \<open>What a detach does before the seal: nothing if QEMU is dead, the unplug otherwise.\<close>

lemma detach_unplugged_log:
  assumes "(if ve_dead env tr i then (None, EvQemuDead i (ve_dead env tr i) # tr)
            else detach_unplug env vol force (EvQemuDead i (ve_dead env tr i) # tr)) = (r, tr1)"
  shows "seal_safe tr1 = seal_safe tr" and "r = None \<Longrightarrow> \<not> node_live (VolumeNodeName vol) tr1"
  using assms detach_unplug_log [of env vol force "EvQemuDead i False # tr" r tr1]
  by (auto split: if_splits)

lemma detach_seal_log:
  assumes "\<not> node_live (VolumeNodeName (rq_Name req)) tr"
  shows "seal_safe (snd (detach_seal env v req tr)) = seal_safe tr"
  using assms by (simp add: detach_seal_def unmount_one_def Let_def split: option.split)

text \<open>
  C11. A detach seals only what is unplugged. Whatever QEMU answers, and whether or not the detach is
  forced, the volume is unmounted only after QEMU acknowledged that its block node is gone, said the
  node does not exist, or was found dead.
\<close>

theorem detach_seals_unplugged_only:
  assumes "seal_safe tr"
  shows "seal_safe (snd (snd (DetachVolume env iid vol device force (vms, tr))))"
proof (cases "vms iid")
  case (Some v)
  show ?thesis
  proof (cases "find (\<lambda>r. rq_Name r = vol) (vm_EBSRequests v)")
    case None
    with Some assms show ?thesis by (simp add: DetachVolume_def)
  next
    case (Some req)
    then have n: "rq_Name req = vol" by (metis (mono_tags, lifting) find_Some_iff)
    let ?dead = "ve_dead env tr (vm_ID v)"
    obtain e tr1 where u: "(if ?dead then (None, EvQemuDead (vm_ID v) ?dead # tr)
        else detach_unplug env vol force (EvQemuDead (vm_ID v) ?dead # tr)) = (e, tr1)" by fastforce
    note 1 = detach_unplugged_log [OF u]
    obtain e2 tr2 where s: "detach_seal env v req tr1 = (e2, tr2)" by fastforce
    have 2: "e = None \<Longrightarrow> seal_safe tr2" using detach_seal_log [of req tr1 env v] 1 s n assms by simp
    show ?thesis
      using \<open>vms iid = Some v\<close> Some assms 1 2
      by (simp add: DetachVolume_def Let_def u s split: option.split)
  qed
qed (simp add: DetachVolume_def assms)

theorem detach_seals_unplugged_only_witness:
  "seal_safe (snd (snd (DetachVolume demo_env ''i-1'' ''vol-1'' [] True
     ([''i-1'' \<mapsto> demo_guest\<lparr>vm_EBSRequests := [new_request ''vol-1'' ''/dev/sdf'']\<rparr>], []))))"
  using detach_seals_unplugged_only [of "[]"] by simp

section \<open>Ports and device names\<close>

lemma find_least:
  fixes xs :: "'a :: linorder list"
  assumes "sorted xs" and "find P xs = Some x"
  shows "x \<in> set xs \<and> P x \<and> (\<forall>y \<in> set xs. y < x \<longrightarrow> \<not> P y)"
proof -
  from assms(2) obtain i where i: "i < length xs" "P (xs ! i)" "x = xs ! i" "\<forall>j<i. \<not> P (xs ! j)"
    by (metis find_Some_iff)
  have "\<not> P y" if y: "y \<in> set xs" "y < x" for y
  proof -
    from y(1) obtain j where j: "j < length xs" "y = xs ! j" by (metis in_set_conv_nth)
    have "j < i"
    proof (rule ccontr)
      assume "\<not> j < i"
      with sorted_nth_mono [OF assms(1), of i j] j i y(2) show False by simp
    qed
    with i(4) j(2) show ?thesis by simp
  qed
  with i show ?thesis by auto
qed

definition ports :: "EBSRequest list \<Rightarrow> int list" where
  "ports reqs = filter (\<lambda>p. p > 0) (map rq_HotplugPort reqs)"

lemma used_ports: "set [rq_HotplugPort r. r \<leftarrow> reqs, rq_HotplugPort r > 0] = set (ports reqs)"
  by (auto simp: ports_def)

lemma freeHotplugEBSPort_free:
  assumes "freeHotplugEBSPort reqs = p" and "p \<noteq> 0"
  shows "1 \<le> p \<and> p \<le> EBSHotPlugSlotCount \<and> p \<notin> set (ports reqs) \<and> (\<forall>q. 1 \<le> q \<and> q < p \<longrightarrow> q \<in> set (ports reqs))"
proof -
  have "find (\<lambda>p. p \<notin> set (ports reqs)) [1..EBSHotPlugSlotCount] = Some p"
    using assms unfolding freeHotplugEBSPort_def used_ports by (simp split: option.splits)
  from find_least [OF _ this] show ?thesis by (auto simp: EBSHotPlugSlotCount_def)
qed

lemma freeHotplugEBSPort_none:
  "freeHotplugEBSPort reqs = 0 \<longleftrightarrow> (\<forall>p. 1 \<le> p \<and> p \<le> EBSHotPlugSlotCount \<longrightarrow> p \<in> set (ports reqs))"
proof -
  have "freeHotplugEBSPort reqs = 0 \<longleftrightarrow> find (\<lambda>p. p \<notin> set (ports reqs)) [1..EBSHotPlugSlotCount] = None"
    unfolding freeHotplugEBSPort_def used_ports
    by (auto split: option.split dest: find_least [rotated])
  then show ?thesis by (auto simp: find_None_iff)
qed

lemma nextAvailableDevice_free:
  assumes "nextAvailableDevice v = d" and "d \<noteq> []"
  shows "\<exists>c \<in> set device_letters. d = device_name c \<and> d \<notin> used_devices v"
proof -
  from assms obtain c where "find (\<lambda>c. device_name c \<notin> used_devices v) device_letters = Some c" "d = device_name c"
    by (auto simp: nextAvailableDevice_def split: option.splits)
  then show ?thesis by (metis (mono_tags, lifting) find_Some_iff nth_mem)
qed

lemma nextAvailableDevice_none:
  "nextAvailableDevice v = [] \<longleftrightarrow> (\<forall>c \<in> set device_letters. device_name c \<in> used_devices v)"
proof -
  have "nextAvailableDevice v = [] \<longleftrightarrow> find (\<lambda>c. device_name c \<notin> used_devices v) device_letters = None"
    by (simp add: nextAvailableDevice_def device_name_def split: option.split)
  then show ?thesis by (auto simp: find_None_iff)
qed

section \<open>Outcomes\<close>

lemma attach_prepare_request:
  assumes "attach_prepare env v vol device tr = (Inr (req, args), tr1)"
  shows "rq_HotplugPort req = freeHotplugEBSPort (vm_EBSRequests v) \<and> rq_HotplugPort req \<noteq> 0 \<and>
    (mount_keeps_name env \<longrightarrow> rq_Name req = vol \<and> rq_DeviceName req = device)"
proof -
  obtain e req1 where m: "ve_mount env tr (vm_AccountID v) (new_request vol device) = (e, req1)" by fastforce
  have "mount_keeps_name env \<Longrightarrow> rq_Name req1 = vol \<and> rq_DeviceName req1 = device"
    using m unfolding mount_keeps_name_def new_request_def
    by (metis EBSRequest.select_convs(1,5) snd_conv)
  with assms show ?thesis
    by (auto simp: attach_prepare_def m Let_def split: if_splits option.splits sum.splits)
qed

lemma AttachVolume_outcome:
  "case AttachVolume env iid vol device (vms, tr) of
     (Inl err, vms', tr') \<Rightarrow> vms' = vms
   | (Inr d, vms', tr') \<Rightarrow>
       (\<exists>v req. vms iid = Some v \<and> vm_Status v = StateRunning \<and> \<not> vm_DirectBoot v \<and>
          vms' = vms(iid \<mapsto> attach_record vol d req v) \<and>
          (mount_keeps_name env \<longrightarrow> rq_Name req = vol \<and> rq_DeviceName req = d) \<and>
          (if device = [] then d \<notin> used_devices v \<and> (\<exists>c \<in> set device_letters. d = device_name c) else d = device) \<and>
          (let p = rq_HotplugPort req in
             1 \<le> p \<and> p \<le> EBSHotPlugSlotCount \<and> p \<notin> set (ports (vm_EBSRequests v)) \<and>
             (\<forall>q. 1 \<le> q \<and> q < p \<longrightarrow> q \<in> set (ports (vm_EBSRequests v)))))"
proof (cases "vms iid")
  case (Some v)
  let ?dev = "if device = [] then nextAvailableDevice v else device"
  show ?thesis
  proof (cases "vm_DirectBoot v \<or> vm_Status v \<noteq> StateRunning \<or> ?dev = []")
    case True
    with Some show ?thesis by (auto simp: AttachVolume_def Let_def)
  next
    case False
    obtain r tr1 where p: "attach_prepare env v vol ?dev tr = (r, tr1)" by fastforce
    show ?thesis
    proof (cases r)
      case (Inl err)
      with Some False p show ?thesis by (simp add: AttachVolume_def Let_def)
    next
      case (Inr q)
      then obtain req args where q: "r = Inr (req, args)" by (cases q) auto
      note 1 = attach_prepare_request [OF p [unfolded q]]
      note 2 = freeHotplugEBSPort_free [of "vm_EBSRequests v" "rq_HotplugPort req"]
      obtain e tr2 where a: "attach_plug env v vol ?dev req args tr1 = (e, tr2)" by fastforce
      have d: "device = [] \<Longrightarrow> ?dev \<notin> used_devices v \<and> (\<exists>c \<in> set device_letters. ?dev = device_name c)"
        using nextAvailableDevice_free [of v ?dev] False by auto
      show ?thesis
      proof (cases e)
        case None
        have "AttachVolume env iid vol device (vms, tr) = (Inr ?dev, vms(iid \<mapsto> attach_record vol ?dev req v),
            snd (writeRunningState env (snd (queryGuestDeviceMapWait env (VolumeDeviceID vol) tr2))))"
          using Some False p q a None by (simp add: AttachVolume_def Let_def)
        with Some False 1 2 d show ?thesis by (auto simp: Let_def)
      next
        case (Some err)
        with \<open>vms iid = Some v\<close> False p q a show ?thesis by (simp add: AttachVolume_def Let_def)
      qed
    qed
  qed
qed (simp add: AttachVolume_def)


lemma demo_port: "freeHotplugEBSPort [] = 1"
  by (simp add: freeHotplugEBSPort_def EBSHotPlugSlotCount_def upto_rec1)

lemma demo_device: "nextAvailableDevice demo_guest = ''/dev/sdf''"
  by (simp add: nextAvailableDevice_def device_letters_def used_devices_def demo_guest_def device_name_def
      List.map_filter_def)

definition demo_volume_request :: EBSRequest where
  "demo_volume_request = (new_request ''vol-1'' ''/dev/sdf'')\<lparr>rq_NBDURI := ''nbd://10.0.0.1:10809'', rq_HotplugPort := 1\<rparr>"

lemma demo_prepare:
  "\<exists>args tr. attach_prepare demo_env demo_guest ''vol-1'' ''/dev/sdf'' [] = (Inr (demo_volume_request, args), tr)"
  by (simp add: attach_prepare_def demo_env_def demo_guest_def demo_port Let_def blockdev_args_def
      classifyVolumeExport_def new_request_def demo_volume_request_def)

lemma demo_plug: "\<exists>tr'. attach_plug demo_env demo_guest vol device req args tr = (None, tr')"
  by (simp add: attach_plug_def demo_env_def Let_def send_def update_volume_state_def)

lemma demo_attach:
  "\<exists>tr. AttachVolume demo_env ''i-1'' ''vol-1'' [] ([''i-1'' \<mapsto> demo_guest], []) =
     (Inr ''/dev/sdf'', [''i-1'' \<mapsto> attach_record ''vol-1'' ''/dev/sdf'' demo_volume_request demo_guest], tr)"
proof -
  obtain args tr where p: "attach_prepare demo_env demo_guest ''vol-1'' ''/dev/sdf'' [] = (Inr (demo_volume_request, args), tr)"
    using demo_prepare by blast
  obtain tr' where "attach_plug demo_env demo_guest ''vol-1'' ''/dev/sdf'' demo_volume_request args tr = (None, tr')"
    using demo_plug by blast
  moreover have "vm_Status demo_guest = StateRunning" "\<not> vm_DirectBoot demo_guest" by (simp_all add: demo_guest_def)
  ultimately show ?thesis using p by (simp add: AttachVolume_def demo_device Let_def)
qed


lemma DetachVolume_outcome:
  "case DetachVolume env iid vol device force (vms, tr) of
     (Inl err, vms', tr') \<Rightarrow> vms' = vms
   | (Inr d, vms', tr') \<Rightarrow>
       (\<exists>v req. vms iid = Some v \<and> vm_Status v = StateRunning \<and>
          find (\<lambda>r. rq_Name r = vol) (vm_EBSRequests v) = Some req \<and> \<not> rq_Boot req \<and> \<not> rq_EFI req \<and>
          d = rq_DeviceName req \<and> (device = [] \<or> d = [] \<or> device = d) \<and>
          vms' = vms(iid \<mapsto> detach_record vol v) \<and>
          (ve_mounter env \<longrightarrow> EvUnmount (vm_AccountID v) req None \<in> set tr'))"
proof (cases "vms iid")
  case (Some v)
  show ?thesis
  proof (cases "find (\<lambda>r. rq_Name r = vol) (vm_EBSRequests v)")
    case None
    with Some show ?thesis by (simp add: DetachVolume_def)
  next
    case req: (Some req)
    let ?dead = "ve_dead env tr (vm_ID v)"
    obtain e tr1 where u: "(if ?dead then (None, EvQemuDead (vm_ID v) ?dead # tr)
        else detach_unplug env vol force (EvQemuDead (vm_ID v) ?dead # tr)) = (e, tr1)" by fastforce
    obtain e2 tr2 where s: "detach_seal env v req tr1 = (e2, tr2)" by fastforce
    have m: "ve_mounter env \<Longrightarrow> e2 = None \<Longrightarrow> EvUnmount (vm_AccountID v) req None \<in> set tr2"
      using s by (auto simp: detach_seal_def unmount_one_def Let_def split: option.splits)
    show ?thesis
      using Some req m
      by (simp add: DetachVolume_def Let_def u s writeRunningState_def update_volume_state_def split: option.split)
  qed
qed (simp add: DetachVolume_def)

text \<open>
  A detach happens as a whole or not at all. If it reports an error, no instance record changed,
  so that a retry starts from the same record. If it succeeds, the volume was attached to the running
  instance under the name asked for and was neither its boot nor its firmware volume, the mounter
  acknowledged the seal, and exactly this volume left the instance's record.
\<close>

theorem DetachVolume_all_or_nothing:
  "case DetachVolume env iid vol device force (vms, tr) of
     (Inl err, vms', tr') \<Rightarrow> vms' = vms
   | (Inr d, vms', tr') \<Rightarrow>
       (\<exists>v req. vms iid = Some v \<and> vm_Status v = StateRunning \<and>
          find (\<lambda>r. rq_Name r = vol) (vm_EBSRequests v) = Some req \<and> \<not> rq_Boot req \<and> \<not> rq_EFI req \<and>
          d = rq_DeviceName req \<and> (device = [] \<or> d = [] \<or> device = d) \<and>
          vms' = vms(iid \<mapsto> detach_record vol v) \<and>
          (ve_mounter env \<longrightarrow> EvUnmount (vm_AccountID v) req None \<in> set tr'))"
  by (rule DetachVolume_outcome)

lemma demo_unplug: "\<exists>tr'. detach_unplug demo_env vol force tr = (None, tr')"
  by (simp add: detach_unplug_def demo_env_def Let_def send_def error_of_def tryBlockdevDel_def blockdev_del_def
      blockdevDelMaxAttempts_def eval_nat_numeral)

lemma demo_detach:
  assumes "vm_EBSRequests v = [r]" and "rq_Name r = ''vol-1''" and "\<not> rq_Boot r" and "\<not> rq_EFI r"
    and "vm_Status v = StateRunning"
  shows "\<exists>tr'. DetachVolume demo_env ''i-1'' ''vol-1'' [] False ([''i-1'' \<mapsto> v], tr) =
    (Inr (rq_DeviceName r), [''i-1'' \<mapsto> detach_record ''vol-1'' v], tr')"
proof -
  obtain tr' where "detach_unplug demo_env ''vol-1'' False (EvQemuDead (vm_ID v) False # tr) = (None, tr')"
    using demo_unplug by blast
  moreover have "ve_dead demo_env tr i = False" "ve_mounter demo_env" "\<And>tr a r. ve_unmount demo_env tr a r = None" for i
    by (simp_all add: demo_env_def)
  ultimately show ?thesis
    using assms by (simp add: DetachVolume_def Let_def detach_seal_def unmount_one_def)
qed

theorem DetachVolume_all_or_nothing_example:
  "\<exists>vms tr. DetachVolume demo_env ''i-1'' ''vol-1'' [] False
     ([''i-1'' \<mapsto> demo_guest\<lparr>vm_EBSRequests := [new_request ''vol-1'' ''/dev/sdf'']\<rparr>], []) = (Inr ''/dev/sdf'', vms, tr) \<and>
     vms ''i-1'' = Some demo_guest"
proof -
  let ?vms = "[''i-1'' \<mapsto> demo_guest\<lparr>vm_EBSRequests := [new_request ''vol-1'' ''/dev/sdf'']\<rparr>]"
  obtain vms tr where a: "DetachVolume demo_env ''i-1'' ''vol-1'' [] False (?vms, []) = (Inr ''/dev/sdf'', vms, tr)"
    using demo_detach [of "demo_guest\<lparr>vm_EBSRequests := [new_request ''vol-1'' ''/dev/sdf'']\<rparr>" "new_request ''vol-1'' ''/dev/sdf''" "[]"]
    by (auto simp: demo_guest_def new_request_def)
  from DetachVolume_all_or_nothing [where env = demo_env and iid = "''i-1''" and vol = "''vol-1''" and device = "[]"
    and force = False and vms = "?vms" and tr = "[]", unfolded a]
  have "vms ''i-1'' = Some (detach_record ''vol-1'' (demo_guest\<lparr>vm_EBSRequests := [new_request ''vol-1'' ''/dev/sdf'']\<rparr>))"
    by auto
  with a show ?thesis by (auto simp: detach_record_def demo_guest_def new_request_def)
qed

section \<open>Ports stay distinct\<close>

definition ports_ok :: "VM \<Rightarrow> bool" where
  "ports_ok v \<longleftrightarrow> distinct (ports (vm_EBSRequests v)) \<and> (\<forall>p \<in> set (ports (vm_EBSRequests v)). p \<le> EBSHotPlugSlotCount)"

lemma ports_simps [simp]: "ports [] = []"
  "ports (r # rs) = (if rq_HotplugPort r > 0 then rq_HotplugPort r # ports rs else ports rs)"
  by (simp_all add: ports_def)

lemma ports_replace:
  "set (ports (replace_or_append vol q rs)) \<subseteq> insert (rq_HotplugPort q) (set (ports rs))"
  "distinct (ports rs) \<Longrightarrow> rq_HotplugPort q \<notin> set (ports rs) \<Longrightarrow> distinct (ports (replace_or_append vol q rs))"
proof -
  show *: "set (ports (replace_or_append vol q rs)) \<subseteq> insert (rq_HotplugPort q) (set (ports rs))" for rs
    by (induction rs) auto
  show "distinct (ports rs) \<Longrightarrow> rq_HotplugPort q \<notin> set (ports rs) \<Longrightarrow> distinct (ports (replace_or_append vol q rs))"
  proof (induction rs)
    case (Cons r rs)
    with * [of rs] show ?case by (auto split: if_splits)
  qed simp
qed

lemma ports_remove:
  "set (ports (remove_first P rs)) \<subseteq> set (ports rs)"
  "distinct (ports rs) \<Longrightarrow> distinct (ports (remove_first P rs))"
proof -
  show *: "set (ports (remove_first P rs)) \<subseteq> set (ports rs)" for rs by (induction rs) auto
  show "distinct (ports rs) \<Longrightarrow> distinct (ports (remove_first P rs))"
  proof (induction rs)
    case (Cons r rs)
    with * [of rs] show ?case by (auto split: if_splits)
  qed simp
qed

datatype vol_op = OpAttach string string string | OpDetach string string string bool

fun vol_step :: "VolEnv \<Rightarrow> vol_op \<Rightarrow> vols \<Rightarrow> vols" where
  "vol_step env (OpAttach iid vol device) s = snd (AttachVolume env iid vol device s)"
| "vol_step env (OpDetach iid vol device force) s = snd (DetachVolume env iid vol device force s)"

lemma vol_step_ports:
  assumes "\<forall>v \<in> ran vms. ports_ok v" and "vol_step env p (vms, tr) = (vms', tr')"
  shows "\<forall>v \<in> ran vms'. ports_ok v"
proof (cases p)
  case (OpAttach iid vol device)
  obtain r where a: "AttachVolume env iid vol device (vms, tr) = (r, vms', tr')"
    using assms(2) OpAttach by (cases "AttachVolume env iid vol device (vms, tr)") simp
  show ?thesis
  proof (cases r)
    case (Inl err)
    with AttachVolume_outcome [where env = env and iid = iid and vol = vol and device = device and vms = vms and tr = tr] a assms(1) show ?thesis by simp
  next
    case (Inr d)
    with AttachVolume_outcome [where env = env and iid = iid and vol = vol and device = device and vms = vms and tr = tr] a obtain v req where
      v: "vms iid = Some v" "vms' = vms(iid \<mapsto> attach_record vol d req v)"
      "rq_HotplugPort req \<le> EBSHotPlugSlotCount" "rq_HotplugPort req \<notin> set (ports (vm_EBSRequests v))"
      by (auto simp: Let_def)
    have "ports_ok v" using assms(1) v(1) by (auto simp: ran_def)
    then have "ports_ok (attach_record vol d req v)"
      using v(3,4) ports_replace [where vol = vol and q = req and rs = "vm_EBSRequests v"]
      by (auto simp: ports_ok_def attach_record_def)
    with assms(1) v(2) show ?thesis by (auto simp: ran_def split: if_splits)
  qed
next
  case (OpDetach iid vol device force)
  obtain r where a: "DetachVolume env iid vol device force (vms, tr) = (r, vms', tr')"
    using assms(2) OpDetach by (cases "DetachVolume env iid vol device force (vms, tr)") simp
  show ?thesis
  proof (cases r)
    case (Inl err)
    with DetachVolume_outcome [where env = env and iid = iid and vol = vol and device = device and force = force and vms = vms and tr = tr] a assms(1) show ?thesis by simp
  next
    case (Inr d)
    with DetachVolume_outcome [where env = env and iid = iid and vol = vol and device = device and force = force and vms = vms and tr = tr] a obtain v where
      v: "vms iid = Some v" "vms' = vms(iid \<mapsto> detach_record vol v)" by auto
    have "ports_ok v" using assms(1) v(1) by (auto simp: ran_def)
    then have "ports_ok (detach_record vol v)"
      using ports_remove [where P = "\<lambda>r. rq_Name r = vol" and rs = "vm_EBSRequests v"]
      by (auto simp: ports_ok_def detach_record_def)
    with assms(1) v(2) show ?thesis by (auto simp: ran_def split: if_splits)
  qed
qed



section \<open>Attach and detach are inverse\<close>

lemma remove_replace:
  "\<forall>r \<in> set rs. rq_Name r \<noteq> vol \<Longrightarrow> rq_Name q = vol \<Longrightarrow>
    remove_first (\<lambda>r. rq_Name r = vol) (replace_or_append vol q rs) = rs"
  by (induction rs) auto

lemma find_replace:
  "\<forall>r \<in> set rs. rq_Name r \<noteq> vol \<Longrightarrow> rq_Name q = vol \<Longrightarrow>
    find (\<lambda>r. rq_Name r = vol) (replace_or_append vol q rs) = Some q"
  by (induction rs) auto

lemma detach_attach_record:
  assumes "\<forall>r \<in> set (vm_EBSRequests v). rq_Name r \<noteq> vol" and "rq_Name req = vol"
    and "\<forall>i. vm_Instance v = Some i \<longrightarrow> (\<forall>b \<in> set (ei_BlockDeviceMappings i). bdm_VolumeId b \<noteq> Some vol)"
  shows "detach_record vol (attach_record vol d req v) = v"
  using assms remove_replace [of "vm_EBSRequests v" vol req]
  by (cases "vm_Instance v") (auto simp: detach_record_def attach_record_def)

text \<open>
  C28. Detaching undoes attaching. If a volume that an instance does not list is attached and then
  detached, both successfully and whatever happened in QEMU in between, every instance record is as
  it was, and the detach reports the device name the attach gave.
\<close>

theorem attach_detach_round_trip:
  assumes "AttachVolume env iid vol device (vms, tr) = (Inr d, vms1, tr1)"
    and "DetachVolume env' iid vol device' force (vms1, tr2) = (Inr d', vms2, tr3)"
    and "mount_keeps_name env"
    and "\<forall>v. vms iid = Some v \<longrightarrow> (\<forall>r \<in> set (vm_EBSRequests v). rq_Name r \<noteq> vol) \<and>
      (\<forall>i. vm_Instance v = Some i \<longrightarrow> (\<forall>b \<in> set (ei_BlockDeviceMappings i). bdm_VolumeId b \<noteq> Some vol))"
  shows "vms2 = vms \<and> d' = d"
proof -
  from AttachVolume_outcome [where env = env and iid = iid and vol = vol and device = device and vms = vms and tr = tr] assms(1,3) obtain v req where
    a: "vms iid = Some v" "vms1 = vms(iid \<mapsto> attach_record vol d req v)" "rq_Name req = vol" "rq_DeviceName req = d"
    by auto
  from a(1) assms(4) have fresh: "\<forall>r \<in> set (vm_EBSRequests v). rq_Name r \<noteq> vol"
    "\<forall>i. vm_Instance v = Some i \<longrightarrow> (\<forall>b \<in> set (ei_BlockDeviceMappings i). bdm_VolumeId b \<noteq> Some vol)" by auto
  from DetachVolume_outcome [where env = env' and iid = iid and vol = vol and device = device' and force = force and vms = vms1 and tr = tr2] assms(2) a(2)
  have "vms2 = vms1(iid \<mapsto> detach_record vol (attach_record vol d req v))"
    and "\<exists>q. find (\<lambda>r. rq_Name r = vol) (vm_EBSRequests (attach_record vol d req v)) = Some q \<and> d' = rq_DeviceName q"
    by auto
  with a fresh find_replace [OF fresh(1) a(3)] detach_attach_record [OF fresh(1) a(3) fresh(2)]
  show ?thesis by (auto simp: attach_record_def fun_upd_idem)
qed

theorem attach_detach_round_trip_witness:
  "\<exists>d vms1 tr1 d' vms2 tr3. AttachVolume demo_env ''i-1'' ''vol-1'' [] ([''i-1'' \<mapsto> demo_guest], []) = (Inr d, vms1, tr1) \<and>
     DetachVolume demo_env ''i-1'' ''vol-1'' [] False (vms1, tr1) = (Inr d', vms2, tr3) \<and>
     vms2 = [''i-1'' \<mapsto> demo_guest] \<and> d' = d"
proof -
  let ?v = "attach_record ''vol-1'' ''/dev/sdf'' demo_volume_request demo_guest"
  obtain tr1 where a: "AttachVolume demo_env ''i-1'' ''vol-1'' [] ([''i-1'' \<mapsto> demo_guest], []) =
      (Inr ''/dev/sdf'', [''i-1'' \<mapsto> ?v], tr1)" using demo_attach by blast
  obtain tr3 where b: "DetachVolume demo_env ''i-1'' ''vol-1'' [] False ([''i-1'' \<mapsto> ?v], tr1) =
      (Inr ''/dev/sdf'', [''i-1'' \<mapsto> detach_record ''vol-1'' ?v], tr3)"
    using demo_detach [of ?v demo_volume_request tr1]
    by (auto simp: attach_record_def demo_volume_request_def new_request_def demo_guest_def)
  from attach_detach_round_trip [OF a b demo_env_keeps]
  have "[''i-1'' \<mapsto> detach_record ''vol-1'' ?v] = [''i-1'' \<mapsto> demo_guest]" by (simp add: demo_guest_def)
  with a b show ?thesis by metis
qed

section \<open>Guest device map\<close>

lemma name_devices_outside:
  "n \<notin> de_name ` set es \<Longrightarrow> name_devices i es m n = m n"
  by (induction i es m rule: name_devices.induct) auto

lemma name_devices_nth:
  assumes "distinct (map de_name es)" and "k < length es" and "i + k < 26"
  shows "name_devices i es m (de_name (es ! k)) = Some (guest_path (i + k))"
  using assms
proof (induction es arbitrary: i m k)
  case (Cons e es)
  show ?case
  proof (cases k)
    case 0
    with Cons.prems name_devices_outside [of "de_name e" es] show ?thesis by simp
  next
    case (Suc j)
    with Cons.prems Cons.IH [of j "Suc i" "m(de_name e \<mapsto> guest_path i)"] show ?thesis
      by (simp del: fun_upd_apply)
  qed
qed simp

text \<open>
  The guest device map follows the bus. For at most 26 devices with distinct names, and however
  the sort breaks ties, every device gets a path, no two share one, and a device with a smaller
  index gets an earlier letter.
\<close>

theorem buildDeviceMap_follows_bus:
  assumes "sorts_entries order" and "distinct (map de_name es)" and "length es \<le> 26"
    and "es = List.map_filter device_entry devices" and "a \<in> set es" and "b \<in> set es" and "de_pciIndex a < de_pciIndex b"
  shows "\<exists>i j. i < j \<and> j < length es \<and> buildDeviceMap order devices (de_name a) = Some (guest_path i) \<and>
    buildDeviceMap order devices (de_name b) = Some (guest_path j) \<and> guest_path i \<noteq> guest_path j"
proof -
  let ?s = "order es"
  have m: "mset ?s = mset es" and so: "sorted (map de_pciIndex ?s)" using assms(1) by (simp_all add: sorts_entries_def)
  have set: "set ?s = set es" and len: "length ?s = length es" using m by (metis set_mset_mset, metis size_mset)
  have dist: "distinct (map de_name ?s)" using assms(2) m by (metis mset_eq_imp_distinct_iff mset_map)
  obtain i j where ij: "i < length ?s" "?s ! i = a" "j < length ?s" "?s ! j = b"
    using assms(5,6) set by (metis in_set_conv_nth)
  have "i < j"
  proof (rule ccontr)
    assume "\<not> i < j"
    with sorted_nth_mono [OF so, of j i] ij assms(7) show False by simp
  qed
  moreover have "buildDeviceMap order devices (de_name (?s ! k)) = Some (guest_path k)" if "k < length ?s" for k
    using name_devices_nth [OF dist that, of 0 Map.empty] that len assms(3,4) by (simp add: buildDeviceMap_def)
  moreover have "guest_path i \<noteq> guest_path j"
  proof
    assume "guest_path i = guest_path j"
    then have "(of_char (char_of (97 + i) :: char) :: nat) = of_char (char_of (97 + j) :: char)" by (simp add: guest_path_def)
    with ij len assms(3) \<open>i < j\<close> show False by (simp add: of_char_of)
  qed
  ultimately show ?thesis using ij len by metis
qed

lemma sort_key_sorts: "sorts_entries (sort_key de_pciIndex)"
  by (simp add: sorts_entries_def)

definition demo_devices :: "BlockDevice list" where
  "demo_devices = [\<lparr>bd_Device = [], bd_QDev = ''device[1]/virtio-backend'', bd_NodeName = Some ''nbd-vol''\<rparr>,
     \<lparr>bd_Device = [], bd_QDev = ''device[0]/virtio-backend'', bd_NodeName = Some ''os''\<rparr>,
     \<lparr>bd_Device = ''cd'', bd_QDev = [], bd_NodeName = None\<rparr>]"

lemma demo_entries:
  "List.map_filter device_entry demo_devices = [\<lparr>de_name = ''nbd-vol'', de_pciIndex = 1\<rparr>, \<lparr>de_name = ''os'', de_pciIndex = 0\<rparr>]"
  by (simp add: demo_devices_def List.map_filter_def device_entry_def extractPCIIndex_def matched_index_def number_at_def
      decimal_eval Let_def)

theorem buildDeviceMap_follows_bus_example:
  "\<exists>i j. i < j \<and> buildDeviceMap (sort_key de_pciIndex) demo_devices ''os'' = Some (guest_path i) \<and>
    buildDeviceMap (sort_key de_pciIndex) demo_devices ''nbd-vol'' = Some (guest_path j)"
  using buildDeviceMap_follows_bus [OF sort_key_sorts, of "List.map_filter device_entry demo_devices" demo_devices
    "\<lparr>de_name = ''os'', de_pciIndex = 0\<rparr>" "\<lparr>de_name = ''nbd-vol'', de_pciIndex = 1\<rparr>"]
  by (fastforce simp: demo_entries)

end
