(* ===== verification/Gpu.thy ===== *)
theory Gpu
  imports Prelude
begin

text \<open>
  The pool of passthrough GPUs of one node (\<open>gpu/manager.go\<close>) with the VFIO binding it drives
  (\<open>gpu/bind.go\<close>) and the IOMMU group filter (\<open>gpu/iommu.go\<close>). The kernel and \<open>nvidia-smi\<close> are a
  \<open>GpuEnv\<close> over a state \<open>'k\<close>. A critical section of the manager's mutex is one step; where the code
  drops the mutex around a call to \<open>nvidia-smi\<close>, the operation is split into the steps on either side.
\<close>

section \<open>Data\<close>

record GPUDevice =
  PCIAddress :: string
  IOMMUGroup :: int
  OriginalDriver :: string
  MIGCapable :: bool

record MIGProfile =
  mp_ID :: int
  mp_Name :: string

record MIGInstance =
  GIID :: int
  CIID :: int
  MdevPath :: string
  mi_Profile :: MIGProfile

record IOMMUGroupMember =
  gm_PCIAddress :: string
  gm_Class :: string

record gpuEntry =
  Device :: GPUDevice
  ge_MIG :: "MIGInstance option"
  InstanceID :: string
  ge_Available :: bool
  groupMembers :: "IOMMUGroupMember list"
  memberDrivers :: "string \<rightharpoonup> string"

record GpuManager =
  pool :: "gpuEntry list"
  sysfsRoot :: string
  freeMIGGPUs :: "GPUDevice list"
  committedProfiles :: "string \<rightharpoonup> MIGProfile"

definition new_entry :: "GPUDevice \<Rightarrow> MIGInstance option \<Rightarrow> gpuEntry" where
  "new_entry d mig = \<lparr>Device = d, ge_MIG = mig, InstanceID = [], ge_Available = True, groupMembers = [],
     memberDrivers = Map.empty\<rparr>"

definition GpuNewManager :: "GPUDevice list \<Rightarrow> GpuManager" where
  "GpuNewManager devices = \<lparr>pool = map (\<lambda>d. new_entry d None) devices, sysfsRoot = ''/sys'', freeMIGGPUs = [],
     committedProfiles = Map.empty\<rparr>"

definition AddMIGGPU :: "GPUDevice \<Rightarrow> GpuManager \<Rightarrow> GpuManager" where
  "AddMIGGPU dev m = m\<lparr>freeMIGGPUs := freeMIGGPUs m @ [dev]\<rparr>"

definition AddMIGInstances :: "GPUDevice \<Rightarrow> MIGInstance list \<Rightarrow> GpuManager \<Rightarrow> GpuManager" where
  "AddMIGInstances device instances m = m\<lparr>pool := pool m @ map (\<lambda>i. new_entry device (Some i)) instances\<rparr>"

section \<open>The host\<close>

text \<open>\<open>h_driver\<close> reads the driver link of a device directory, empty for none; \<open>h_write\<close> writes a sysfs
  attribute; \<open>h_reset\<close> is the PCI reset, whose failure is only logged.\<close>

record 'k GpuEnv =
  h_stat :: "'k \<Rightarrow> string \<Rightarrow> go_error option"
  h_profiles :: "'k \<Rightarrow> string \<Rightarrow> MIGProfile list result"
  h_create :: "'k \<Rightarrow> string \<Rightarrow> MIGProfile \<Rightarrow> MIGInstance list result \<times> 'k"
  h_destroy :: "'k \<Rightarrow> string \<Rightarrow> go_error option \<times> 'k"
  h_group :: "'k \<Rightarrow> string \<Rightarrow> int \<Rightarrow> IOMMUGroupMember list result"
  h_driver :: "'k \<Rightarrow> string \<Rightarrow> string result"
  h_write :: "'k \<Rightarrow> string \<Rightarrow> string \<Rightarrow> go_error option \<times> 'k"
  h_reset :: "'k \<Rightarrow> string \<Rightarrow> 'k"

definition dev_path :: "string \<Rightarrow> string \<Rightarrow> string" where
  "dev_path root addr = root @ ''/bus/pci/devices/'' @ addr"

definition driver_path :: "string \<Rightarrow> string \<Rightarrow> string \<Rightarrow> string" where
  "driver_path root driver action = root @ ''/bus/pci/drivers/'' @ driver @ ''/'' @ action"

definition bindVFIO :: "'k GpuEnv \<Rightarrow> string \<Rightarrow> string \<Rightarrow> 'k \<Rightarrow> string result \<times> 'k" where
  "bindVFIO h root addr k =
     (case h_driver h k (dev_path root addr) of
        Inl err \<Rightarrow> (Inl (Wrapped (''read driver for '' @ addr @ '': '') [err] []), k)
      | Inr current \<Rightarrow>
          if current = ''vfio-pci'' then (Inr ''vfio-pci'', k)
          else
            (case (if current \<noteq> [] then h_write h k (driver_path root current ''unbind'') addr else (None, k)) of
               (Some err, k1) \<Rightarrow> (Inl (Wrapped (''unbind '' @ addr @ '' from '' @ current @ '': '') [err] []), k1)
             | (None, k1) \<Rightarrow>
                 (case h_write h k1 (dev_path root addr @ ''/driver_override'') ''vfio-pci'' of
                    (Some err, k2) \<Rightarrow> (Inl (Wrapped (''set driver_override for '' @ addr @ '': '') [err] []), k2)
                  | (None, k2) \<Rightarrow>
                      (case h_write h k2 (driver_path root ''vfio-pci'' ''bind'') addr of
                         (Some err, k3) \<Rightarrow> (Inl (Wrapped (''bind '' @ addr @ '' to vfio-pci: '') [err] []), k3)
                       | (None, k3) \<Rightarrow> (Inr current, k3)))))"

definition unbindVFIO :: "'k GpuEnv \<Rightarrow> string \<Rightarrow> string \<Rightarrow> string \<Rightarrow> 'k \<Rightarrow> go_error option \<times> 'k" where
  "unbindVFIO h root addr originalDriver k =
     (case h_driver h k (dev_path root addr) of
        Inl err \<Rightarrow> (Some (Wrapped (''read driver for '' @ addr @ '': '') [err] []), k)
      | Inr current \<Rightarrow>
          if current \<noteq> ''vfio-pci'' then (None, k)
          else
            (case h_write h k (driver_path root ''vfio-pci'' ''unbind'') addr of
               (Some err, k1) \<Rightarrow> (Some (Wrapped (''unbind '' @ addr @ '' from vfio-pci: '') [err] []), k1)
             | (None, k1) \<Rightarrow>
                 (case h_write h (h_reset h k1 addr) (dev_path root addr @ ''/driver_override'') [] of
                    (Some err, k2) \<Rightarrow> (Some (Wrapped (''clear driver_override for '' @ addr @ '': '') [err] []), k2)
                  | (None, k2) \<Rightarrow>
                      if originalDriver = [] then (None, k2)
                      else
                        (case h_write h k2 (driver_path root originalDriver ''bind'') addr of
                           (Some err, k3) \<Rightarrow>
                             (Some (Wrapped (''rebind '' @ addr @ '' to '' @ originalDriver @ '': '') [err] []), k3)
                         | (None, k3) \<Rightarrow> (None, k3)))))"

definition ascii_lower :: "char \<Rightarrow> char" where
  "ascii_lower c = (if 65 \<le> (of_char c :: nat) \<and> (of_char c :: nat) \<le> 90 then char_of ((of_char c :: nat) + 32) else c)"

definition ascii_space :: "char \<Rightarrow> bool" where
  "ascii_space c \<longleftrightarrow> (of_char c :: nat) \<in> {9, 10, 11, 12, 13, 32}"

definition go_trim_space :: "string \<Rightarrow> string" where
  "go_trim_space s = rev (dropWhile ascii_space (rev (dropWhile ascii_space s)))"

text \<open>PCI classes are ASCII, for which lower case and white space are as above.\<close>

definition isBridgeClass :: "string \<Rightarrow> bool" where
  "isBridgeClass class =
     (let s = map ascii_lower (go_trim_space class) in
      go_has_prefix (if go_has_prefix s ''0x'' then drop 2 s else s) ''06'')"

definition filterBridgeMembers :: "IOMMUGroupMember list \<Rightarrow> IOMMUGroupMember list" where
  "filterBridgeMembers members = filter (\<lambda>m. \<not> isBridgeClass (gm_Class m)) members"

section \<open>Claiming\<close>

fun first_index :: "('a \<Rightarrow> bool) \<Rightarrow> 'a list \<Rightarrow> nat option" where
  "first_index P [] = None"
| "first_index P (x # xs) = (if P x then Some 0 else map_option Suc (first_index P xs))"

type_synonym grant = "GPUDevice \<times> MIGInstance option"

definition free_slice :: "string \<Rightarrow> gpuEntry \<Rightarrow> bool" where
  "free_slice profileName e \<longleftrightarrow>
     (case ge_MIG e of None \<Rightarrow> False
      | Some mig \<Rightarrow> ge_Available e \<and> InstanceID e = [] \<and> mp_Name (mi_Profile mig) = profileName)"

definition free_whole :: "gpuEntry \<Rightarrow> bool" where
  "free_whole e \<longleftrightarrow> ge_Available e \<and> InstanceID e = [] \<and> ge_MIG e = None"

definition hold :: "string \<Rightarrow> nat \<Rightarrow> GpuManager \<Rightarrow> GpuManager" where
  "hold inst i m = m\<lparr>pool := (pool m)[i := (pool m ! i)\<lparr>InstanceID := inst\<rparr>]\<rparr>"

text \<open>A claim of a slice ends at once, granted or refused, or takes the first free GPU out of the
  list to carve it with the mutex dropped.\<close>

datatype claim_start = Granted grant | Refused go_error | Carving GPUDevice

definition claim_slice_start :: "'k GpuEnv \<Rightarrow> string \<Rightarrow> string \<Rightarrow> 'k \<Rightarrow> GpuManager \<Rightarrow> claim_start \<times> GpuManager" where
  "claim_slice_start h inst profileName k m =
     (case first_index (free_slice profileName) (pool m) of
        Some i \<Rightarrow>
          (let e = pool m ! i; path = (case ge_MIG e of Some mig \<Rightarrow> MdevPath mig | None \<Rightarrow> []) in
           case h_stat h k path of
             Some err \<Rightarrow> (Refused (Wrapped (''MIG mdev '' @ path @ '' not accessible: '') [err] []), m)
           | None \<Rightarrow> (Granted (Device e, ge_MIG e), hold inst i m))
      | None \<Rightarrow>
          (case freeMIGGPUs m of
             [] \<Rightarrow> (Refused (Text (''no MIG GPU available for profile '' @ profileName)), m)
           | dev # rest \<Rightarrow> (Carving dev, m\<lparr>freeMIGGPUs := rest\<rparr>)))"

definition carve :: "'k GpuEnv \<Rightarrow> GPUDevice \<Rightarrow> string \<Rightarrow> 'k \<Rightarrow> (MIGProfile \<times> MIGInstance list) result \<times> 'k" where
  "carve h dev profileName k =
     (case h_profiles h k (PCIAddress dev) of
        Inl err \<Rightarrow> (Inl (Wrapped (''list MIG profiles on '' @ PCIAddress dev @ '': '') [err] []), k)
      | Inr profiles \<Rightarrow>
          (case find (\<lambda>p. mp_Name p = profileName) profiles of
             None \<Rightarrow> (Inl (Text (''MIG profile '' @ profileName @ '' not supported on '' @ PCIAddress dev)), k)
           | Some chosen \<Rightarrow>
               (case h_create h k (PCIAddress dev) chosen of
                  (Inl err, k1) \<Rightarrow> (Inl (Wrapped (''create MIG instances on '' @ PCIAddress dev @ '': '') [err] []), k1)
                | (Inr instances, k1) \<Rightarrow> (Inr (chosen, instances), k1))))"

definition carve_failed :: "GPUDevice \<Rightarrow> GpuManager \<Rightarrow> GpuManager" where
  "carve_failed dev m = m\<lparr>freeMIGGPUs := dev # freeMIGGPUs m\<rparr>"

definition carve_finish :: "GPUDevice \<Rightarrow> MIGProfile \<Rightarrow> MIGInstance list \<Rightarrow> string \<Rightarrow> GpuManager \<Rightarrow> grant result \<times> GpuManager" where
  "carve_finish dev chosen instances inst m =
     (let m1 = (AddMIGInstances dev instances m)
                 \<lparr>committedProfiles := (committedProfiles m)(PCIAddress dev \<mapsto> chosen)\<rparr> in
      case first_index (\<lambda>e. PCIAddress (Device e) = PCIAddress dev \<and> ge_MIG e \<noteq> None \<and> InstanceID e = []) (pool m1) of
        Some i \<Rightarrow> (Inr (Device (pool m1 ! i), ge_MIG (pool m1 ! i)), hold inst i m1)
      | None \<Rightarrow> (Inl (Text ''internal: no MIG slice available after carving''), m1))"

text \<open>Binding the group: on a failure the members bound before are bound back.\<close>

fun unbind_all :: "'k GpuEnv \<Rightarrow> string \<Rightarrow> (string \<rightharpoonup> string) \<Rightarrow> string list \<Rightarrow> 'k \<Rightarrow> 'k" where
  "unbind_all h root drivers [] k = k"
| "unbind_all h root drivers (addr # rest) k =
     unbind_all h root drivers rest
       (snd (unbindVFIO h root addr (case drivers addr of Some d \<Rightarrow> d | None \<Rightarrow> []) k))"

fun bind_members ::
  "'k GpuEnv \<Rightarrow> string \<Rightarrow> GPUDevice \<Rightarrow> IOMMUGroupMember list \<Rightarrow> (string \<rightharpoonup> string) \<Rightarrow> string list \<Rightarrow> 'k \<Rightarrow>
   (string \<rightharpoonup> string) result \<times> 'k" where
  "bind_members h root dev [] drivers bound k = (Inr drivers, k)"
| "bind_members h root dev (m # ms) drivers bound k =
     (case bindVFIO h root (gm_PCIAddress m) k of
        (Inl err, k1) \<Rightarrow>
          (Inl (Wrapped (''bind IOMMU group member '' @ gm_PCIAddress m @ '': '') [err] []),
           unbind_all h root drivers bound k1)
      | (Inr orig, k1) \<Rightarrow>
          (let orig' = (if orig = ''vfio-pci'' \<and> gm_PCIAddress m = PCIAddress dev then OriginalDriver dev else orig)
           in bind_members h root dev ms (drivers(gm_PCIAddress m \<mapsto> orig')) (bound @ [gm_PCIAddress m]) k1))"

definition claim_whole :: "'k GpuEnv \<Rightarrow> string \<Rightarrow> 'k \<Rightarrow> GpuManager \<Rightarrow> grant result \<times> 'k \<times> GpuManager" where
  "claim_whole h inst k m =
     (case first_index free_whole (pool m) of
        None \<Rightarrow> (Inl (Text ''no GPU available''), k, m)
      | Some i \<Rightarrow>
          (let e = pool m ! i; dev = Device e in
           if IOMMUGroup dev < 0 then
             (Inl (Text (''GPU '' @ PCIAddress dev @ '' has no IOMMU group (is IOMMU enabled?)'')), k, m)
           else
             (case h_group h k (sysfsRoot m) (IOMMUGroup dev) of
                Inl err \<Rightarrow>
                  (Inl (Wrapped (''enumerate IOMMU group '' @ go_itoa (nat (IOMMUGroup dev)) @ '': '') [err] []), k, m)
              | Inr members0 \<Rightarrow>
                  (let members = filterBridgeMembers members0 in
                   case bind_members h (sysfsRoot m) dev members Map.empty [] k of
                     (Inl err, k1) \<Rightarrow> (Inl err, k1, m)
                   | (Inr drivers, k1) \<Rightarrow>
                       (Inr (dev, None), k1,
                        m\<lparr>pool := (pool m)[i := e\<lparr>InstanceID := inst, groupMembers := members,
                                                 memberDrivers := drivers\<rparr>]\<rparr>)))))"

text \<open>A whole claim with nothing interleaved.\<close>

definition GpuClaim :: "'k GpuEnv \<Rightarrow> string \<Rightarrow> string \<Rightarrow> 'k \<times> GpuManager \<Rightarrow> grant result \<times> 'k \<times> GpuManager" where
  "GpuClaim h inst profileName s =
     (case s of (k, m) \<Rightarrow>
      if profileName = [] then claim_whole h inst k m
      else
        (case claim_slice_start h inst profileName k m of
           (Granted g, m1) \<Rightarrow> (Inr g, k, m1)
         | (Refused err, m1) \<Rightarrow> (Inl err, k, m1)
         | (Carving dev, m1) \<Rightarrow>
             (case carve h dev profileName k of
                (Inl err, k1) \<Rightarrow> (Inl err, k1, carve_failed dev m1)
              | (Inr (chosen, instances), k1) \<Rightarrow>
                  (case carve_finish dev chosen instances inst m1 of (r, m2) \<Rightarrow> (r, k1, m2)))))"

section \<open>Releasing\<close>

definition ErrNoGPUClaimed :: string where "ErrNoGPUClaimed = ''no GPU claimed by instance''"

fun unbind_members :: "'k GpuEnv \<Rightarrow> string \<Rightarrow> (string \<rightharpoonup> string) \<Rightarrow> IOMMUGroupMember list \<Rightarrow> 'k \<Rightarrow> go_error option \<times> 'k" where
  "unbind_members h root drivers [] k = (None, k)"
| "unbind_members h root drivers (m # ms) k =
     (let orig = (case drivers (gm_PCIAddress m) of Some d \<Rightarrow> d | None \<Rightarrow> []) in
      if orig = ''vfio-pci'' then unbind_members h root drivers ms k
      else
        (case unbindVFIO h root (gm_PCIAddress m) orig k of
           (e1, k1) \<Rightarrow>
             (case unbind_members h root drivers ms k1 of
                (e2, k2) \<Rightarrow> (case e1 of Some e \<Rightarrow> Some e | None \<Rightarrow> e2, k2))))"

record release_result =
  rr_released :: bool
  rr_error :: "go_error option"
  rr_mig :: string

fun release_pool ::
  "'k GpuEnv \<Rightarrow> string \<Rightarrow> string \<Rightarrow> gpuEntry list \<Rightarrow> release_result \<Rightarrow> 'k \<Rightarrow> gpuEntry list \<times> release_result \<times> 'k" where
  "release_pool h root inst [] rr k = ([], rr, k)"
| "release_pool h root inst (e # es) rr k =
     (if InstanceID e \<noteq> inst then
        (case release_pool h root inst es rr k of (es', rr', k') \<Rightarrow> (e # es', rr', k'))
      else if ge_MIG e \<noteq> None then
        (case release_pool h root inst es (rr\<lparr>rr_released := True, rr_mig := PCIAddress (Device e)\<rparr>) k of
           (es', rr', k') \<Rightarrow> (e\<lparr>InstanceID := []\<rparr> # es', rr', k'))
      else
        (case unbind_members h root (memberDrivers e) (groupMembers e) k of
           (err, k1) \<Rightarrow>
             (let e' = e\<lparr>InstanceID := [], groupMembers := [], memberDrivers := Map.empty,
                         ge_Available := (if err = None then ge_Available e else False)\<rparr>;
                  rr1 = rr\<lparr>rr_released := True, rr_error := (case rr_error rr of None \<Rightarrow> err | Some x \<Rightarrow> Some x)\<rparr>
              in case release_pool h root inst es rr1 k1 of (es', rr', k') \<Rightarrow> (e' # es', rr', k'))))"

definition slice_of :: "string \<Rightarrow> gpuEntry \<Rightarrow> bool" where
  "slice_of addr e \<longleftrightarrow> PCIAddress (Device e) = addr \<and> ge_MIG e \<noteq> None"

text \<open>\<open>tryDestroyIdleMIGGPULocked\<close> up to the point where it drops the mutex: the GPU to destroy the
  slices of, if none is held.\<close>

definition destroy_start :: "string \<Rightarrow> GpuManager \<Rightarrow> GPUDevice option" where
  "destroy_start addr m =
     (if list_ex (\<lambda>e. slice_of addr e \<and> InstanceID e \<noteq> []) (pool m) then None
      else map_option Device (find (slice_of addr) (pool m)))"

definition destroy_finish :: "string \<Rightarrow> GPUDevice \<Rightarrow> go_error option \<Rightarrow> GpuManager \<Rightarrow> GpuManager" where
  "destroy_finish addr dev err m =
     (case err of
        Some e \<Rightarrow> m\<lparr>pool := map (\<lambda>e. if slice_of addr e then e\<lparr>ge_Available := False\<rparr> else e) (pool m),
                    committedProfiles := (committedProfiles m)(addr := None)\<rparr>
      | None \<Rightarrow> m\<lparr>pool := filter (\<lambda>e. \<not> slice_of addr e) (pool m),
                  committedProfiles := (committedProfiles m)(addr := None),
                  freeMIGGPUs := freeMIGGPUs m @ [dev]\<rparr>)"

text \<open>The first critical section of a release: its error, and the carved GPU it then tries to
  return to the free list.\<close>

definition release_start :: "'k GpuEnv \<Rightarrow> string \<Rightarrow> 'k \<times> GpuManager \<Rightarrow> (go_error option \<times> GPUDevice option) \<times> 'k \<times> GpuManager" where
  "release_start h inst s =
     (case s of (k, m) \<Rightarrow>
      (case release_pool h (sysfsRoot m) inst (pool m) \<lparr>rr_released = False, rr_error = None, rr_mig = []\<rparr> k of
         (pool', rr, k') \<Rightarrow>
           (let m' = m\<lparr>pool := pool'\<rparr> in
            if \<not> rr_released rr then ((Some (Wrapped [] [Sentinel ErrNoGPUClaimed] ('' '' @ inst)), None), k', m')
            else
              ((rr_error rr,
                if rr_mig rr \<noteq> [] \<and> committedProfiles m' (rr_mig rr) \<noteq> None then destroy_start (rr_mig rr) m' else None),
               k', m'))))"

definition GpuRelease :: "'k GpuEnv \<Rightarrow> string \<Rightarrow> 'k \<times> GpuManager \<Rightarrow> go_error option \<times> 'k \<times> GpuManager" where
  "GpuRelease h inst s =
     (case release_start h inst s of
        ((err, None), s') \<Rightarrow> (err, s')
      | ((err, Some dev), (k, m)) \<Rightarrow>
          (case h_destroy h k (PCIAddress dev) of
             (derr, k') \<Rightarrow> (err, k', destroy_finish (PCIAddress dev) dev derr m)))"

section \<open>Other operations\<close>

definition GpuMarkFailed :: "string \<Rightarrow> GpuManager \<Rightarrow> GpuManager" where
  "GpuMarkFailed addr m =
     (case first_index (\<lambda>e. PCIAddress (Device e) = addr \<and> ge_MIG e = None \<and> InstanceID e = []) (pool m) of
        None \<Rightarrow> m
      | Some i \<Rightarrow> m\<lparr>pool := (pool m)[i := (pool m ! i)\<lparr>ge_Available := False\<rparr>]\<rparr>)"

definition Available :: "GpuManager \<Rightarrow> nat" where
  "Available m = length [e \<leftarrow> pool m. ge_Available e \<and> InstanceID e = []]"

definition AvailableWhole :: "GpuManager \<Rightarrow> nat" where
  "AvailableWhole m = length (filter free_whole (pool m))"

definition AvailableSlices :: "string \<Rightarrow> GpuManager \<Rightarrow> nat" where
  "AvailableSlices profileName m = length (freeMIGGPUs m) + length (filter (free_slice profileName) (pool m))"

definition AllocatedCount :: "GpuManager \<Rightarrow> nat" where
  "AllocatedCount m = length [e \<leftarrow> pool m. InstanceID e \<noteq> []]"

definition TotalCount :: "GpuManager \<Rightarrow> nat" where
  "TotalCount m = length (pool m)"

record PoolEntry =
  pe_Device :: GPUDevice
  pe_MIG :: "MIGInstance option"
  pe_InstanceID :: string
  pe_Available :: bool

definition GpuSnapshot :: "GpuManager \<Rightarrow> PoolEntry list" where
  "GpuSnapshot m =
     map (\<lambda>e. \<lparr>pe_Device = Device e, pe_MIG = ge_MIG e, pe_InstanceID = InstanceID e, pe_Available = ge_Available e\<rparr>) (pool m)
     @ map (\<lambda>d. \<lparr>pe_Device = d, pe_MIG = None, pe_InstanceID = [], pe_Available = True\<rparr>) (freeMIGGPUs m)"

definition ReclaimByAddress :: "'k GpuEnv \<Rightarrow> string \<Rightarrow> string \<Rightarrow> 'k \<Rightarrow> GpuManager \<Rightarrow> go_error option \<times> GpuManager" where
  "ReclaimByAddress h addr inst k m =
     (case first_index (\<lambda>e. PCIAddress (Device e) = addr) (pool m) of
        None \<Rightarrow> (Some (Text (''GPU '' @ addr @ '' not found in pool'')), m)
      | Some i \<Rightarrow>
          (let e = pool m ! i in
           if InstanceID e = inst then (None, m)
           else if InstanceID e \<noteq> [] then (Some (Text (''GPU '' @ addr @ '' already claimed by '' @ InstanceID e)), m)
           else
             (let members = filterBridgeMembers
                    (case h_group h k (sysfsRoot m) (IOMMUGroup (Device e)) of
                       Inl err \<Rightarrow> [\<lparr>gm_PCIAddress = addr, gm_Class = []\<rparr>] | Inr ms \<Rightarrow> ms);
                  drivers = (if addr \<in> gm_PCIAddress ` set members
                             then [addr \<mapsto> OriginalDriver (Device e)] else Map.empty)
              in (None, m\<lparr>pool := (pool m)[i := e\<lparr>InstanceID := inst, groupMembers := members,
                                                memberDrivers := drivers\<rparr>]\<rparr>))))"

definition ReclaimByMdev :: "'k GpuEnv \<Rightarrow> string \<Rightarrow> string \<Rightarrow> 'k \<Rightarrow> GpuManager \<Rightarrow> go_error option \<times> GpuManager" where
  "ReclaimByMdev h mdev inst k m =
     (case first_index (\<lambda>e. map_option MdevPath (ge_MIG e) = Some mdev) (pool m) of
        None \<Rightarrow> (Some (Text (''MIG instance '' @ mdev @ '' not found in pool'')), m)
      | Some i \<Rightarrow>
          (let e = pool m ! i in
           if InstanceID e = inst then (None, m)
           else if InstanceID e \<noteq> [] then (Some (Text (''MIG instance '' @ mdev @ '' already claimed by '' @ InstanceID e)), m)
           else
             (case h_stat h k mdev of
                Some err \<Rightarrow>
                  (Some (Wrapped (''MIG mdev '' @ mdev @ '' not accessible (MIG mode may have been disabled): '') [err] []), m)
              | None \<Rightarrow> (None, hold inst i m))))"

end
