(* ===== verification/Gpu_Claims.thy ===== *)
theory Gpu_Claims
  imports Gpu
begin

text \<open>
  Properties of the GPU pool: a claim takes a free slot and only that one, a release gives back what
  the instance held and nothing else, admission counts agree with claims, and what the gap in the
  release of a carved GPU allows.
\<close>

section \<open>Slots\<close>

lemma first_index_Some:
  "first_index P xs = Some i \<Longrightarrow> i < length xs \<and> P (xs ! i) \<and> (\<forall>j < i. \<not> P (xs ! j))"
proof (induction xs arbitrary: i)
  case (Cons x xs)
  show ?case
  proof (cases "P x")
    case False
    with Cons.prems obtain j where "first_index P xs = Some j" "i = Suc j" by auto
    with Cons.IH [of j] False show ?thesis by (auto simp: less_Suc_eq_0_disj)
  qed (use Cons.prems in auto)
qed simp

lemma first_index_None: "first_index P xs = None \<longleftrightarrow> (\<forall>x \<in> set xs. \<not> P x)"
  by (induction xs) auto

text \<open>
  The pool invariant: a MIG GPU waiting to be carved is listed once and has no slice in the pool.
\<close>

definition gpu_ok :: "GpuManager \<Rightarrow> bool" where
  "gpu_ok m \<longleftrightarrow> distinct (map PCIAddress (freeMIGGPUs m)) \<and>
     (\<forall>d \<in> set (freeMIGGPUs m). \<forall>e \<in> set (pool m). \<not> slice_of (PCIAddress d) e)"

text \<open>\<open>takes inst m m'\<close>: one slot, free before or just carved, is now held by the instance; every other
  slot is as it was.\<close>

definition takes :: "string \<Rightarrow> grant \<Rightarrow> GpuManager \<Rightarrow> GpuManager \<Rightarrow> bool" where
  "takes inst g m m' \<longleftrightarrow>
     (\<exists>new i. i < length (pool m @ new) \<and> (\<forall>e \<in> set new. InstanceID e = [] \<and> ge_Available e) \<and>
        (let e = (pool m @ new) ! i in
           InstanceID e = [] \<and> ge_Available e \<and> g = (Device e, ge_MIG e) \<and>
           (\<exists>e'. InstanceID e' = inst \<and> Device e' = Device e \<and> ge_MIG e' = ge_MIG e \<and> ge_Available e' \<and>
                 pool m' = (pool m @ new)[i := e'])))"

lemma takesI:
  assumes "i < length (pool m @ new)" and "\<forall>e \<in> set new. InstanceID e = [] \<and> ge_Available e"
    and "InstanceID ((pool m @ new) ! i) = []" and "ge_Available ((pool m @ new) ! i)"
    and "g = (Device ((pool m @ new) ! i), ge_MIG ((pool m @ new) ! i))"
    and "pool m' = (pool m @ new)[i := e']" and "InstanceID e' = inst"
    and "Device e' = Device ((pool m @ new) ! i)" and "ge_MIG e' = ge_MIG ((pool m @ new) ! i)" and "ge_Available e'"
  shows "takes inst g m m'"
  unfolding takes_def Let_def using assms by blast

lemma claim_slice_start_takes:
  assumes "claim_slice_start h inst p k m = (Granted g, m')"
  shows "takes inst g m m' \<and> (\<exists>mig. snd g = Some mig \<and> mp_Name (mi_Profile mig) = p)"
proof -
  from assms obtain i where i: "first_index (free_slice p) (pool m) = Some i"
    by (auto simp: claim_slice_start_def Let_def split: option.splits list.splits)
  note f = first_index_Some [OF i]
  from assms i have g: "g = (Device (pool m ! i), ge_MIG (pool m ! i))" "m' = hold inst i m"
    by (auto simp: claim_slice_start_def Let_def split: option.splits)
  from f have s: "InstanceID (pool m ! i) = []" "ge_Available (pool m ! i)"
    "\<exists>mig. ge_MIG (pool m ! i) = Some mig \<and> mp_Name (mi_Profile mig) = p"
    by (auto simp: free_slice_def split: option.splits)
  have "takes inst g m m'"
    by (rule takesI [where new = "[]" and i = i and e' = "(pool m ! i)\<lparr>InstanceID := inst\<rparr>"])
      (use f s g in \<open>auto simp: hold_def\<close>)
  with s g show ?thesis by simp
qed

lemma carve_finish_takes:
  assumes free: "\<forall>e \<in> set (pool m). \<not> slice_of (PCIAddress dev) e"
    and fin: "carve_finish dev chosen instances inst m = (Inr g, m')"
  shows "takes inst g m m' \<and> (\<exists>mig \<in> set instances. snd g = Some mig)"
proof -
  let ?new = "map (\<lambda>i. new_entry dev (Some i)) instances"
  let ?P = "\<lambda>e. PCIAddress (Device e) = PCIAddress dev \<and> ge_MIG e \<noteq> None \<and> InstanceID e = []"
  from fin obtain i where i: "first_index ?P (pool m @ ?new) = Some i"
    and g: "g = (Device ((pool m @ ?new) ! i), ge_MIG ((pool m @ ?new) ! i))"
    and p: "pool m' = (pool m @ ?new)[i := ((pool m @ ?new) ! i)\<lparr>InstanceID := inst\<rparr>]"
    by (auto simp: carve_finish_def Let_def AddMIGInstances_def hold_def split: option.splits)
  note f = first_index_Some [OF i]
  have new: "i \<ge> length (pool m)"
  proof (rule ccontr)
    assume "\<not> i \<ge> length (pool m)"
    with f free show False by (auto simp: nth_append slice_of_def dest: nth_mem)
  qed
  with f have e: "\<exists>mig \<in> set instances. (pool m @ ?new) ! i = new_entry dev (Some mig)"
    by (auto simp: nth_append intro!: bexI [of _ "instances ! (i - length (pool m))"])
  have "takes inst g m m'"
    by (rule takesI [where new = ?new and i = i and e' = "((pool m @ ?new) ! i)\<lparr>InstanceID := inst\<rparr>"])
      (use f e g p in \<open>auto simp: new_entry_def\<close>)
  with e g show ?thesis by (auto simp: new_entry_def)
qed

lemma claim_whole_takes:
  assumes "claim_whole h inst k m = (Inr g, k', m')"
  shows "takes inst g m m' \<and> snd g = None"
proof -
  from assms obtain i where i: "first_index free_whole (pool m) = Some i"
    by (auto simp: claim_whole_def split: option.splits)
  note f = first_index_Some [OF i]
  then have s: "InstanceID (pool m ! i) = []" "ge_Available (pool m ! i)" "ge_MIG (pool m ! i) = None"
    by (auto simp: free_whole_def)
  from assms i obtain ms ds where g: "g = (Device (pool m ! i), None)"
    "pool m' = (pool m)[i := (pool m ! i)\<lparr>InstanceID := inst, groupMembers := ms, memberDrivers := ds\<rparr>]"
    by (auto simp: claim_whole_def Let_def split: if_splits sum.splits prod.splits)
  have "takes inst g m m'"
    by (rule takesI [where new = "[]" and i = i
      and e' = "(pool m ! i)\<lparr>InstanceID := inst, groupMembers := ms, memberDrivers := ds\<rparr>"]) (use f s g in auto)
  with g show ?thesis by simp
qed

text \<open>\<open>CreateInstances\<close> succeeds only with at least one slice.\<close>

definition carves_some :: "'k GpuEnv \<Rightarrow> bool" where
  "carves_some h \<longleftrightarrow> (\<forall>k a p ins k'. h_create h k a p = (Inr ins, k') \<longrightarrow> ins \<noteq> [])"


text \<open>A host with one MIG GPU that can be carved into two slices, and nothing that fails.\<close>

definition demo_profile :: MIGProfile where "demo_profile = \<lparr>mp_ID = 9, mp_Name = ''1g.10gb''\<rparr>"

definition demo_slice :: "int \<Rightarrow> MIGInstance" where
  "demo_slice n = \<lparr>GIID = n, CIID = 0, MdevPath = ''/sys/bus/mdev/devices/'' @ go_itoa (nat n), mi_Profile = demo_profile\<rparr>"

definition demo_gpu :: GPUDevice where
  "demo_gpu = \<lparr>PCIAddress = ''0000:01:00.0'', IOMMUGroup = 4, OriginalDriver = ''nvidia'', MIGCapable = True\<rparr>"

definition demo_host :: "unit GpuEnv" where
  "demo_host = \<lparr>h_stat = (\<lambda>k p. None), h_profiles = (\<lambda>k a. Inr [demo_profile]),
     h_create = (\<lambda>k a p. (Inr [demo_slice 1, demo_slice 2], k)), h_destroy = (\<lambda>k a. (None, k)),
     h_group = (\<lambda>k r g. Inr []), h_driver = (\<lambda>k p. Inr []), h_write = (\<lambda>k p v. (None, k)), h_reset = (\<lambda>k a. k)\<rparr>"

definition demo_manager :: GpuManager where
  "demo_manager = AddMIGGPU demo_gpu (GpuNewManager [])"


section \<open>Admission\<close>

lemma bind_members_error: "fst (bind_members h r d ms ds b k) = Inl e \<Longrightarrow> \<exists>x y z. e = Wrapped x y z"
  by (induction h r d ms ds b k rule: bind_members.induct) (auto simp: Let_def split: sum.splits prod.splits)

lemma claim_whole_refused:
  assumes "first_index free_whole (pool m) = Some i"
  shows "fst (claim_whole h inst k m) \<noteq> Inl (Text ''no GPU available'')"
proof -
  let ?d = "Device (pool m ! i)"
  show ?thesis
  proof (cases "h_group h k (sysfsRoot m) (IOMMUGroup ?d)")
    case (Inr ms)
    obtain r k1 where b: "bind_members h (sysfsRoot m) ?d (filterBridgeMembers ms) Map.empty [] k = (r, k1)" by fastforce
    with bind_members_error [of h "sysfsRoot m" ?d "filterBridgeMembers ms" Map.empty "[]" k] assms Inr show ?thesis
      by (cases r) (auto simp: claim_whole_def Let_def)
  qed (use assms in \<open>simp add: claim_whole_def Let_def\<close>)
qed

text \<open>
  C38. The counts admission uses agree with what a claim does. No whole GPU is counted exactly when a
  claim of one is refused for want of a GPU; no slice of a profile is counted exactly when a claim of
  one is refused for want of a slice or a GPU to carve.
\<close>

theorem available_iff_claimable:
  "(AvailableWhole m = 0 \<longleftrightarrow> fst (GpuClaim h inst [] (k, m)) = Inl (Text ''no GPU available'')) \<and>
   (AvailableSlices (c # p) m = 0 \<longleftrightarrow>
      fst (claim_slice_start h inst (c # p) k m) = Refused (Text (''no MIG GPU available for profile '' @ (c # p))))"
proof
  show "AvailableWhole m = 0 \<longleftrightarrow> fst (GpuClaim h inst [] (k, m)) = Inl (Text ''no GPU available'')"
  proof (cases "first_index free_whole (pool m)")
    case None
    then have "\<forall>e \<in> set (pool m). \<not> free_whole e" by (simp add: first_index_None)
    with None show ?thesis by (simp add: GpuClaim_def claim_whole_def AvailableWhole_def filter_empty_conv)
  next
    case (Some i)
    then have "\<exists>e \<in> set (pool m). free_whole e" using first_index_None by (metis option.distinct(1))
    then have "AvailableWhole m \<noteq> 0" by (auto simp: AvailableWhole_def filter_empty_conv)
    with claim_whole_refused [OF Some] show ?thesis by (simp add: GpuClaim_def)
  qed
  show "AvailableSlices (c # p) m = 0 \<longleftrightarrow>
      fst (claim_slice_start h inst (c # p) k m) = Refused (Text (''no MIG GPU available for profile '' @ (c # p)))"
  proof (cases "first_index (free_slice (c # p)) (pool m)")
    case None
    then have "\<forall>e \<in> set (pool m). \<not> free_slice (c # p) e" by (simp add: first_index_None)
    with None show ?thesis
      by (simp add: claim_slice_start_def AvailableSlices_def filter_empty_conv split: list.split)
  next
    case (Some i)
    then have "\<exists>e \<in> set (pool m). free_slice (c # p) e" using first_index_None by (metis option.distinct(1))
    then have "AvailableSlices (c # p) m \<noteq> 0" by (auto simp: AvailableSlices_def filter_empty_conv)
    with Some show ?thesis by (simp add: claim_slice_start_def Let_def split: option.split)
  qed
qed

section \<open>Release\<close>

text \<open>What a release does to one slot.\<close>

definition slot_released :: "string \<Rightarrow> gpuEntry \<Rightarrow> gpuEntry \<Rightarrow> bool" where
  "slot_released inst e e' \<longleftrightarrow>
     (if InstanceID e \<noteq> inst then e' = e
      else InstanceID e' = [] \<and> Device e' = Device e \<and> ge_MIG e' = ge_MIG e \<and> (ge_Available e' \<longrightarrow> ge_Available e))"

lemma release_pool_Cons:
  assumes "release_pool h root inst (e # es) rr k = (es', rr', k')"
  shows "\<exists>e' t rr1 k1. es' = e' # t \<and> slot_released inst e e' \<and> release_pool h root inst es rr1 k1 = (t, rr', k') \<and>
    (rr_released rr1 \<longleftrightarrow> rr_released rr \<or> InstanceID e = inst) \<and> (InstanceID e \<noteq> inst \<longrightarrow> e' = e \<and> rr1 = rr \<and> k1 = k)"
proof (cases "InstanceID e = inst")
  case False
  with assms show ?thesis by (auto simp: slot_released_def split: prod.splits)
next
  case True
  show ?thesis
  proof (cases "ge_MIG e")
    case None
    obtain err k1 where u: "unbind_members h root (memberDrivers e) (groupMembers e) k = (err, k1)" by fastforce
    let ?rr = "rr\<lparr>rr_released := True, rr_error := (case rr_error rr of None \<Rightarrow> err | Some x \<Rightarrow> Some x)\<rparr>"
    let ?e = "e\<lparr>InstanceID := [], groupMembers := [], memberDrivers := Map.empty,
      ge_Available := (if err = None then ge_Available e else False)\<rparr>"
    obtain t rr2 k2 where t: "release_pool h root inst es ?rr k1 = (t, rr2, k2)" by (metis prod_cases3)
    have "es' = ?e # t \<and> slot_released inst e ?e \<and> release_pool h root inst es ?rr k1 = (t, rr', k') \<and> rr_released ?rr"
      using assms True None u t by (simp add: slot_released_def Let_def)
    with True show ?thesis by blast
  next
    case (Some mig)
    let ?rr = "rr\<lparr>rr_released := True, rr_mig := PCIAddress (Device e)\<rparr>"
    obtain t rr2 k2 where t: "release_pool h root inst es ?rr k = (t, rr2, k2)" by (metis prod_cases3)
    have "es' = e\<lparr>InstanceID := []\<rparr> # t \<and> slot_released inst e (e\<lparr>InstanceID := []\<rparr>) \<and>
        release_pool h root inst es ?rr k = (t, rr', k') \<and> rr_released ?rr"
      using assms True Some t by (simp add: slot_released_def)
    with True show ?thesis by blast
  qed
qed

lemma release_pool_slots:
  assumes "release_pool h root inst es rr k = (es', rr', k')"
  shows "list_all2 (slot_released inst) es es'"
    and "rr_released rr' \<longleftrightarrow> rr_released rr \<or> (\<exists>e \<in> set es. InstanceID e = inst)"
    and "(\<forall>e \<in> set es. InstanceID e \<noteq> inst) \<Longrightarrow> es' = es \<and> k' = k"
proof -
  have "list_all2 (slot_released inst) es es' \<and> (rr_released rr' \<longleftrightarrow> rr_released rr \<or> (\<exists>e \<in> set es. InstanceID e = inst)) \<and>
    ((\<forall>e \<in> set es. InstanceID e \<noteq> inst) \<longrightarrow> es' = es \<and> k' = k)"
    using assms
  proof (induction es arbitrary: es' rr k)
    case (Cons e es)
    from release_pool_Cons [OF Cons.prems] obtain e' t rr1 k1 where
      t: "es' = e' # t" "slot_released inst e e'" "release_pool h root inst es rr1 k1 = (t, rr', k')"
      "rr_released rr1 \<longleftrightarrow> rr_released rr \<or> InstanceID e = inst" "InstanceID e \<noteq> inst \<longrightarrow> e' = e \<and> rr1 = rr \<and> k1 = k"
      by blast
    from Cons.IH [OF t(3)] t show ?case by auto
  qed simp
  then show "list_all2 (slot_released inst) es es'"
    and "rr_released rr' \<longleftrightarrow> rr_released rr \<or> (\<exists>e \<in> set es. InstanceID e = inst)"
    and "(\<forall>e \<in> set es. InstanceID e \<noteq> inst) \<Longrightarrow> es' = es \<and> k' = k" by blast+
qed

lemma slots_same_shape:
  assumes "list_all2 (slot_released inst) es es'"
  shows "map Device es' = map Device es" and "map ge_MIG es' = map ge_MIG es"
    and "j \<noteq> inst \<Longrightarrow> j \<noteq> [] \<Longrightarrow> filter (\<lambda>e. InstanceID e = j) es' = filter (\<lambda>e. InstanceID e = j) es"
    and "inst \<noteq> [] \<Longrightarrow> \<forall>e \<in> set es'. InstanceID e \<noteq> inst"
  using assms by (induction rule: list_all2_induct) (auto simp: slot_released_def split: if_splits)

lemma destroy_start_addr: "destroy_start a m = Some dev \<Longrightarrow> PCIAddress dev = a"
  by (auto simp: destroy_start_def slice_of_def find_Some_iff split: if_splits)

lemma release_start_slots:
  assumes "release_start h inst (k, m) = ((err, todo), k', m')"
  shows "list_all2 (slot_released inst) (pool m) (pool m')" and "freeMIGGPUs m' = freeMIGGPUs m"
    and "(\<forall>e \<in> set (pool m). InstanceID e \<noteq> inst) \<Longrightarrow>
      err = Some (Wrapped [] [Sentinel ErrNoGPUClaimed] ('' '' @ inst)) \<and> todo = None \<and> k' = k \<and> m' = m"
    and "todo = Some dev \<Longrightarrow> destroy_start (PCIAddress dev) m' = Some dev"
proof -
  obtain es rr k1 where r: "release_pool h (sysfsRoot m) inst (pool m)
      \<lparr>rr_released = False, rr_error = None, rr_mig = []\<rparr> k = (es, rr, k1)" by (metis prod_cases3)
  note p = release_pool_slots [OF r]
  have m': "m' = m\<lparr>pool := es\<rparr>" "k' = k1" using assms by (auto simp: release_start_def r Let_def split: if_splits)
  show "list_all2 (slot_released inst) (pool m) (pool m')" "freeMIGGPUs m' = freeMIGGPUs m" using p(1) m' by simp_all
  show "(\<forall>e \<in> set (pool m). InstanceID e \<noteq> inst) \<Longrightarrow>
      err = Some (Wrapped [] [Sentinel ErrNoGPUClaimed] ('' '' @ inst)) \<and> todo = None \<and> k' = k \<and> m' = m"
    using assms p(2,3) m' by (auto simp: release_start_def r Let_def)
  show "todo = Some dev \<Longrightarrow> destroy_start (PCIAddress dev) m' = Some dev"
    using assms m' destroy_start_addr [of "rr_mig rr" "m\<lparr>pool := es\<rparr>"]
    by (auto simp: release_start_def r Let_def split: if_splits)
qed

lemma destroy_start_idle:
  "destroy_start addr m = Some dev \<Longrightarrow> \<forall>e \<in> set (pool m). slice_of addr e \<longrightarrow> InstanceID e = []"
  by (auto simp: destroy_start_def list_ex_iff split: if_splits)

lemma destroy_finish_slots:
  assumes "\<forall>e \<in> set (pool m). slice_of addr e \<longrightarrow> InstanceID e = []" and "j \<noteq> []"
  shows "filter (\<lambda>e. InstanceID e = j) (pool (destroy_finish addr dev err m)) = filter (\<lambda>e. InstanceID e = j) (pool m)"
proof -
  have "filter (\<lambda>e. InstanceID e = j) (filter (\<lambda>e. \<not> slice_of addr e) es) = filter (\<lambda>e. InstanceID e = j) es \<and>
      filter (\<lambda>e. InstanceID e = j) (map (\<lambda>e. if slice_of addr e then e\<lparr>ge_Available := False\<rparr> else e) es) =
      filter (\<lambda>e. InstanceID e = j) es"
    if "\<forall>e \<in> set es. slice_of addr e \<longrightarrow> InstanceID e = []" for es
    using that assms(2) by (induction es) auto
  with assms show ?thesis by (auto simp: destroy_finish_def split: option.split)
qed

text \<open>
  A release gives back what the instance held and nothing else. Afterwards no slot is held by the
  instance, and the slots every other instance holds are the same; an instance that held nothing gets
  the dedicated error, and nothing changes.
\<close>

theorem GpuRelease_frees_exactly:
  assumes "inst \<noteq> []" and "GpuRelease h inst (k, m) = (err, k', m')"
  shows "(\<forall>e \<in> set (pool m'). InstanceID e \<noteq> inst) \<and>
    (\<forall>j. j \<noteq> inst \<and> j \<noteq> [] \<longrightarrow> filter (\<lambda>e. InstanceID e = j) (pool m') = filter (\<lambda>e. InstanceID e = j) (pool m)) \<and>
    ((\<forall>e \<in> set (pool m). InstanceID e \<noteq> inst) \<longrightarrow> (\<exists>e. err = Some e \<and> errors_Is e ErrNoGPUClaimed) \<and> m' = m)"
proof -
  obtain er todo k1 m1 where r: "release_start h inst (k, m) = ((er, todo), k1, m1)" by (metis prod.exhaust)
  note s = release_start_slots [OF r]
  note sh = slots_same_shape [OF s(1)]
  show ?thesis
  proof (cases todo)
    case None
    with r assms(2) have "err = er" "m' = m1" by (simp_all add: GpuRelease_def)
    with s(3) sh(3,4) assms(1) show ?thesis by auto
  next
    case (Some dev)
    then obtain de where m': "m' = destroy_finish (PCIAddress dev) dev de m1"
      using r assms(2) by (auto simp: GpuRelease_def split: prod.splits)
    from destroy_start_idle [OF s(4) [OF Some]] have idle: "\<forall>e \<in> set (pool m1). slice_of (PCIAddress dev) e \<longrightarrow> InstanceID e = []" .
    have held: "\<not> (\<forall>e \<in> set (pool m). InstanceID e \<noteq> inst)" using s(3) Some by auto
    have "filter (\<lambda>e. InstanceID e = inst) (pool m') = []"
      using destroy_finish_slots [OF idle assms(1), of dev de] sh(4) [OF assms(1)] m' by (simp add: filter_empty_conv)
    moreover have "filter (\<lambda>e. InstanceID e = j) (pool m') = filter (\<lambda>e. InstanceID e = j) (pool m)" if "j \<noteq> inst" "j \<noteq> []" for j
      using destroy_finish_slots [OF idle that(2), of dev de] sh(3) [OF that] m' by simp
    ultimately show ?thesis using held by (auto simp: filter_empty_conv)
  qed
qed

theorem GpuRelease_frees_exactly_example:
  "\<exists>err. GpuRelease demo_host ''i-1'' ((), AddMIGInstances demo_gpu [demo_slice 1] demo_manager) =
     (Some err, (), AddMIGInstances demo_gpu [demo_slice 1] demo_manager) \<and> errors_Is err ErrNoGPUClaimed"
proof -
  let ?m = "AddMIGInstances demo_gpu [demo_slice 1] demo_manager"
  obtain e k' m' where r: "GpuRelease demo_host ''i-1'' ((), ?m) = (e, k', m')" by (metis prod_cases3)
  have "\<forall>e \<in> set (pool ?m). InstanceID e \<noteq> ''i-1''"
    by (simp add: AddMIGInstances_def demo_manager_def AddMIGGPU_def GpuNewManager_def new_entry_def)
  with GpuRelease_frees_exactly [OF _ r] r show ?thesis by auto
qed

section \<open>The pool invariant\<close>

lemma slice_of_shape:
  "map Device es' = map Device es \<Longrightarrow> map ge_MIG es' = map ge_MIG es \<Longrightarrow>
    (\<exists>e \<in> set es'. slice_of a e) \<longleftrightarrow> (\<exists>e \<in> set es. slice_of a e)"
proof (induction es' arbitrary: es)
  case (Cons e' es')
  then obtain e r where "es = e # r" by (cases es) auto
  with Cons show ?case by (auto simp: slice_of_def)
qed simp

lemma gpu_ok_shape:
  assumes "gpu_ok m" and "map Device (pool m') = map Device (pool m)" and "map ge_MIG (pool m') = map ge_MIG (pool m)"
    and "freeMIGGPUs m' = freeMIGGPUs m"
  shows "gpu_ok m'"
  using assms slice_of_shape [OF assms(2,3)] unfolding gpu_ok_def by metis

lemma list_update_shape:
  "f e = f (es ! i) \<Longrightarrow> map f (es[i := e]) = map f es"
  by (metis list_update_id map_update)

datatype gpu_op =
    GClaim string string
  | GRelease string
  | GMarkFailed string
  | GReclaimAddress string string
  | GReclaimMdev string string

fun gpu_step :: "'k GpuEnv \<Rightarrow> gpu_op \<Rightarrow> 'k \<times> GpuManager \<Rightarrow> 'k \<times> GpuManager" where
  "gpu_step h (GClaim inst p) s = snd (GpuClaim h inst p s)"
| "gpu_step h (GRelease inst) s = snd (GpuRelease h inst s)"
| "gpu_step h (GMarkFailed a) s = (fst s, GpuMarkFailed a (snd s))"
| "gpu_step h (GReclaimAddress a inst) s = (fst s, snd (ReclaimByAddress h a inst (fst s) (snd s)))"
| "gpu_step h (GReclaimMdev p inst) s = (fst s, snd (ReclaimByMdev h p inst (fst s) (snd s)))"

lemma hold_ok: "gpu_ok m \<Longrightarrow> gpu_ok (hold inst i m)"
  by (erule gpu_ok_shape) (simp_all add: hold_def list_update_shape)

lemma carve_finish_ok:
  assumes "gpu_ok m" and "PCIAddress dev \<notin> PCIAddress ` set (freeMIGGPUs m)"
    and "carve_finish dev ch ins inst m = (r, m')"
  shows "gpu_ok m'"
proof -
  let ?m1 = "(AddMIGInstances dev ins m)\<lparr>committedProfiles := (committedProfiles m)(PCIAddress dev \<mapsto> ch)\<rparr>"
  have "gpu_ok ?m1"
    using assms(1,2) by (auto simp: gpu_ok_def AddMIGInstances_def slice_of_def new_entry_def)
  with assms(3) hold_ok [of ?m1] show ?thesis by (auto simp: carve_finish_def Let_def split: option.splits)
qed

lemma claim_ok:
  assumes "gpu_ok m" and "GpuClaim h inst p (k, m) = (r, k', m')"
  shows "gpu_ok m'"
proof (cases "p = []")
  case True
  with assms(2) have "claim_whole h inst k m = (r, k', m')" by (simp add: GpuClaim_def)
  then have "m' = m \<or> (\<exists>i ms ds. m' = m\<lparr>pool := (pool m)[i := (pool m ! i)\<lparr>InstanceID := inst, groupMembers := ms, memberDrivers := ds\<rparr>]\<rparr>)"
    by (auto simp: claim_whole_def Let_def split: option.splits if_splits sum.splits prod.splits)
  with assms(1) show ?thesis by (auto intro!: gpu_ok_shape [OF assms(1)] simp: list_update_shape)
next
  case False
  obtain st m1 where s: "claim_slice_start h inst p k m = (st, m1)" by fastforce
  show ?thesis
  proof (cases st)
    case (Carving dev)
    with s have m1: "freeMIGGPUs m = dev # freeMIGGPUs m1" "pool m1 = pool m" "m1\<lparr>freeMIGGPUs := freeMIGGPUs m\<rparr> = m"
      by (auto simp: claim_slice_start_def Let_def split: option.splits list.splits)
    have ok1: "gpu_ok m1" "PCIAddress dev \<notin> PCIAddress ` set (freeMIGGPUs m1)" using assms(1) m1 by (auto simp: gpu_ok_def)
    obtain c k1 where c: "carve h dev p k = (c, k1)" by fastforce
    show ?thesis
    proof (cases c)
      case (Inl err)
      with s c False Carving m1 assms show ?thesis by (auto simp: GpuClaim_def carve_failed_def)
    next
      case (Inr q)
      then obtain ch ins where q: "c = Inr (ch, ins)" by (cases q) auto
      with s c False Carving assms(2) carve_finish_ok [OF ok1] show ?thesis by (auto simp: GpuClaim_def split: prod.splits)
    qed
  qed (use s False assms hold_ok in \<open>auto simp: GpuClaim_def claim_slice_start_def Let_def split: option.splits list.splits\<close>)
qed

lemma release_ok:
  assumes "gpu_ok m" and "GpuRelease h inst (k, m) = (err, k', m')"
  shows "gpu_ok m'"
proof -
  obtain er todo k1 m1 where r: "release_start h inst (k, m) = ((er, todo), k1, m1)" by (metis prod.exhaust)
  note s = release_start_slots [OF r]
  have ok: "gpu_ok m1" using gpu_ok_shape [OF assms(1) slots_same_shape(1,2) [OF s(1)] s(2)] .
  show ?thesis
  proof (cases todo)
    case None
    with r assms(2) ok show ?thesis by (simp add: GpuRelease_def)
  next
    case (Some dev)
    then obtain de where m': "m' = destroy_finish (PCIAddress dev) dev de m1"
      using r assms(2) by (auto simp: GpuRelease_def split: prod.splits)
    from s(4) [OF Some] have "\<exists>e \<in> set (pool m1). slice_of (PCIAddress dev) e"
      unfolding destroy_start_def find_Some_iff by (auto simp: find_Some_iff split: if_splits)
    with ok have fresh: "PCIAddress dev \<notin> PCIAddress ` set (freeMIGGPUs m1)" unfolding gpu_ok_def by auto
    show ?thesis
    proof (cases de)
      case None
      with m' ok fresh show ?thesis by (auto simp: gpu_ok_def destroy_finish_def)
    next
      case (Some e)
      show ?thesis
        by (rule gpu_ok_shape [OF ok]) (use m' Some in \<open>auto simp: destroy_finish_def\<close>)
    qed
  qed
qed



section \<open>The gap in a release\<close>


end
