(* ===== verification/Kvlease.thy ===== *)
theory Kvlease
  imports Kvbuckets
begin

text \<open>
  Leader election on one key of a bucket, \<open>foundation/state/kvlease\<close>: the lease (\<open>lease.go\<close>) and the
  opening of its bucket (\<open>bucket.go\<close>).

  A lease has a mutex, and its renewals run in goroutines of their own, one per acquisition. What a
  goroutine does between two acquisitions of the mutex is one step here, so that the interleavings
  of a renewal with \<open>TryAcquire\<close> and \<open>Release\<close> can be told apart: a \<open>node\<close> is a lease with its
  renewal goroutines, a goroutine is in one of the phases of \<open>renew_phase\<close>. The key's expiry and
  what other nodes do to it are interference on the bucket.
\<close>

section \<open>Leases\<close>

text \<open>Durations are nanoseconds; quoted names and durations in error texts are left out.\<close>

definition heldError :: "string \<Rightarrow> go_error" where
  "heldError holder = Text (''kvlease: lease held by '' @ holder)"

record 'w LeaseConfig =
  lc_Name :: string
  lc_Bucket :: "('w \<Rightarrow> ('w, string) kv result \<times> 'w) option"
  lc_Key :: string
  lc_Holder :: string
  lc_TTL :: int
  lc_Renew :: int
  lc_Retry :: int
  lc_OnGained :: "('w \<Rightarrow> go_error option \<times> 'w) option"
  lc_OnLost :: "('w \<Rightarrow> 'w) option"

text \<open>\<open>l_stop\<close> names the goroutine the stored cancel function stops; \<open>l_lost\<close> is whether the channel
  of \<open>Lost\<close> is closed.\<close>

record 'w Lease =
  l_cfg :: "'w LeaseConfig"
  l_kv :: "('w, string) kv option"
  l_rev :: nat
  l_held :: bool
  l_stop :: "nat option"
  l_lost :: bool

definition NewLease :: "'w LeaseConfig \<Rightarrow> 'w Lease result" where
  "NewLease cfg =
     (case lc_Bucket cfg of
        None \<Rightarrow> Inl (Text ''kvlease: Bucket is required'')
      | Some b \<Rightarrow>
          if lc_Key cfg = [] then Inl (Text ''kvlease: Key is required'')
          else if lc_Holder cfg = [] then Inl (Text ''kvlease: Holder is required'')
          else if lc_TTL cfg \<le> 0 then Inl (Text ''kvlease: TTL must be positive'')
          else if lc_Renew cfg \<le> 0 \<or> int64_of (lc_Renew cfg * 2) > lc_TTL cfg
          then Inl (Text ''kvlease: Renew must be in (0, TTL/2]'')
          else
            (let cfg1 = (if lc_Name cfg = [] then cfg\<lparr>lc_Name := lc_Key cfg\<rparr> else cfg);
                 cfg2 = (if lc_Retry cfg1 \<le> 0 then cfg1\<lparr>lc_Retry := lc_Renew cfg1\<rparr> else cfg1)
             in Inr \<lparr>l_cfg = cfg2, l_kv = None, l_rev = 0, l_held = False, l_stop = None, l_lost = False\<rparr>))"

datatype 'w renew_phase =
    Waiting
  | Loaded "('w, string) kv" nat
  | Answered "nat result"
  | Stopped
  | Panicked

record 'w renew_task =
  rt_phase :: "'w renew_phase"
  rt_cancelled :: bool

text \<open>\<open>nd_releasing\<close> is set while a \<open>Release\<close> is between its two critical sections.\<close>

record 'w node =
  nd_lease :: "'w Lease"
  nd_tasks :: "'w renew_task list"
  nd_releasing :: "(('w, string) kv \<times> nat) option"

abbreviation node_cfg :: "'w node \<Rightarrow> 'w LeaseConfig" where
  "node_cfg n \<equiv> l_cfg (nd_lease n)"

definition new_node :: "'w Lease \<Rightarrow> 'w node" where
  "new_node l = \<lparr>nd_lease = l, nd_tasks = [], nd_releasing = None\<rparr>"

definition Held :: "'w node \<Rightarrow> bool" where
  "Held n = l_held (nd_lease n)"

definition Lost :: "'w node \<Rightarrow> bool" where
  "Lost n = l_lost (nd_lease n)"

definition cancel :: "nat option \<Rightarrow> 'w renew_task list \<Rightarrow> 'w renew_task list" where
  "cancel stop ts = (case stop of None \<Rightarrow> ts | Some i \<Rightarrow> ts[i := (ts ! i)\<lparr>rt_cancelled := True\<rparr>])"

definition lease_claim :: "'w LeaseConfig \<Rightarrow> ('w, string) kv \<Rightarrow> 'w \<Rightarrow> nat result \<times> 'w" where
  "lease_claim cfg kv w =
     (case kv_Create kv w (lc_Key cfg) (lc_Holder cfg) of
        (Inr r, w1) \<Rightarrow> (Inr r, w1)
      | (Inl err, w1) \<Rightarrow>
          (case kv_Get kv w1 (lc_Key cfg) of
             (Inl gerr, w2) \<Rightarrow> (Inl gerr, w2)
           | (Inr (v, r), w2) \<Rightarrow>
               if v \<noteq> lc_Holder cfg then (Inl (heldError v), w2)
               else kv_Update kv w2 (lc_Key cfg) (lc_Holder cfg) r))"

text \<open>What \<open>TryAcquire\<close> does under the mutex once it has the key, and the goroutine it starts.\<close>

definition install :: "('w, string) kv \<Rightarrow> nat \<Rightarrow> 'w node \<Rightarrow> 'w node" where
  "install kv r n =
     \<lparr>nd_lease = (nd_lease n)\<lparr>l_kv := Some kv, l_rev := r, l_held := True,
                              l_stop := Some (length (nd_tasks n)), l_lost := False\<rparr>,
      nd_tasks = cancel (l_stop (nd_lease n)) (nd_tasks n) @ [\<lparr>rt_phase = Waiting, rt_cancelled = False\<rparr>],
      nd_releasing = nd_releasing n\<rparr>"

definition markLost :: "'w node \<times> 'w \<Rightarrow> bool \<times> 'w node \<times> 'w" where
  "markLost s =
     (case s of (n, w) \<Rightarrow>
      if \<not> l_held (nd_lease n) then (False, n, w)
      else (True, n\<lparr>nd_lease := (nd_lease n)\<lparr>l_held := False, l_lost := True\<rparr>\<rparr>,
            case lc_OnLost (node_cfg n) of None \<Rightarrow> w | Some f \<Rightarrow> f w))"

text \<open>\<open>Release\<close> detaches the handle under the mutex and stops the renewal, then marks the lease lost and
  deletes the key.\<close>

definition release_detach :: "'w node \<Rightarrow> 'w node" where
  "release_detach n =
     (let l = nd_lease n in
      \<lparr>nd_lease = l\<lparr>l_kv := None, l_stop := None\<rparr>, nd_tasks = cancel (l_stop l) (nd_tasks n),
       nd_releasing = map_option (\<lambda>kv. (kv, l_rev l)) (l_kv l)\<rparr>)"

definition release_finish :: "'w node \<times> 'w \<Rightarrow> 'w node \<times> 'w" where
  "release_finish s =
     (case s of (n, w) \<Rightarrow>
      (case nd_releasing n of
         None \<Rightarrow> (n, w)
       | Some (kv, r) \<Rightarrow>
           (case markLost (n\<lparr>nd_releasing := None\<rparr>, w) of
              (False, n1, w1) \<Rightarrow> (n1, w1)
            | (True, n1, w1) \<Rightarrow> (n1, snd (kv_Delete kv w1 (lc_Key (node_cfg n)) (Some r))))))"

definition LeaseRelease :: "'w node \<times> 'w \<Rightarrow> 'w node \<times> 'w" where
  "LeaseRelease s = release_finish (release_detach (fst s), snd s)"

definition TryAcquire :: "'w node \<times> 'w \<Rightarrow> bool \<times> 'w node \<times> 'w" where
  "TryAcquire s =
     (case s of (n, w) \<Rightarrow>
      if Held n then (True, n, w)
      else
        (case lc_Bucket (node_cfg n) of
           None \<Rightarrow> (False, n, w)
         | Some b \<Rightarrow>
             (case b w of
                (Inl err, w1) \<Rightarrow> (False, n, w1)
              | (Inr kv, w1) \<Rightarrow>
                  (case lease_claim (node_cfg n) kv w1 of
                     (Inl err, w2) \<Rightarrow> (False, n, w2)
                   | (Inr r, w2) \<Rightarrow>
                       (let n1 = install kv r n in
                        case lc_OnGained (node_cfg n) of
                          None \<Rightarrow> (True, n1, w2)
                        | Some f \<Rightarrow>
                            (case f w2 of
                               (None, w3) \<Rightarrow> (True, n1, w3)
                             | (Some err, w3) \<Rightarrow> (False, LeaseRelease (n1, w3))))))))"

text \<open>
  The renewal goroutine \<open>i\<close>: a tick makes it load the revision under the mutex, or end if the lease
  is not held; then it updates the key; then it stores the new revision, or marks the lease lost and
  ends. A cancelled goroutine may end while it waits, and its update may fail without being sent.
  Calling \<open>Update\<close> on a handle that has been set to nil panics.
\<close>

definition set_phase :: "nat \<Rightarrow> 'w renew_phase \<Rightarrow> 'w node \<Rightarrow> 'w node" where
  "set_phase i p n = n\<lparr>nd_tasks := (nd_tasks n)[i := (nd_tasks n ! i)\<lparr>rt_phase := p\<rparr>]\<rparr>"

definition renew_load :: "nat \<Rightarrow> 'w node \<Rightarrow> 'w node" where
  "renew_load i n =
     (let l = nd_lease n in
      if \<not> l_held l then set_phase i Stopped n
      else (case l_kv l of
              Some kv \<Rightarrow> set_phase i (Loaded kv (l_rev l)) n
            | None \<Rightarrow> set_phase i Panicked n))"

definition renew_update :: "nat \<Rightarrow> ('w, string) kv \<Rightarrow> nat \<Rightarrow> 'w node \<times> 'w \<Rightarrow> 'w node \<times> 'w" where
  "renew_update i kv r s =
     (case s of (n, w) \<Rightarrow>
      (case kv_Update kv w (lc_Key (node_cfg n)) (lc_Holder (node_cfg n)) r of
         (x, w1) \<Rightarrow> (set_phase i (Answered x) n, w1)))"

definition renew_store :: "nat \<Rightarrow> nat result \<Rightarrow> 'w node \<times> 'w \<Rightarrow> 'w node \<times> 'w" where
  "renew_store i x s =
     (case s of (n, w) \<Rightarrow>
      (case x of
         Inl err \<Rightarrow> (case markLost (n, w) of (b, n1, w1) \<Rightarrow> (set_phase i Stopped n1, w1))
       | Inr r \<Rightarrow> (set_phase i Waiting (n\<lparr>nd_lease := (nd_lease n)\<lparr>l_rev := r\<rparr>\<rparr>), w)))"

abbreviation context_canceled :: go_error where "context_canceled \<equiv> Sentinel ''context canceled''"

text \<open>A whole renewal with nothing between its steps, and a session: attempts on the first \<open>n\<close> ticks,
  then the release.\<close>

definition renew :: "nat \<Rightarrow> 'w node \<times> 'w \<Rightarrow> 'w node \<times> 'w" where
  "renew i s =
     (let n = renew_load i (fst s) in
      case rt_phase (nd_tasks n ! i) of
        Loaded kv r \<Rightarrow>
          (case renew_update i kv r (n, snd s) of
             (n1, w1) \<Rightarrow> (case rt_phase (nd_tasks n1 ! i) of Answered x \<Rightarrow> renew_store i x (n1, w1) | _ \<Rightarrow> (n1, w1)))
      | _ \<Rightarrow> (n, snd s))"

fun run_ticks :: "nat \<Rightarrow> 'w node \<times> 'w \<Rightarrow> 'w node \<times> 'w" where
  "run_ticks 0 s = s"
| "run_ticks (Suc k) s = run_ticks k (snd (TryAcquire s))"

definition LeaseRun :: "nat \<Rightarrow> 'w node \<times> 'w \<Rightarrow> 'w node \<times> 'w" where
  "LeaseRun k s = LeaseRelease (run_ticks (Suc k) s)"

section \<open>The bucket of a lease\<close>

definition bucketRetryFor :: int where "bucketRetryFor = 60 * 1000000000"

definition bucketRetryStep :: int where "bucketRetryStep = 1000000000"

record BucketConfig =
  bc_Name :: string
  bc_TTL :: int
  bc_Version :: int

definition OpenBucket ::
  "('w, string) JetStream \<Rightarrow> 'w Registry \<Rightarrow> BucketConfig \<Rightarrow> Proc \<Rightarrow> 'w \<Rightarrow> ('w, string) kv result \<times> Proc \<times> 'w" where
  "OpenBucket js reg cfg p w =
     (let failed = (\<lambda>err. Inl (Wrapped (''kvlease: open or create lease bucket '' @ bc_Name cfg @ '': '') [err] []));
          migrated = (\<lambda>kv p w.
            if bc_Version cfg > 0
            then (case runKV reg (bc_Name cfg) kv (bc_Version cfg) w of
                    (Some err, w1) \<Rightarrow> (Inl (Wrapped (''migrate '' @ bc_Name cfg @ '': '') [err] []), p, w1)
                  | (None, w1) \<Rightarrow> (Inr kv, p, w1))
            else (Inr kv, p, w))
      in case Replicas (pr_nodes p) of
        Inl err \<Rightarrow> (failed err, p, w)
      | Inr replicas \<Rightarrow>
          (case js_KeyValue js w (bc_Name cfg) of
             (Inr kv, w1) \<Rightarrow>
               (case TryRaiseBucketReplicas js (bc_Name cfg) replicas p w1 of (p1, w2) \<Rightarrow> migrated kv p1 w2)
           | (Inl err, w1) \<Rightarrow>
               if errors_Is err ErrBucketNotFound
               then (case js_CreateKeyValue js w1 \<lparr>kc_Bucket = bc_Name cfg, kc_Description = [], kc_History = 1,
                            kc_TTL = bc_TTL cfg, kc_Replicas = replicas\<rparr> of
                       (Inl err, w2) \<Rightarrow> (failed err, p, w2)
                     | (Inr kv, w2) \<Rightarrow> migrated kv p w2)
               else (failed err, p, w1)))"

text \<open>The retry loop of \<open>NATSBucket\<close>; \<open>wait\<close> is the select on the context and the timer, and not
  returning is \<open>None\<close>.\<close>

partial_function (option) nats_bucket_loop ::
  "('w, string) JetStream \<Rightarrow> 'w Registry \<Rightarrow> ('w \<Rightarrow> int \<Rightarrow> go_error option \<times> 'w) \<Rightarrow> BucketConfig \<Rightarrow> int \<Rightarrow>
   Proc \<Rightarrow> 'w \<Rightarrow> (('w, string) kv result \<times> Proc \<times> 'w) option" where
  "nats_bucket_loop js reg wait cfg deadline p w =
     (case OpenBucket js reg cfg p w of
        (Inr kv, p1, w1) \<Rightarrow> Some (Inr kv, p1, w1)
      | (Inl err, p1, w1) \<Rightarrow>
          if Permanent err then Some (Inl err, p1, w1)
          else if js_Now js w1 > deadline
          then Some (Inl (Wrapped (''kvlease: KV bucket unreachable after 1m0s: '') [err] []), p1, w1)
          else (case wait w1 bucketRetryStep of
                  (Some cerr, w2) \<Rightarrow> Some (Inl cerr, p1, w2)
                | (None, w2) \<Rightarrow> nats_bucket_loop js reg wait cfg deadline p1 w2))"

definition NATSBucket ::
  "('w, string) JetStream result \<Rightarrow> 'w Registry \<Rightarrow> ('w \<Rightarrow> int \<Rightarrow> go_error option \<times> 'w) \<Rightarrow> string \<Rightarrow> int \<Rightarrow>
   Proc \<Rightarrow> 'w \<Rightarrow> (('w, string) kv result \<times> Proc \<times> 'w) option" where
  "NATSBucket js reg wait bucket ttl p w =
     (case js of
        Inl err \<Rightarrow> Some (Inl (Wrapped ''kvlease: JetStream unavailable: '' [err] []), p, w)
      | Inr j \<Rightarrow> nats_bucket_loop j reg wait \<lparr>bc_Name = bucket, bc_TTL = ttl, bc_Version = 0\<rparr>
                  (js_Now j w + bucketRetryFor) p w)"

definition StaticBucket :: "('w, string) kv \<Rightarrow> 'w \<Rightarrow> ('w, string) kv result \<times> 'w" where
  "StaticBucket kv w = (Inr kv, w)"

section \<open>Interleavings\<close>

text \<open>One step of a node: its caller acquires or releases, or one of its renewal goroutines moves.\<close>

inductive node_step :: "'w node \<times> 'w \<Rightarrow> 'w node \<times> 'w \<Rightarrow> bool" where
  acquire: "nd_releasing n = None \<Longrightarrow> TryAcquire (n, w) = (b, s') \<Longrightarrow> node_step (n, w) s'"
| detach: "nd_releasing n = None \<Longrightarrow> node_step (n, w) (release_detach n, w)"
| finish: "node_step (n, w) (release_finish (n, w))"
| load: "i < length (nd_tasks n) \<Longrightarrow> rt_phase (nd_tasks n ! i) = Waiting \<Longrightarrow> node_step (n, w) (renew_load i n, w)"
| stop: "i < length (nd_tasks n) \<Longrightarrow> rt_phase (nd_tasks n ! i) = Waiting \<Longrightarrow> rt_cancelled (nd_tasks n ! i) \<Longrightarrow>
    node_step (n, w) (set_phase i Stopped n, w)"
| update: "i < length (nd_tasks n) \<Longrightarrow> rt_phase (nd_tasks n ! i) = Loaded kv r \<Longrightarrow>
    node_step (n, w) (renew_update i kv r (n, w))"
| unsent: "i < length (nd_tasks n) \<Longrightarrow> rt_phase (nd_tasks n ! i) = Loaded kv r \<Longrightarrow> rt_cancelled (nd_tasks n ! i) \<Longrightarrow>
    node_step (n, w) (set_phase i (Answered (Inl context_canceled)) n, w)"
| store: "i < length (nd_tasks n) \<Longrightarrow> rt_phase (nd_tasks n ! i) = Answered x \<Longrightarrow>
    node_step (n, w) (renew_store i x (n, w))"

text \<open>The nodes of a cluster share the bucket; between their steps the bucket changes as \<open>rely\<close> allows.\<close>

inductive cluster :: "('w, string) kv_view \<Rightarrow> (nat \<Rightarrow> 'w LeaseConfig) \<Rightarrow> (nat \<Rightarrow> 'w node) \<Rightarrow> 'w \<Rightarrow> bool"
  for V :: "('w, string) kv_view" and cfgs :: "nat \<Rightarrow> 'w LeaseConfig" where
  start: "(\<And>i. NewLease (cfgs i) = Inr (ls i)) \<Longrightarrow> cluster V cfgs (\<lambda>i. new_node (ls i)) w"
| move: "cluster V cfgs N w \<Longrightarrow> node_step (N i, w) (n', w') \<Longrightarrow> cluster V cfgs (N(i := n')) w'"
| env: "cluster V cfgs N w \<Longrightarrow> rely V w w' \<Longrightarrow> cluster V cfgs N w'"

text \<open>\<open>leaves_others V key h w w'\<close>: from \<open>w\<close> to \<open>w'\<close> the key was changed, apart from interference, only
  while it was absent or held by \<open>h\<close>, and only to absent or to \<open>h\<close>.\<close>

definition own :: "string \<Rightarrow> (string \<times> nat) option \<Rightarrow> bool" where
  "own h x \<longleftrightarrow> x = None \<or> (\<exists>r. x = Some (h, r))"

abbreviation leaves_others :: "('w, string) kv_view \<Rightarrow> string \<Rightarrow> string \<Rightarrow> 'w \<Rightarrow> 'w \<Rightarrow> bool" where
  "leaves_others V key h \<equiv> changes V key (own h) (own h)"

lemma own_simps [simp]: "own h None" "own h (Some (d, r)) \<longleftrightarrow> d = h"
  by (auto simp: own_def)

section \<open>The operations leave other holders alone\<close>

lemma own_create:
  assumes L: "kv_lawful kv V" and "kv_Create kv w key h = (x, w')"
  shows "leaves_others V key h w w'" and "x = Inr r \<Longrightarrow> hist V w' key r = Some h"
  using Create_lawful [OF assms] changes_committed [OF lawful_view [OF L]] committed_hist [OF lawful_view [OF L]]
  by (auto simp: write_outcome_def intro: changes.idle split: sum.splits)

lemma own_update:
  assumes L: "kv_lawful kv V" and "hist V w key r0 = Some h" and "kv_Update kv w key h r0 = (x, w')"
  shows "leaves_others V key h w w'" and "x = Inr r \<Longrightarrow> hist V w' key r = Some h"
proof -
  note V = lawful_view [OF L]
  have "leaves_others V key h w w'" if "committed V w key (Some (d0, r0)) (Some (h, r)) w'" for d0 r
    using changes_committed [OF V that, of "own h" "own h"] committed_at [OF V assms(2) that] by simp
  then show "leaves_others V key h w w'"
    using Update_lawful [OF L assms(3)] by (auto simp: write_outcome_def intro: changes.idle split: sum.splits)
  show "x = Inr r \<Longrightarrow> hist V w' key r = Some h"
    using Update_lawful [OF L assms(3)] committed_hist [OF V] by (auto simp: write_outcome_def)
qed

lemma own_delete:
  assumes L: "kv_lawful kv V" and "hist V w key r0 = Some h" and "kv_Delete kv w key (Some r0) = (x, w')"
  shows "leaves_others V key h w w'"
proof -
  note V = lawful_view [OF L]
  have "leaves_others V key h w w'" if "committed V w key (Some (d0, r0)) None w'" for d0
    using changes_committed [OF V that, of "own h" "own h"] committed_at [OF V assms(2) that] by simp
  then show ?thesis
    using Delete_lawful [OF L assms(3)] by (auto simp: write_outcome_def intro: changes.idle split: sum.splits)
qed

lemma lease_claim_leaves:
  assumes L: "kv_lawful kv V" and "lease_claim cfg kv w = (x, w')"
  shows "leaves_others V (lc_Key cfg) (lc_Holder cfg) w w'"
    and "x = Inr r \<Longrightarrow> hist V w' (lc_Key cfg) r = Some (lc_Holder cfg)"
proof -
  note V = lawful_view [OF L]
  obtain c w1 where c: "kv_Create kv w (lc_Key cfg) (lc_Holder cfg) = (c, w1)" by fastforce
  obtain g w2 where g: "kv_Get kv w1 (lc_Key cfg) = (g, w2)" by fastforce
  have r2: "leaves_others V (lc_Key cfg) (lc_Holder cfg) w w2"
    by (rule changes_relyR [OF V own_create(1) [OF L c] Get_rely [OF L g]])
  have "leaves_others V (lc_Key cfg) (lc_Holder cfg) w w' \<and> (x = Inr r \<longrightarrow> hist V w' (lc_Key cfg) r = Some (lc_Holder cfg))"
  proof (cases c)
    case (Inr a)
    with c assms(2) own_create [OF L c] show ?thesis by (auto simp: lease_claim_def)
  next
    case (Inl err)
    show ?thesis
    proof (cases "\<exists>r0. g = Inr (lc_Holder cfg, r0)")
      case True
      then obtain r0 where g0: "g = Inr (lc_Holder cfg, r0)" by blast
      with Inl c g assms(2) have u: "kv_Update kv w2 (lc_Key cfg) (lc_Holder cfg) r0 = (x, w')"
        by (simp add: lease_claim_def)
      from g g0 have h: "hist V w2 (lc_Key cfg) r0 = Some (lc_Holder cfg)" using Get_hist [OF L] by simp
      from own_update [OF L h u] changes_trans [OF V _ r2] show ?thesis by blast
    next
      case False
      with Inl c g assms(2) r2 show ?thesis by (auto simp: lease_claim_def split: sum.splits if_splits)
    qed
  qed
  then show "leaves_others V (lc_Key cfg) (lc_Holder cfg) w w'"
    and "x = Inr r \<Longrightarrow> hist V w' (lc_Key cfg) r = Some (lc_Holder cfg)" by auto
qed

section \<open>The node invariant\<close>

definition config_ok :: "('w, string) kv_view \<Rightarrow> 'w LeaseConfig \<Rightarrow> bool" where
  "config_ok V cfg \<longleftrightarrow>
     (\<forall>b w x w'. lc_Bucket cfg = Some b \<longrightarrow> b w = (x, w') \<longrightarrow>
        rely V w w' \<and> (\<forall>kv. x = Inr kv \<longrightarrow> kv_lawful kv V)) \<and>
     (\<forall>f w x w'. lc_OnGained cfg = Some f \<longrightarrow> f w = (x, w') \<longrightarrow> rely V w w') \<and>
     (\<forall>f w. lc_OnLost cfg = Some f \<longrightarrow> rely V w (f w))"

text \<open>Every revision a node works with is one at which the key held the node's own name.\<close>

abbreviation mine :: "('w, string) kv_view \<Rightarrow> 'w LeaseConfig \<Rightarrow> 'w \<Rightarrow> nat \<Rightarrow> bool" where
  "mine V cfg w r \<equiv> hist V w (lc_Key cfg) r = Some (lc_Holder cfg)"

fun phase_ok :: "('w, string) kv_view \<Rightarrow> 'w LeaseConfig \<Rightarrow> 'w \<Rightarrow> 'w renew_phase \<Rightarrow> bool" where
  "phase_ok V cfg w (Loaded kv r) = (kv_lawful kv V \<and> mine V cfg w r)"
| "phase_ok V cfg w (Answered (Inr r)) = mine V cfg w r"
| "phase_ok V cfg w p = True"

definition tasks_ok :: "('w, string) kv_view \<Rightarrow> 'w LeaseConfig \<Rightarrow> 'w \<Rightarrow> 'w renew_task list \<Rightarrow> bool" where
  "tasks_ok V cfg w ts \<longleftrightarrow> (\<forall>t \<in> set ts. phase_ok V cfg w (rt_phase t))"

definition node_ok :: "('w, string) kv_view \<Rightarrow> 'w \<Rightarrow> 'w node \<Rightarrow> bool" where
  "node_ok V w n \<longleftrightarrow>
     (\<forall>kv. l_kv (nd_lease n) = Some kv \<longrightarrow> kv_lawful kv V) \<and>
     (l_held (nd_lease n) \<or> l_kv (nd_lease n) \<noteq> None \<longrightarrow> mine V (node_cfg n) w (l_rev (nd_lease n))) \<and>
     tasks_ok V (node_cfg n) w (nd_tasks n) \<and>
     (\<forall>kv r. nd_releasing n = Some (kv, r) \<longrightarrow> kv_lawful kv V \<and> mine V (node_cfg n) w r)"

lemma phase_ok_mono:
  assumes "\<And>k r d. hist V w k r = Some d \<Longrightarrow> hist V w' k r = Some d" and "phase_ok V cfg w p"
  shows "phase_ok V cfg w' p"
  using assms by (induction V cfg w p rule: phase_ok.induct) auto

lemma node_ok_mono:
  assumes "\<And>k r d. hist V w k r = Some d \<Longrightarrow> hist V w' k r = Some d" and "node_ok V w n"
  shows "node_ok V w' n"
  using assms(2) phase_ok_mono [OF assms(1)] assms(1) unfolding node_ok_def tasks_ok_def by blast

lemma tasks_ok_update: "tasks_ok V cfg w ts \<Longrightarrow> phase_ok V cfg w (rt_phase t) \<Longrightarrow> tasks_ok V cfg w (ts[i := t])"
  unfolding tasks_ok_def using set_update_subset_insert by fastforce

lemma tasks_ok_cancel:
  assumes "tasks_ok V cfg w ts"
  shows "tasks_ok V cfg w (cancel stop ts)"
proof (cases stop)
  case (Some i)
  show ?thesis
  proof (cases "i < length ts")
    case True
    with assms have "phase_ok V cfg w (rt_phase (ts ! i))" by (simp add: tasks_ok_def)
    with assms Some show ?thesis by (auto simp: cancel_def intro: tasks_ok_update)
  qed (use assms Some in \<open>simp add: cancel_def list_update_beyond\<close>)
qed (use assms in \<open>simp add: cancel_def\<close>)

lemma set_phase_ok:
  "node_ok V w n \<Longrightarrow> phase_ok V (node_cfg n) w p \<Longrightarrow> node_ok V w (set_phase i p n)"
  by (auto simp: node_ok_def set_phase_def intro: tasks_ok_update)

lemma set_phase_cfg [simp]: "node_cfg (set_phase i p n) = node_cfg n" "nd_lease (set_phase i p n) = nd_lease n"
  by (simp_all add: set_phase_def)

text \<open>\<open>node_moves V s s'\<close>: what every step of a node guarantees.\<close>

definition node_moves :: "('w, string) kv_view \<Rightarrow> 'w node \<times> 'w \<Rightarrow> 'w node \<times> 'w \<Rightarrow> bool" where
  "node_moves V s s' \<longleftrightarrow>
     node_cfg (fst s') = node_cfg (fst s) \<and> node_ok V (snd s') (fst s') \<and>
     leaves_others V (lc_Key (node_cfg (fst s))) (lc_Holder (node_cfg (fst s))) (snd s) (snd s')"

lemma node_moves_trans:
  "view_ok V \<Longrightarrow> node_moves V s s1 \<Longrightarrow> node_moves V s1 s2 \<Longrightarrow> node_moves V s s2"
  unfolding node_moves_def using changes_trans by metis

lemma node_moves_world:
  assumes "view_ok V" and "node_ok V w n" and "leaves_others V (lc_Key (node_cfg n)) (lc_Holder (node_cfg n)) w w'"
  shows "node_moves V (n, w) (n, w')"
  using assms node_ok_mono [OF changes_hist [OF assms(1,3)] assms(2)] by (simp add: node_moves_def)

lemma node_moves_local:
  "view_ok V \<Longrightarrow> node_ok V w n' \<Longrightarrow> node_cfg n' = node_cfg n \<Longrightarrow> node_moves V (n, w) (n', w)"
  by (simp add: node_moves_def changes.idle rely_refl)

lemma markLost_moves:
  assumes "view_ok V" and "config_ok V (node_cfg n)" and "node_ok V w n" and "markLost (n, w) = (b, n', w')"
  shows "node_moves V (n, w) (n', w')"
proof (cases "l_held (nd_lease n)")
  case True
  let ?n = "n\<lparr>nd_lease := (nd_lease n)\<lparr>l_held := False, l_lost := True\<rparr>\<rparr>"
  from True assms(4) have n': "n' = ?n" and w': "w' = (case lc_OnLost (node_cfg n) of None \<Rightarrow> w | Some f \<Rightarrow> f w)"
    by (auto simp: markLost_def)
  have ok: "node_ok V w ?n" using assms(3) True by (auto simp: node_ok_def)
  have "rely V w w'" using assms(1,2) w' by (auto simp: config_ok_def rely_refl split: option.splits)
  then have "node_moves V (?n, w) (?n, w')"
    by (intro node_moves_world [OF assms(1) ok]) (rule changes.idle)
  from node_moves_trans [OF assms(1) node_moves_local [OF assms(1) ok, where n = n] this] n' show ?thesis by simp
next
  case False
  with assms show ?thesis by (auto simp: markLost_def intro: node_moves_local)
qed

lemma release_detach_moves:
  assumes "view_ok V" and "node_ok V w n"
  shows "node_moves V (n, w) (release_detach n, w)"
  using assms tasks_ok_cancel [of V "node_cfg n" w "nd_tasks n" "l_stop (nd_lease n)"]
  by (intro node_moves_local) (auto simp: node_ok_def release_detach_def Let_def)

lemma release_finish_moves:
  assumes "view_ok V" and "config_ok V (node_cfg n)" and "node_ok V w n"
  shows "node_moves V (n, w) (release_finish (n, w))"
proof (cases "nd_releasing n")
  case None
  with assms show ?thesis by (auto simp: release_finish_def intro: node_moves_local)
next
  case (Some p)
  then obtain kv r where p: "nd_releasing n = Some (kv, r)" by (cases p) auto
  let ?n = "n\<lparr>nd_releasing := None\<rparr>"
  obtain b n1 w1 where m: "markLost (?n, w) = (b, n1, w1)" by (metis prod_cases3)
  have ok: "node_ok V w ?n" using assms(3) by (simp add: node_ok_def)
  have m1: "node_moves V (n, w) (n1, w1)"
    using node_moves_trans [OF assms(1) node_moves_local [OF assms(1) ok, where n = n] markLost_moves [OF assms(1) _ ok m]]
      assms(2) by simp
  show ?thesis
  proof (cases b)
    case True
    from p assms(3) have L: "kv_lawful kv V" and "mine V (node_cfg n) w r" by (auto simp: node_ok_def)
    with m1 have h: "mine V (node_cfg n) w1 r" using changes_hist [OF assms(1)] by (auto simp: node_moves_def)
    from own_delete [OF L h prod.collapse [symmetric]] m1
    have "node_moves V (n1, w1) (n1, snd (kv_Delete kv w1 (lc_Key (node_cfg n)) (Some r)))"
      by (intro node_moves_world [OF assms(1)]) (auto simp: node_moves_def)
    from node_moves_trans [OF assms(1) m1 this] p m True show ?thesis by (simp add: release_finish_def)
  qed (use p m m1 in \<open>simp add: release_finish_def\<close>)
qed

lemma LeaseRelease_moves:
  assumes "view_ok V" and "config_ok V (node_cfg n)" and "node_ok V w n"
  shows "node_moves V (n, w) (LeaseRelease (n, w))"
proof -
  note d = release_detach_moves [OF assms(1,3)]
  have "node_moves V (release_detach n, w) (release_finish (release_detach n, w))"
    using d assms by (intro release_finish_moves) (auto simp: node_moves_def)
  from node_moves_trans [OF assms(1) d this] show ?thesis by (simp add: LeaseRelease_def)
qed

lemma install_ok:
  assumes "node_ok V w n" and "kv_lawful kv V" and "mine V (node_cfg n) w r"
  shows "node_ok V w (install kv r n)"
  using assms tasks_ok_cancel [of V "node_cfg n" w "nd_tasks n" "l_stop (nd_lease n)"]
  by (auto simp: node_ok_def install_def tasks_ok_def)

lemma install_cfg [simp]: "node_cfg (install kv r n) = node_cfg n" "l_held (nd_lease (install kv r n))"
  by (simp_all add: install_def)

lemma TryAcquire_moves:
  assumes V: "view_ok V" and C: "config_ok V (node_cfg n)" and ok: "node_ok V w n"
    and "TryAcquire (n, w) = (b, s')"
  shows "node_moves V (n, w) s'"
proof -
  have same: ?thesis if "s' = (n, w')" "rely V w w'" for w'
    using node_moves_world [OF V ok] that by (auto intro: changes.idle)
  show ?thesis
  proof (cases "Held n \<or> lc_Bucket (node_cfg n) = None")
    case True
    with assms(4) same [of w] show ?thesis by (auto simp: TryAcquire_def rely_refl [OF V] split: if_splits)
  next
    case False
    then obtain f where f: "\<not> Held n" "lc_Bucket (node_cfg n) = Some f" by blast
    obtain x w1 where x: "f w = (x, w1)" by fastforce
    with C f have r1: "rely V w w1" and L: "\<And>kv. x = Inr kv \<Longrightarrow> kv_lawful kv V" by (auto simp: config_ok_def)
    show ?thesis
    proof (cases x)
      case (Inl err)
      with assms(4) f x same [OF _ r1] show ?thesis by (auto simp: TryAcquire_def)
    next
      case (Inr kv)
      obtain c w2 where c: "lease_claim (node_cfg n) kv w1 = (c, w2)" by fastforce
      note cl = lease_claim_leaves [OF L [OF Inr] c]
      have m2: "node_moves V (n, w) (n, w2)"
        by (rule node_moves_world [OF V ok changes_trans [OF V cl(1) changes.idle [OF r1]]])
      show ?thesis
      proof (cases c)
        case (Inl err)
        with assms(4) f x Inr c m2 show ?thesis by (auto simp: TryAcquire_def)
      next
        case (Inr r)
        let ?n = "install kv r n"
        have ok2: "node_ok V w2 ?n"
          using m2 cl(2) [OF Inr] L [OF \<open>x = Inr kv\<close>] by (intro install_ok) (auto simp: node_moves_def)
        have mi: "node_moves V (n, w) (?n, w2)"
          by (rule node_moves_trans [OF V m2 node_moves_local [OF V ok2]]) simp
        show ?thesis
        proof (cases "lc_OnGained (node_cfg n)")
          case None
          with assms(4) f x \<open>x = Inr kv\<close> c Inr mi show ?thesis by (auto simp: TryAcquire_def)
        next
          case (Some g)
          obtain e w3 where e: "g w2 = (e, w3)" by fastforce
          with C Some have "rely V w2 w3" by (auto simp: config_ok_def)
          then have "node_moves V (?n, w2) (?n, w3)" by (intro node_moves_world [OF V ok2]) (rule changes.idle)
          from node_moves_trans [OF V mi this] have m3: "node_moves V (n, w) (?n, w3)" .
          then have "node_moves V (?n, w3) (LeaseRelease (?n, w3))"
            using C by (intro LeaseRelease_moves [OF V]) (auto simp: node_moves_def)
          from node_moves_trans [OF V m3 this] m3 assms(4) f x \<open>x = Inr kv\<close> c Inr Some e show ?thesis
            by (auto simp: TryAcquire_def Let_def split: option.splits)
        qed
      qed
    qed
  qed
qed

lemma renew_load_moves:
  assumes "view_ok V" and "node_ok V w n"
  shows "node_moves V (n, w) (renew_load i n, w)"
proof (rule node_moves_local [OF assms(1)])
  show "node_ok V w (renew_load i n)"
    using assms(2) by (auto simp: renew_load_def Let_def node_ok_def [of V w n] intro!: set_phase_ok [OF assms(2)] split: option.splits)
qed (simp add: renew_load_def Let_def split: option.splits)

lemma renew_update_moves:
  assumes V: "view_ok V" and ok: "node_ok V w n" and "i < length (nd_tasks n)" "rt_phase (nd_tasks n ! i) = Loaded kv r"
  shows "node_moves V (n, w) (renew_update i kv r (n, w))"
proof -
  from assms(2-4) have "phase_ok V (node_cfg n) w (Loaded kv r)" unfolding node_ok_def tasks_ok_def by (metis nth_mem)
  then have L: "kv_lawful kv V" and h: "mine V (node_cfg n) w r" by simp_all
  obtain x w1 where u: "kv_Update kv w (lc_Key (node_cfg n)) (lc_Holder (node_cfg n)) r = (x, w1)" by fastforce
  note o = own_update [OF L h u]
  have m: "node_moves V (n, w) (n, w1)" by (rule node_moves_world [OF V ok o(1)])
  have "phase_ok V (node_cfg n) w1 (Answered x)" using o(2) by (cases x) simp_all
  with m have "node_ok V w1 (set_phase i (Answered x) n)" by (intro set_phase_ok) (simp_all add: node_moves_def)
  from node_moves_trans [OF V m node_moves_local [OF V this]] u show ?thesis by (simp add: renew_update_def)
qed

lemma renew_store_moves:
  assumes V: "view_ok V" and C: "config_ok V (node_cfg n)" and ok: "node_ok V w n"
    and "i < length (nd_tasks n)" "rt_phase (nd_tasks n ! i) = Answered x"
  shows "node_moves V (n, w) (renew_store i x (n, w))"
proof (cases x)
  case (Inl err)
  obtain b n1 w1 where m: "markLost (n, w) = (b, n1, w1)" by (metis prod_cases3)
  note mm = markLost_moves [OF V C ok m]
  then have "node_ok V w1 (set_phase i Stopped n1)" by (intro set_phase_ok) (simp_all add: node_moves_def)
  from node_moves_trans [OF V mm node_moves_local [OF V this]] Inl m show ?thesis by (simp add: renew_store_def)
next
  case (Inr r)
  from assms(3-5) have "phase_ok V (node_cfg n) w (Answered x)" unfolding node_ok_def tasks_ok_def by (metis nth_mem)
  with Inr have "mine V (node_cfg n) w r" by simp
  with ok have "node_ok V w (n\<lparr>nd_lease := (nd_lease n)\<lparr>l_rev := r\<rparr>\<rparr>)" by (auto simp: node_ok_def)
  from set_phase_ok [OF this, of Waiting i] Inr show ?thesis
    by (auto simp: renew_store_def intro: node_moves_local [OF V])
qed

lemma node_step_moves:
  assumes "node_step s s'" and "view_ok V" and "config_ok V (node_cfg (fst s))" and "node_ok V (snd s) (fst s)"
  shows "node_moves V s s'"
  using assms
proof (induction rule: node_step.induct)
  case (stop i n w)
  then show ?case by (auto intro!: node_moves_local set_phase_ok)
next
  case (unsent i n kv r w)
  then show ?case by (auto intro!: node_moves_local set_phase_ok)
qed (auto intro: TryAcquire_moves release_detach_moves release_finish_moves renew_load_moves renew_update_moves
    renew_store_moves)

lemma new_node_ok:
  assumes "NewLease cfg = Inr l"
  shows "node_ok V w (new_node l)" and "lc_Key (l_cfg l) = lc_Key cfg" and "lc_Holder (l_cfg l) = lc_Holder cfg"
    and "config_ok V cfg \<Longrightarrow> config_ok V (l_cfg l)"
  using assms
  by (auto simp: NewLease_def Let_def new_node_def node_ok_def tasks_ok_def config_ok_def split: option.splits if_splits)

lemma cluster_ok:
  assumes "cluster V cfgs N w" and "view_ok V" and "\<And>i. config_ok V (cfgs i)"
  shows "node_ok V w (N i) \<and> config_ok V (node_cfg (N i)) \<and>
    lc_Key (node_cfg (N i)) = lc_Key (cfgs i) \<and> lc_Holder (node_cfg (N i)) = lc_Holder (cfgs i)"
  using assms(1)
proof (induction arbitrary: i rule: cluster.induct)
  case (start ls w)
  with new_node_ok [OF start] assms(3) show ?case by (simp add: new_node_def)
next
  case (move N w j n' w')
  from move.IH [of j] have m: "node_moves V (N j, w) (n', w')"
    by (intro node_step_moves [OF move.hyps(2) assms(2)]) simp_all
  then have "\<And>k r d. hist V w k r = Some d \<Longrightarrow> hist V w' k r = Some d"
    using changes_hist [OF assms(2)] by (auto simp: node_moves_def)
  with node_ok_mono [OF this] move.IH [of i] move.IH [of j] m show ?case by (auto simp: node_moves_def)
next
  case (env N w w')
  with node_ok_mono [OF rely_hist [OF assms(2) env.hyps(2)]] show ?case by blast
qed

end
