(* ===== verification/Kvlease_Claims.thy ===== *)
theory Kvlease_Claims
  imports Kvlease Membucket
begin

text \<open>
  What the lease guarantees: no node takes or deletes a key another node holds, at most one holder is
  current, a free key is acquired, and opening the bucket ends. Two lemmas at the end record
  interleavings in which a lease misbehaves.
\<close>

section \<open>Two nodes on one bucket\<close>

text \<open>The bucket's other writer may store the name of node b, as an earlier run of that node would.\<close>

abbreviation by_b :: "string \<times> string \<Rightarrow> bool" where "by_b \<equiv> \<lambda>kd. kd = (''l'', ''b'')"

definition lease_cfg :: "string \<Rightarrow> string mem LeaseConfig" where
  "lease_cfg h = \<lparr>lc_Name = ''l'', lc_Bucket = Some (StaticBucket (mem_kv by_b)), lc_Key = ''l'', lc_Holder = h,
     lc_TTL = 30, lc_Renew = 10, lc_Retry = 10, lc_OnGained = None, lc_OnLost = None\<rparr>"

definition fresh_lease :: "string \<Rightarrow> string mem Lease" where
  "fresh_lease h = \<lparr>l_cfg = lease_cfg h, l_kv = None, l_rev = 0, l_held = False, l_stop = None, l_lost = False\<rparr>"

abbreviation two_cfgs :: "nat \<Rightarrow> string mem LeaseConfig" where
  "two_cfgs \<equiv> \<lambda>i. lease_cfg (if i = 0 then ''a'' else ''b'')"

abbreviation two_nodes :: "nat \<Rightarrow> string mem node" where
  "two_nodes \<equiv> \<lambda>i. new_node (fresh_lease (if i = 0 then ''a'' else ''b''))"

abbreviation b_view :: "(string mem, string) kv_view" where
  "b_view \<equiv> mem_view by_b"

lemma lease_cfg_ok: "config_ok b_view (lease_cfg h)"
  by (simp add: config_ok_def lease_cfg_def StaticBucket_def mem_kv_lawful mem_rely_refl)

lemma fresh_lease_new: "h \<noteq> [] \<Longrightarrow> NewLease (lease_cfg h) = Inr (fresh_lease h)"
  by (simp add: NewLease_def lease_cfg_def fresh_lease_def int64_of_def)

lemma two_start: "cluster b_view two_cfgs two_nodes w"
  by (rule cluster.start) (simp add: fresh_lease_new)

definition b_waits :: "string mem" where
  "b_waits = \<lparr>mem_log = [], mem_script = [(''l'', ''b'')]\<rparr>"

definition a_holds :: "string mem" where
  "a_holds = \<lparr>mem_log = [(''l'', Some ''a'')], mem_script = [(''l'', ''b'')]\<rparr>"

definition b_stored :: "string mem" where
  "b_stored = \<lparr>mem_log = [(''l'', Some ''b''), (''l'', Some ''a'')], mem_script = []\<rparr>"

definition b_holds :: "string mem" where
  "b_holds = \<lparr>mem_log = [(''l'', Some ''b''), (''l'', Some ''b''), (''l'', Some ''a'')], mem_script = []\<rparr>"

lemma mem_ops:
  "kv_Create (mem_kv F) w k d = (if log_stored (mem_log w) k = None
     then (Inr (Suc (length (mem_log w))), mem_append k (Some d) w) else (Inl (Sentinel ErrKeyExists), w))"
  "kv_Get (mem_kv F) w k = (case log_stored (mem_log w) k of
     None \<Rightarrow> Inl (Sentinel ErrKeyNotFound) | Some e \<Rightarrow> Inr e, mem_foreign F w)"
  "kv_Update (mem_kv F) w k d r = (if map_option snd (log_stored (mem_log w) k) = Some r
     then (Inr (Suc (length (mem_log w))), mem_append k (Some d) w) else (Inl (Sentinel ErrKeyRevisionMismatch), w))"
  by (simp_all add: mem_kv_def)

lemma mem_delete:
  "kv_Delete (mem_kv F) w k (Some r) = (if map_option snd (log_stored (mem_log w) k) = Some r
     then (Inr (), mem_append k None w) else (Inl (Sentinel ErrKeyRevisionMismatch), w))"
  by (simp add: mem_kv_def)

lemmas lease_eval = TryAcquire_def Held_def new_node_def fresh_lease_def lease_cfg_def StaticBucket_def lease_claim_def
  mem_ops mem_append_def mem_foreign_def b_waits_def a_holds_def b_stored_def b_holds_def

definition a_node :: "string mem node" where "a_node = install (mem_kv by_b) 1 (new_node (fresh_lease ''a''))"

definition b_node :: "string mem node" where "b_node = install (mem_kv by_b) 3 (new_node (fresh_lease ''b''))"

lemma a_acquires: "TryAcquire (new_node (fresh_lease ''a''), b_waits) = (True, a_node, a_holds)"
  by (simp add: lease_eval a_node_def)

lemma b_acquires: "TryAcquire (new_node (fresh_lease ''b''), b_stored) = (True, b_node, b_holds)"
  by (simp add: lease_eval b_node_def eval_nat_numeral)

lemma new_node_idle: "nd_releasing (new_node l) = None"
  by (simp add: new_node_def)

lemma a_leads: "cluster b_view two_cfgs (two_nodes(0 := a_node)) a_holds"
  by (rule cluster.move [OF two_start [of b_waits]]) (simp add: node_step.acquire [OF new_node_idle a_acquires])

lemma b_overwrites: "rely b_view a_holds b_stored"
  by (simp add: mem_view_def a_holds_def b_stored_def mem_foreign_def mem_append_def exI [of _ "Suc 0"])

lemma both_believe: "cluster b_view two_cfgs (two_nodes(0 := a_node, 1 := b_node)) b_holds"
  by (rule cluster.move [OF cluster.env [OF a_leads b_overwrites]])
    (simp add: node_step.acquire [OF new_node_idle b_acquires])

section \<open>Safety\<close>

text \<open>
  C3. A lease is never taken from its holder. In every reachable state of a cluster whose nodes claim
  one key, every step of a node, an attempt to acquire, either half of a release or any part of a
  renewal, and whether or not the calls it makes are acknowledged, changes the key only while the key
  is absent or names that node, and leaves it absent or naming that node.
\<close>

theorem lease_never_stolen:
  assumes "view_ok V" and "\<forall>i. config_ok V (cfgs i)" and "cluster V cfgs N w" and "node_step (N i, w) (n', w')"
  shows "leaves_others V (lc_Key (cfgs i)) (lc_Holder (cfgs i)) w w'"
proof -
  from cluster_ok [OF assms(3,1)] assms(2) have "node_ok V w (N i)" "config_ok V (node_cfg (N i))"
    "lc_Key (node_cfg (N i)) = lc_Key (cfgs i)" "lc_Holder (node_cfg (N i)) = lc_Holder (cfgs i)" by blast+
  with node_step_moves [OF assms(4,1)] show ?thesis by (simp add: node_moves_def)
qed

theorem lease_never_stolen_witness:
  "node_step (new_node (fresh_lease ''b''), b_stored) (b_node, b_holds) \<and>
   leaves_others b_view ''l'' ''b'' b_stored b_holds"
proof -
  let ?N = "two_nodes(0 := a_node)"
  have st: "node_step (?N 1, b_stored) (b_node, b_holds)"
    using node_step.acquire [OF new_node_idle b_acquires] by simp
  have "\<forall>i. config_ok b_view (two_cfgs i)" by (simp add: lease_cfg_ok)
  from lease_never_stolen [OF mem_view_ok this cluster.env [OF a_leads b_overwrites] st] st show ?thesis
    by (simp add: lease_cfg_def)
qed

text \<open>
  C4. At most one node is the current holder. In every reachable state, if a node believes it holds the
  lease and its revision is the one stored, then the key names that node, and no node with another
  name that believes it holds the lease has the stored revision, so its next renewal is refused.
\<close>

theorem lease_exclusive:
  assumes "view_ok V" and "\<forall>i. config_ok V (cfgs i)" and "cluster V cfgs N w"
    and "lc_Key (cfgs i) = lc_Key (cfgs j)" and "lc_Holder (cfgs i) \<noteq> lc_Holder (cfgs j)"
    and "Held (N i)" and "Held (N j)" and "stored V w (lc_Key (cfgs i)) = Some (d, l_rev (nd_lease (N i)))"
  shows "d = lc_Holder (cfgs i) \<and> l_rev (nd_lease (N j)) \<noteq> l_rev (nd_lease (N i))"
proof -
  have "hist V w (lc_Key (cfgs k)) (l_rev (nd_lease (N k))) = Some (lc_Holder (cfgs k))" if "Held (N k)" for k
    using cluster_ok [OF assms(3,1), of k] assms(2) that by (auto simp: node_ok_def Held_def)
  from this [OF assms(6)] this [OF assms(7)] stored_hist [OF assms(1,8)] assms(4,5) show ?thesis by auto
qed

theorem lease_exclusive_witness:
  "stored b_view b_holds ''l'' = Some (''b'', l_rev (nd_lease b_node)) \<and> Held a_node \<and>
   l_rev (nd_lease a_node) \<noteq> l_rev (nd_lease b_node)"
proof -
  let ?N = "two_nodes(0 := a_node, 1 := b_node)"
  have s: "stored b_view b_holds ''l'' = Some (''b'', l_rev (nd_lease b_node))"
    by (simp add: b_holds_def b_node_def install_def)
  have h: "Held a_node" "Held b_node" by (simp_all add: Held_def a_node_def b_node_def)
  have "\<forall>i. config_ok b_view (two_cfgs i)" by (simp add: lease_cfg_ok)
  from lease_exclusive [OF mem_view_ok this both_believe, where i = 1 and j = 0 and d = "''b''"] s h show ?thesis
    by (simp add: lease_cfg_def)
qed

section \<open>Progress\<close>

text \<open>A bucket that answers every call on the key, undisturbed by others.\<close>

definition answers :: "('w, string) kv \<Rightarrow> ('w, string) kv_view \<Rightarrow> string \<Rightarrow> bool" where
  "answers kv V key \<longleftrightarrow>
     (\<forall>w d. stored V w key = None \<longrightarrow> (\<exists>r w'. kv_Create kv w key d = (Inr r, w'))) \<and>
     (\<forall>w d e. stored V w key = Some e \<longrightarrow> (\<exists>err w'. kv_Create kv w key d = (Inl err, w') \<and> stored V w' key = Some e)) \<and>
     (\<forall>w e. stored V w key = Some e \<longrightarrow> (\<exists>w'. kv_Get kv w key = (Inr e, w') \<and> stored V w' key = Some e)) \<and>
     (\<forall>w d d0 r. stored V w key = Some (d0, r) \<longrightarrow> (\<exists>r' w'. kv_Update kv w key d r = (Inr r', w')))"


lemma mem_answers: "answers (mem_kv (\<lambda>_. False)) (mem_view (\<lambda>_. False)) key"
  by (auto simp: answers_def mem_ops mem_foreign_def split: list.splits)


text \<open>A clock that no call turns back, and a wait that lets at least its duration pass.\<close>

definition clock_ok :: "('w, string) JetStream \<Rightarrow> ('w \<Rightarrow> int \<Rightarrow> go_error option \<times> 'w) \<Rightarrow> bool" where
  "clock_ok js wait \<longleftrightarrow>
     (\<forall>w k. js_Now js w \<le> js_Now js (snd (js_KeyValue js w k))) \<and>
     (\<forall>w c. js_Now js w \<le> js_Now js (snd (js_CreateKeyValue js w c))) \<and>
     (\<forall>w k. js_Now js w \<le> js_Now js (snd (js_Stream js w k))) \<and>
     (\<forall>w c. js_Now js w \<le> js_Now js (snd (js_UpdateStream js w c))) \<and>
     (\<forall>w d. js_Now js w + d \<le> js_Now js (snd (wait w d)))"

lemma TryRaise_clock:
  assumes "clock_ok js wait"
  shows "js_Now js w \<le> js_Now js (snd (TryRaiseBucketReplicas js b n p w))"
proof -
  have "js_Now js w \<le> js_Now js (snd (RaiseBucketReplicas js b n w))"
  proof (cases "js_StreamManager js")
    case True
    obtain x w1 where x: "js_Stream js w (streamPrefix @ b) = (x, w1)" by fastforce
    have n1: "js_Now js w \<le> js_Now js w1" using assms x unfolding clock_ok_def by (metis snd_conv)
    show ?thesis
    proof (cases x)
      case (Inr info)
      obtain y w2 where y: "js_UpdateStream js w1 ((si_Config info)\<lparr>sc_Replicas := n\<rparr>) = (y, w2)" by fastforce
      have "js_Now js w1 \<le> js_Now js w2" using assms y unfolding clock_ok_def by (metis snd_conv)
      with n1 True x Inr y show ?thesis by (auto simp: RaiseBucketReplicas_def Let_def split: sum.splits)
    qed (use True x n1 in \<open>simp add: RaiseBucketReplicas_def\<close>)
  qed (simp add: RaiseBucketReplicas_def)
  then show ?thesis by (auto simp: TryRaiseBucketReplicas_def split: prod.splits bool.splits)
qed

lemma OpenBucket_clock:
  assumes "clock_ok js wait" and "bc_Version cfg = 0" and "OpenBucket js reg cfg p w = (x, p1, w1)"
  shows "js_Now js w \<le> js_Now js w1"
proof (cases "Replicas (pr_nodes p)")
  case (Inr replicas)
  obtain y w2 where y: "js_KeyValue js w (bc_Name cfg) = (y, w2)" by fastforce
  have n2: "js_Now js w \<le> js_Now js w2" using assms(1) y unfolding clock_ok_def by (metis snd_conv)
  show ?thesis
  proof (cases y)
    case (Inr kv)
    obtain p3 w3 where t: "TryRaiseBucketReplicas js (bc_Name cfg) replicas p w2 = (p3, w3)" by fastforce
    with TryRaise_clock [OF assms(1), of w2 "bc_Name cfg" replicas p] n2 have "js_Now js w \<le> js_Now js w3" by simp
    with assms(2,3) y Inr t \<open>Replicas (pr_nodes p) = Inr replicas\<close> show ?thesis by (simp add: OpenBucket_def Let_def)
  next
    case (Inl err)
    let ?c = "\<lparr>kc_Bucket = bc_Name cfg, kc_Description = [], kc_History = 1, kc_TTL = bc_TTL cfg, kc_Replicas = replicas\<rparr>"
    obtain z w3 where z: "js_CreateKeyValue js w2 ?c = (z, w3)" by fastforce
    have "js_Now js w2 \<le> js_Now js w3" using assms(1) z unfolding clock_ok_def by (metis snd_conv)
    with n2 assms(2,3) y Inl z \<open>Replicas (pr_nodes p) = Inr replicas\<close> show ?thesis
      by (auto simp: OpenBucket_def Let_def split: if_splits sum.splits)
  qed
qed (use assms(3) in \<open>simp add: OpenBucket_def\<close>)

lemma nats_bucket_loop_returns:
  assumes "clock_ok js wait" and "bc_Version cfg = 0"
  shows "\<exists>y. nats_bucket_loop js reg wait cfg deadline p w = Some y"
proof (induction "nat (deadline + 1 - js_Now js w)" arbitrary: p w rule: less_induct)
  case less
  obtain x p1 w1 where o: "OpenBucket js reg cfg p w = (x, p1, w1)" by (metis prod_cases3)
  note n1 = OpenBucket_clock [OF assms o]
  obtain e w2 where e: "wait w1 bucketRetryStep = (e, w2)" by fastforce
  have n2: "js_Now js w1 + bucketRetryStep \<le> js_Now js w2" using assms(1) e unfolding clock_ok_def by (metis snd_conv)
  show ?case
  proof (cases "\<exists>err. x = Inl err \<and> \<not> Permanent err \<and> js_Now js w1 \<le> deadline \<and> e = None")
    case True
    with n1 n2 have "nat (deadline + 1 - js_Now js w2) < nat (deadline + 1 - js_Now js w)" by (auto simp: bucketRetryStep_def)
    from less [OF this, of p1] True o e show ?thesis by (subst nats_bucket_loop.simps) auto
  next
    case False
    with o e show ?thesis by (subst nats_bucket_loop.simps) (auto split: sum.splits option.splits)
  qed
qed

text \<open>
  C36. Opening a lease's bucket ends. Whatever JetStream answers, and however often the bucket cannot be
  opened, if no call turns the clock back and each wait lets its second pass, the retry loop of
  \<open>NATSBucket\<close> returns a bucket or an error.
\<close>

theorem NATSBucket_returns:
  assumes "clock_ok js wait"
  shows "\<exists>y. NATSBucket (Inr js) reg wait bucket ttl p w = Some y"
  using nats_bucket_loop_returns [OF assms] by (simp add: NATSBucket_def)

definition down_js :: "(int, string) JetStream" where
  "down_js = \<lparr>js_KeyValue = (\<lambda>w k. (Inl (Text ''timeout''), w)), js_CreateKeyValue = (\<lambda>w c. (Inl (Text ''timeout''), w)),
     js_DeleteKeyValue = (\<lambda>w k. (Inl (Text ''timeout''), w)), js_Names = (\<lambda>w. (Inl (Text ''timeout''), w)),
     js_Stream = (\<lambda>w k. (Inl (Text ''timeout''), w)), js_Info = (\<lambda>w k. (Inl (Text ''timeout''), w)),
     js_UpdateStream = (\<lambda>w c. (Inl (Text ''timeout''), w)), js_StreamManager = True, js_IntToUint8 = id, js_Now = id\<rparr>"

theorem NATSBucket_returns_witness:
  "\<exists>y. NATSBucket (Inr down_js) (\<lambda>_. []) (\<lambda>w d. (None, w + d)) ''leases'' 30 \<lparr>pr_nodes = 3, pr_last = Map.empty\<rparr> 0 = Some y"
  by (rule NATSBucket_returns) (simp add: clock_ok_def down_js_def)

section \<open>Interleavings that go wrong\<close>

text \<open>A renewal that ticks between the two critical sections of a release finds the lease still held
  and its handle nil, and panics.\<close>

lemma release_renew_panic:
  assumes "Held n" and "i < length (nd_tasks n)"
  shows "rt_phase (nd_tasks (renew_load i (release_detach n)) ! i) = Panicked"
proof -
  have "length (cancel stop ts) = length ts" for stop and ts :: "'a renew_task list"
    by (simp add: cancel_def split: option.splits)
  with assms show ?thesis by (simp add: renew_load_def release_detach_def Let_def Held_def set_phase_def)
qed

text \<open>A renewal that is answered before a release, and stores its revision after the next
  acquisition, overwrites the newer revision, so that the next renewal loses a lease that nobody
  contests.\<close>

lemma stale_renewal_drops_lease:
  "let kv = mem_kv by_b;
       s1 = renew_update 0 kv 1 (renew_load 0 a_node, a_holds\<lparr>mem_script := []\<rparr>);
       s2 = snd (TryAcquire (LeaseRelease s1));
       s3 = renew_store 0 (Inr 2) s2;
       s4 = renew 1 s3
   in Held (fst s2) \<and> l_rev (nd_lease (fst s2)) = 3 \<and> l_rev (nd_lease (fst s3)) = 2 \<and>
      stored b_view (snd s4) ''l'' = Some (''a'', 3) \<and> \<not> Held (fst s4)"
  by (simp add: lease_eval a_node_def install_def cancel_def renew_load_def renew_update_def renew_store_def renew_def
      LeaseRelease_def release_detach_def release_finish_def markLost_def set_phase_def Let_def eval_nat_numeral mem_ops
      mem_delete)

end
