(* ===== verification/Quota.thy ===== *)
theory Quota
  imports Kvstore VmState
begin

text \<open>
  Per-account admission, \<open>domains/admission/quota\<close>: the limits with their per-account overrides
  (\<open>quota.go\<close>, \<open>override.go\<close>), the sealing of an account's overrides (\<open>seal.go\<close>), the vCPU counter
  (\<open>vcpu.go\<close>) with its reconciliation from the instance records (\<open>reconcile.go\<close>, \<open>records.go\<close>), and the
  dimensions counted live (\<open>live.go\<close>, \<open>storage.go\<close>).

  The counter is a record of a \<open>kvstore\<close> store, whose bucket, process and world are the state of an
  operation; the override bucket is a handle on the same world. The describe calls, the account and
  instance listers and the catalogue of vCPUs per instance type are arguments. A nil service is
  \<open>None\<close>.
\<close>

section \<open>Limits\<close>

definition Unlimited :: int where "Unlimited = -1"

definition GlobalAccountID :: string where "GlobalAccountID = ''000000000000''"

definition IsAccountID :: "string \<Rightarrow> bool" where
  "IsAccountID s \<longleftrightarrow> length s = 12 \<and> list_all is_digit s"

abbreviation ErrorBlocked :: string where "ErrorBlocked \<equiv> ''Blocked''"
abbreviation ErrorInternalError :: string where "ErrorInternalError \<equiv> ''InternalError''"
abbreviation ErrorResourceLimitExceeded :: string where "ErrorResourceLimitExceeded \<equiv> ''ResourceLimitExceeded''"
abbreviation ErrorInvalidParameterValue :: string where "ErrorInvalidParameterValue \<equiv> ''InvalidParameterValue''"
abbreviation ErrorIncorrectState :: string where "ErrorIncorrectState \<equiv> ''IncorrectState''"
abbreviation ErrorMissingParameter :: string where "ErrorMissingParameter \<equiv> ''MissingParameter''"

text \<open>\<open>awserrors.Errorf\<close>: the code wrapped below a message.\<close>

definition aws_errorf :: "string \<Rightarrow> string \<Rightarrow> go_error" where
  "aws_errorf code message = Wrapped (message @ '': '') [Text code] []"

definition IsErrorCode :: "go_error \<Rightarrow> string \<Rightarrow> bool" where
  "IsErrorCode err code = go_contains (error_text err) code"

record Limits =
  lim_Enabled :: bool
  lim_VCPUs :: int
  lim_VPCs :: int
  lim_Subnets :: int
  lim_EIPs :: int
  lim_VolumesGiB :: int
  lim_Volumes :: int
  lim_RDSInstances :: int
  lim_LoadBalancers :: int
  lim_TokensPerMonthEnabled :: bool
  lim_TokensPerMonth :: int

record ('w, 'd) QuotaService =
  q_limits :: Limits
  q_bedrockUsage :: "('w \<Rightarrow> string \<Rightarrow> int result \<times> 'w) option"
  q_overrides :: "('w, 'd) kv option"
  q_js :: "('w, 'd) JetStream option"
  q_terminationChecker :: "('w \<Rightarrow> string \<Rightarrow> bool result \<times> 'w) option"

definition vcpuCASRetries :: int where "vcpuCASRetries = 25"

definition usageConfig :: "('w, 'd) Config" where
  "usageConfig = \<lparr>Name = ''spinifex-account-usage'', History = 0, Description = [], TTL = 0,
     Missing = ''account usage KV bucket not configured'', cfgAttempts = vcpuCASRetries,
     cfgExhausted = Some (\<lambda>key n. Text (''vcpu counter CAS exhausted for '' @ key @ '' after '' @ go_itoa n @ '' attempts'')),
     RecreateIfMissing = False, AttachOnly = False, OnOpen = None\<rparr>"

definition usage_store :: "('w, 'd) kv \<Rightarrow> ('w, 'd) Bucket" where
  "usage_store kv = NewOpenBucket None kv usageConfig"

definition Exempt :: "('w, 'd) QuotaService option \<Rightarrow> string \<Rightarrow> bool" where
  "Exempt s accountID =
     (case s of None \<Rightarrow> True | Some q \<Rightarrow> \<not> lim_Enabled (q_limits q) \<or> accountID = GlobalAccountID)"

definition exceeds :: "int \<Rightarrow> int \<Rightarrow> int \<Rightarrow> go_error option" where
  "exceeds count want limit =
     (if limit = Unlimited then None
      else if want > int64_of (limit - count) then Some (Text ErrorResourceLimitExceeded) else None)"

section \<open>Overrides\<close>

record Overrides =
  ov_VCPUs :: "int option"
  ov_VPCs :: "int option"
  ov_Subnets :: "int option"
  ov_EIPs :: "int option"
  ov_VolumesGiB :: "int option"
  ov_Volumes :: "int option"
  ov_RDSInstances :: "int option"
  ov_LoadBalancers :: "int option"
  ov_UpdatedAt :: string
  ov_UpdatedBy :: string

definition no_overrides :: Overrides where
  "no_overrides = \<lparr>ov_VCPUs = None, ov_VPCs = None, ov_Subnets = None, ov_EIPs = None, ov_VolumesGiB = None,
     ov_Volumes = None, ov_RDSInstances = None, ov_LoadBalancers = None, ov_UpdatedAt = [], ov_UpdatedBy = []\<rparr>"

definition OverrideStateSealed :: string where "OverrideStateSealed = ''sealed''"

record overrideRecord =
  or_Overrides :: Overrides
  or_State :: string

definition zero_override :: overrideRecord where
  "zero_override = \<lparr>or_Overrides = no_overrides, or_State = []\<rparr>"

definition errOverridesSealed :: go_error where "errOverridesSealed = Sentinel ErrorBlocked"

definition errOverridesContended :: go_error where
  "errOverridesContended = Sentinel ''quota override: CAS retries exhausted''"

definition overrideMaxAttempts :: nat where "overrideMaxAttempts = 5"

definition checkActive :: "overrideRecord \<Rightarrow> go_error option" where
  "checkActive rec =
     (if or_State rec = [] then None
      else if or_State rec = OverrideStateSealed then Some errOverridesSealed
      else Some (Text ''quota override: unknown state''))"

definition mapOverrideError :: "go_error \<Rightarrow> go_error" where
  "mapOverrideError err =
     (if errors_Is err ErrorBlocked then Text ErrorBlocked else Text ErrorInternalError)"

definition override_field :: "int option \<Rightarrow> int \<Rightarrow> int" where
  "override_field src dst = (case src of None \<Rightarrow> dst | Some v \<Rightarrow> v)"

definition apply_overrides :: "Overrides \<Rightarrow> Limits \<Rightarrow> Limits" where
  "apply_overrides ov base =
     base\<lparr>lim_VCPUs := override_field (ov_VCPUs ov) (lim_VCPUs base),
          lim_VPCs := override_field (ov_VPCs ov) (lim_VPCs base),
          lim_Subnets := override_field (ov_Subnets ov) (lim_Subnets base),
          lim_EIPs := override_field (ov_EIPs ov) (lim_EIPs base),
          lim_VolumesGiB := override_field (ov_VolumesGiB ov) (lim_VolumesGiB base),
          lim_Volumes := override_field (ov_Volumes ov) (lim_Volumes base),
          lim_RDSInstances := override_field (ov_RDSInstances ov) (lim_RDSInstances base),
          lim_LoadBalancers := override_field (ov_LoadBalancers ov) (lim_LoadBalancers base)\<rparr>"

definition OverridesEmpty :: "Overrides \<Rightarrow> bool" where
  "OverridesEmpty ov \<longleftrightarrow>
     ov_VCPUs ov = None \<and> ov_VPCs ov = None \<and> ov_Subnets ov = None \<and> ov_EIPs ov = None \<and> ov_VolumesGiB ov = None \<and>
     ov_Volumes ov = None \<and> ov_RDSInstances ov = None \<and> ov_LoadBalancers ov = None"

definition recordFor ::
  "('d \<Rightarrow> overrideRecord result) \<Rightarrow> ('w, 'd) QuotaService option \<Rightarrow> string \<Rightarrow> 'w \<Rightarrow> overrideRecord result \<times> 'w" where
  "recordFor odec s accountID w =
     (case Option.bind s q_overrides of
        None \<Rightarrow> (Inr zero_override, w)
      | Some kv \<Rightarrow>
          (case kv_Get kv w accountID of
             (Inl err, w1) \<Rightarrow>
               (if errors_Is err ErrKeyNotFound then Inr zero_override
                else Inl (Wrapped (''read quota override for '' @ accountID @ '': '') [err] []), w1)
           | (Inr (d, r), w1) \<Rightarrow>
               (case odec d of
                  Inl err \<Rightarrow> (Inl (Wrapped (''decode quota override for '' @ accountID @ '': '') [err] []), w1)
                | Inr rec \<Rightarrow> (Inr rec, w1))))"

definition limitsFor ::
  "('d \<Rightarrow> overrideRecord result) \<Rightarrow> ('w, 'd) QuotaService \<Rightarrow> string \<Rightarrow> 'w \<Rightarrow> Limits result \<times> 'w" where
  "limitsFor odec q accountID w =
     (case recordFor odec (Some q) accountID w of
        (Inl err, w1) \<Rightarrow> (Inr (q_limits q), w1)
      | (Inr rec, w1) \<Rightarrow>
          (case checkActive rec of
             Some err \<Rightarrow> (Inl (mapOverrideError err), w1)
           | None \<Rightarrow> (Inr (apply_overrides (or_Overrides rec) (q_limits q)), w1)))"

definition GetAccountQuota ::
  "('d \<Rightarrow> overrideRecord result) \<Rightarrow> ('w, 'd) QuotaService \<Rightarrow> string \<Rightarrow> 'w \<Rightarrow> (Overrides \<times> Limits) result \<times> 'w" where
  "GetAccountQuota odec q accountID w =
     (case recordFor odec (Some q) accountID w of
        (Inl err, w1) \<Rightarrow> (Inl err, w1)
      | (Inr rec, w1) \<Rightarrow>
          (case checkActive rec of
             Some err \<Rightarrow> (Inl (mapOverrideError err), w1)
           | None \<Rightarrow> (Inr (or_Overrides rec, apply_overrides (or_Overrides rec) (q_limits q)), w1)))"

text \<open>The closure \<open>PutAccountQuota\<close> gives to \<open>Update\<close>, and the guarded delete of an active record.\<close>

definition put_override :: "Overrides \<Rightarrow> (overrideRecord, unit) mutator" where
  "put_override over rec =
     (case checkActive rec of Some err \<Rightarrow> Inl err | None \<Rightarrow> Inr (True, rec\<lparr>or_Overrides := over\<rparr>, ()))"

definition override_cas :: CASConfig where
  "override_cas = \<lparr>Attempts = int overrideMaxAttempts, CreateIfAbsent = True, NotFound = None,
     Exhausted = Some (\<lambda>key n. errOverridesContended)\<rparr>"

fun clear_attempts ::
  "('d \<Rightarrow> overrideRecord result) \<Rightarrow> ('w, 'd) kv \<Rightarrow> string \<Rightarrow> nat \<Rightarrow> 'w \<Rightarrow> go_error option \<times> 'w" where
  "clear_attempts odec kv accountID 0 w = (Some (mapOverrideError errOverridesContended), w)"
| "clear_attempts odec kv accountID (Suc n) w =
     (case kv_Get kv w accountID of
        (Inl err, w1) \<Rightarrow>
          if errors_Is err ErrKeyNotFound then (None, w1)
          else (Some (mapOverrideError (Wrapped ''read quota override for clear: '' [err] [])), w1)
      | (Inr (d, r), w1) \<Rightarrow>
          (case odec d of
             Inl err \<Rightarrow> (Some (mapOverrideError (Wrapped ''decode quota override for clear: '' [err] [])), w1)
           | Inr rec \<Rightarrow>
               (case checkActive rec of
                  Some err \<Rightarrow> (Some (mapOverrideError err), w1)
                | None \<Rightarrow>
                    (case kv_Delete kv w1 accountID (Some r) of
                       (Inr u, w2) \<Rightarrow> (None, w2)
                     | (Inl err, w2) \<Rightarrow>
                         if errors_Is err ErrKeyNotFound then (None, w2)
                         else if IsRevisionConflict err then clear_attempts odec kv accountID n w2
                         else (Some (mapOverrideError (Wrapped ''clear quota override: '' [err] [])), w2)))))"

definition clearAccountQuota ::
  "('d \<Rightarrow> overrideRecord result) \<Rightarrow> ('w, 'd) kv \<Rightarrow> string \<Rightarrow> 'w \<Rightarrow> go_error option \<times> 'w" where
  "clearAccountQuota odec kv accountID w = clear_attempts odec kv accountID overrideMaxAttempts w"

definition PutAccountQuota ::
  "'w pause \<Rightarrow> ('d \<Rightarrow> overrideRecord result) \<Rightarrow> (overrideRecord \<Rightarrow> 'd result) \<Rightarrow> ('w \<Rightarrow> string) \<Rightarrow>
   ('w, 'd) QuotaService option \<Rightarrow> string \<Rightarrow> Overrides \<Rightarrow> string \<Rightarrow> 'w \<Rightarrow> go_error option \<times> 'w" where
  "PutAccountQuota pause odec oenc now s accountID over updatedBy w =
     (case Option.bind s q_overrides of
        None \<Rightarrow> (Some (Text ''quota: override bucket not configured''), w)
      | Some kv \<Rightarrow>
          if OverridesEmpty over then clearAccountQuota odec kv accountID w
          else
            (case Update kv pause odec oenc zero_override accountID override_cas
                    (put_override (over\<lparr>ov_UpdatedAt := now w, ov_UpdatedBy := updatedBy\<rparr>)) w of
               (Inl err, w1) \<Rightarrow> (Some (mapOverrideError err), w1)
             | (Inr r, w1) \<Rightarrow> (None, w1)))"

section \<open>Sealing\<close>

definition sealMaxAttempts :: nat where "sealMaxAttempts = 5"

definition sealedRecord :: overrideRecord where
  "sealedRecord = \<lparr>or_Overrides = no_overrides, or_State = OverrideStateSealed\<rparr>"

definition checkTerminating :: "('w, 'd) QuotaService \<Rightarrow> string \<Rightarrow> 'w \<Rightarrow> go_error option \<times> 'w" where
  "checkTerminating q accountID w =
     (case q_terminationChecker q of
        None \<Rightarrow> (Some (Text ErrorInternalError), w)
      | Some f \<Rightarrow>
          (case f w accountID of
             (Inl err, w1) \<Rightarrow> (Some (Text ErrorInternalError), w1)
           | (Inr terminating, w1) \<Rightarrow>
               (if terminating then None
                else Some (aws_errorf ErrorIncorrectState (''account '' @ accountID @ '' is not TERMINATING'')), w1)))"

definition sealBucket ::
  "('w, 'd) QuotaService \<Rightarrow> Proc \<Rightarrow> 'w \<Rightarrow> ('w, 'd) kv result \<times> Proc \<times> 'w" where
  "sealBucket q p w =
     (case q_overrides q of
        Some kv \<Rightarrow> (Inr kv, p, w)
      | None \<Rightarrow>
          (case q_js q of
             None \<Rightarrow> (Inl (Text ErrorInternalError), p, w)
           | Some js \<Rightarrow>
               (case GetOrCreateBucket js ''spinifex-account-quota'' 1 p w of
                  (Inl err, p1, w1) \<Rightarrow> (Inl (Text ErrorInternalError), p1, w1)
                | (Inr kv, p1, w1) \<Rightarrow> (Inr kv, p1, w1))))"

fun seal_attempts :: "('w, 'd) kv \<Rightarrow> string \<Rightarrow> 'd \<Rightarrow> nat \<Rightarrow> 'w \<Rightarrow> nat result \<times> 'w" where
  "seal_attempts kv accountID data 0 w = (Inl (Text ErrorInternalError), w)"
| "seal_attempts kv accountID data (Suc n) w =
     (let proceed = (\<lambda>r w1.
            case (if r = 0 then kv_Create kv w1 accountID data else kv_Update kv w1 accountID data r) of
              (Inr newRev, w2) \<Rightarrow> (Inr newRev, w2)
            | (Inl err, w2) \<Rightarrow>
                if IsRevisionConflict err then seal_attempts kv accountID data n w2
                else (Inl (Text ErrorInternalError), w2))
      in case kv_Get kv w accountID of
           (Inr (d, r), w1) \<Rightarrow> proceed r w1
         | (Inl err, w1) \<Rightarrow>
             if errors_Is err ErrKeyNotFound then proceed 0 w1 else (Inl (Text ErrorInternalError), w1))"

definition SealAccountOverrides ::
  "(overrideRecord \<Rightarrow> 'd result) \<Rightarrow> ('w, 'd) QuotaService \<Rightarrow> string \<Rightarrow> Proc \<Rightarrow> 'w \<Rightarrow> nat result \<times> Proc \<times> 'w" where
  "SealAccountOverrides oenc q accountID p w =
     (if accountID = [] then
        (Inl (aws_errorf ErrorMissingParameter ''accountID is required to seal quota overrides''), p, w)
      else if \<not> IsAccountID accountID then
        (Inl (aws_errorf ErrorInvalidParameterValue ''accountID is not a valid AWS account ID''), p, w)
      else if accountID = GlobalAccountID then
        (Inl (aws_errorf ErrorInvalidParameterValue ''quota override seal must not target the global account''), p, w)
      else
        (case checkTerminating q accountID w of
           (Some err, w1) \<Rightarrow> (Inl err, p, w1)
         | (None, w1) \<Rightarrow>
             (case sealBucket q p w1 of
                (Inl err, p2, w2) \<Rightarrow> (Inl err, p2, w2)
              | (Inr kv, p2, w2) \<Rightarrow>
                  (case oenc sealedRecord of
                     Inl err \<Rightarrow> (Inl (Text ErrorInternalError), p2, w2)
                   | Inr data \<Rightarrow>
                       (case seal_attempts kv accountID data sealMaxAttempts w2 of (x, w3) \<Rightarrow> (x, p2, w3))))))"

section \<open>The vCPU counter\<close>

text \<open>The codecs of the counter and of the override record, and a step of the state that only
  touches the world.\<close>

record 'd quota_codec =
  vdec :: "'d \<Rightarrow> int result"
  venc :: "int \<Rightarrow> 'd result"
  odec :: "'d \<Rightarrow> overrideRecord result"
  oenc :: "overrideRecord \<Rightarrow> 'd result"

definition on_world :: "('w \<Rightarrow> 'r \<times> 'w) \<Rightarrow> ('w, 'd) bstate \<Rightarrow> 'r \<times> ('w, 'd) bstate" where
  "on_world f st = (case st of (b, p, w) \<Rightarrow> (case f w of (x, w1) \<Rightarrow> (x, b, p, w1)))"

definition readVCPU :: "'d quota_codec \<Rightarrow> string \<Rightarrow> ('w, 'd) bstate \<Rightarrow> (int \<times> nat) result \<times> ('w, 'd) bstate" where
  "readVCPU cd accountID st =
     (case Store_Get (vdec cd) accountID st of
        (Inl err, st1) \<Rightarrow> (if errors_Is err ErrNotFound then Inr (0, 0) else Inl err, st1)
      | (Inr (v, r), st1) \<Rightarrow> (Inr (v, r), st1))"

definition CheckVCPU ::
  "'d quota_codec \<Rightarrow> ('w, 'd) QuotaService option \<Rightarrow> string \<Rightarrow> int \<Rightarrow> ('w, 'd) bstate \<Rightarrow>
   go_error option \<times> ('w, 'd) bstate" where
  "CheckVCPU cd s accountID want st =
     (if Exempt s accountID then (None, st)
      else
        (case readVCPU cd accountID st of
           (Inl err, st1) \<Rightarrow> (Some err, st1)
         | (Inr (current, r), st1) \<Rightarrow>
             (case on_world (limitsFor (odec cd) (the s) accountID) st1 of
                (Inl err, st2) \<Rightarrow> (Some err, st2)
              | (Inr limits, st2) \<Rightarrow> (exceeds current want (lim_VCPUs limits), st2))))"

definition vcpu_mutator :: "(int \<Rightarrow> int \<times> bool) \<Rightarrow> (int, unit) mutator" where
  "vcpu_mutator step current =
     (case step current of (v, skip) \<Rightarrow> if skip then Inr (False, current, ()) else Inr (True, v, ()))"

definition casVCPU ::
  "'w pause \<Rightarrow> 'd quota_codec \<Rightarrow> string \<Rightarrow> (int \<Rightarrow> int \<times> bool) \<Rightarrow> ('w, 'd) bstate \<Rightarrow> go_error option \<times> ('w, 'd) bstate" where
  "casVCPU pause cd accountID step st =
     (case Store_Upsert pause (vdec cd) (venc cd) 0 accountID (vcpu_mutator step) st of
        (Inl err, st1) \<Rightarrow> (Some err, st1) | (Inr r, st1) \<Rightarrow> (None, st1))"

definition AddVCPU ::
  "'w pause \<Rightarrow> 'd quota_codec \<Rightarrow> ('w, 'd) QuotaService option \<Rightarrow> string \<Rightarrow> int \<Rightarrow> ('w, 'd) bstate \<Rightarrow>
   go_error option \<times> ('w, 'd) bstate" where
  "AddVCPU pause cd s accountID delta st =
     (if Exempt s accountID \<or> delta \<le> 0 then (None, st)
      else casVCPU pause cd accountID (\<lambda>current. (int64_of (current + delta), False)) st)"

definition setVCPU ::
  "'w pause \<Rightarrow> 'd quota_codec \<Rightarrow> string \<Rightarrow> int \<Rightarrow> ('w, 'd) bstate \<Rightarrow> go_error option \<times> ('w, 'd) bstate" where
  "setVCPU pause cd accountID v st = casVCPU pause cd accountID (\<lambda>current. (v, current = v)) st"

definition setVCPUAt ::
  "'d quota_codec \<Rightarrow> string \<Rightarrow> int \<Rightarrow> nat \<Rightarrow> ('w, 'd) bstate \<Rightarrow> go_error option \<times> ('w, 'd) bstate" where
  "setVCPUAt cd accountID v sinceRevision st =
     (case readVCPU cd accountID st of
        (Inl err, st1) \<Rightarrow> (Some err, st1)
      | (Inr (current, r), st1) \<Rightarrow>
          if r \<noteq> sinceRevision \<or> current = v then (None, st1)
          else
            (case (if r = 0 then Store_Create (venc cd) accountID v st1
                   else CompareAndSet (venc cd) accountID v r st1) of
               (Inr n, st2) \<Rightarrow> (None, st2)
             | (Inl err, st2) \<Rightarrow>
                 (if errors_Is err ErrExists \<or> errors_Is err ErrConflict then None else Some err, st2)))"

definition reconcileVCPU ::
  "'w pause \<Rightarrow> 'd quota_codec \<Rightarrow> string \<Rightarrow> int \<Rightarrow> bool \<Rightarrow> nat \<Rightarrow> ('w, 'd) bstate \<Rightarrow> go_error option \<times> ('w, 'd) bstate" where
  "reconcileVCPU pause cd accountID v complete sinceRevision st =
     (if complete then setVCPUAt cd accountID v sinceRevision st
      else
        (case readVCPU cd accountID st of
           (Inl err, st1) \<Rightarrow> (Some err, st1)
         | (Inr (current, r), st1) \<Rightarrow>
             if v \<le> current then (None, st1) else setVCPU pause cd accountID v st1))"

definition launch_want :: "int \<Rightarrow> int \<Rightarrow> int" where
  "launch_want perType maxCount =
     (if perType \<le> 0 \<or> maxCount \<le> MaxInt div perType then int64_of (perType * maxCount) else MaxInt)"

definition EnforceLaunch ::
  "(string \<rightharpoonup> int) \<Rightarrow> 'd quota_codec \<Rightarrow> ('w, 'd) QuotaService option \<Rightarrow> string \<Rightarrow> string \<Rightarrow> int \<Rightarrow> ('w, 'd) bstate \<Rightarrow>
   go_error option \<times> ('w, 'd) bstate" where
  "EnforceLaunch DefaultVCPUs cd s accountID instanceType maxCount st =
     (if maxCount < 1 then (Some (Text ErrorInvalidParameterValue), st)
      else (case DefaultVCPUs instanceType of
              None \<Rightarrow> (None, st)
            | Some perType \<Rightarrow> CheckVCPU cd s accountID (launch_want perType maxCount) st))"

text \<open>A described instance: nil pointers are \<open>None\<close>.\<close>

record ec2_instance =
  ei_InstanceId :: "string option"
  ei_InstanceType :: "string option"
  ei_State :: "string option option"

type_synonym reservation = "ec2_instance option list option"

definition isTerminalState :: "string option option \<Rightarrow> bool" where
  "isTerminalState state =
     (case state of Some (Some n) \<Rightarrow> n = ''shutting-down'' \<or> n = ''terminated'' | _ \<Rightarrow> False)"

definition reservation_instances :: "reservation list \<Rightarrow> ec2_instance list" where
  "reservation_instances rs = List.map_filter id (concat (List.map_filter id rs))"

definition counted_instances :: "reservation list \<Rightarrow> ec2_instance list" where
  "counted_instances rs =
     filter (\<lambda>i. ei_InstanceType i \<noteq> None \<and> \<not> isTerminalState (ei_State i)) (reservation_instances rs)"

definition sumReservationVCPUs :: "(string \<rightharpoonup> int) \<Rightarrow> reservation list \<Rightarrow> int" where
  "sumReservationVCPUs DefaultVCPUs rs =
     foldl (\<lambda>total i. case DefaultVCPUs (the (ei_InstanceType i)) of None \<Rightarrow> total | Some v \<Rightarrow> int64_of (total + v))
       0 (counted_instances rs)"

definition instanceTypeFromReservations :: "reservation list \<Rightarrow> string \<Rightarrow> string option" where
  "instanceTypeFromReservations rs instanceID =
     (case find (\<lambda>i. (case ei_InstanceId i of None \<Rightarrow> [] | Some x \<Rightarrow> x) = instanceID) (counted_instances rs) of
        None \<Rightarrow> None | Some i \<Rightarrow> ei_InstanceType i)"

definition ChargeLaunch ::
  "(string \<rightharpoonup> int) \<Rightarrow> 'w pause \<Rightarrow> 'd quota_codec \<Rightarrow> ('w, 'd) QuotaService option \<Rightarrow> string \<Rightarrow> reservation \<Rightarrow>
   ('w, 'd) bstate \<Rightarrow> go_error option \<times> ('w, 'd) bstate" where
  "ChargeLaunch DefaultVCPUs pause cd s accountID res st =
     AddVCPU pause cd s accountID (sumReservationVCPUs DefaultVCPUs [res]) st"

definition EnforceRetype ::
  "(string \<rightharpoonup> int) \<Rightarrow> (string \<Rightarrow> string \<Rightarrow> 'w \<Rightarrow> string option result \<times> 'w) \<Rightarrow> 'd quota_codec \<Rightarrow>
   ('w, 'd) QuotaService option \<Rightarrow> string \<Rightarrow> string \<Rightarrow> string \<Rightarrow> ('w, 'd) bstate \<Rightarrow> int result \<times> ('w, 'd) bstate" where
  "EnforceRetype DefaultVCPUs resolve cd s accountID instanceID newType st =
     (if Exempt s accountID then (Inr 0, st)
      else
        (case DefaultVCPUs newType of
           None \<Rightarrow> (Inr 0, st)
         | Some newVCPUs \<Rightarrow>
             (case on_world (resolve accountID instanceID) st of
                (Inl err, st1) \<Rightarrow> (Inl err, st1)
              | (Inr None, st1) \<Rightarrow> (Inr 0, st1)
              | (Inr (Some oldType), st1) \<Rightarrow>
                  (case DefaultVCPUs oldType of
                     None \<Rightarrow> (Inr 0, st1)
                   | Some oldVCPUs \<Rightarrow>
                       (let delta = int64_of (newVCPUs - oldVCPUs) in
                        if delta \<le> 0 then (Inr delta, st1)
                        else (case CheckVCPU cd s accountID delta st1 of
                                (Some err, st2) \<Rightarrow> (Inl err, st2)
                              | (None, st2) \<Rightarrow> (Inr delta, st2)))))))"

section \<open>Reconciliation\<close>

text \<open>A lister gives the totals of the accounts that hold something and whether they may be lowered to.\<close>

type_synonym 'w vcpu_lister = "'w \<Rightarrow> ((string \<rightharpoonup> int) \<times> bool) result \<times> 'w"

abbreviation total_of :: "(string \<rightharpoonup> int) \<Rightarrow> string \<Rightarrow> int" where
  "total_of totals a \<equiv> (case totals a of None \<Rightarrow> 0 | Some n \<Rightarrow> n)"

fun counterRevisions ::
  "'d quota_codec \<Rightarrow> string list \<Rightarrow> (string \<rightharpoonup> nat) \<Rightarrow> ('w, 'd) bstate \<Rightarrow> (string \<rightharpoonup> nat) \<times> ('w, 'd) bstate" where
  "counterRevisions cd [] out st = (out, st)"
| "counterRevisions cd (a # as) out st =
     (case readVCPU cd a st of
        (Inl err, st1) \<Rightarrow> counterRevisions cd as out st1
      | (Inr (v, r), st1) \<Rightarrow> counterRevisions cd as (out(a \<mapsto> r)) st1)"

abbreviation revision_of :: "(string \<rightharpoonup> nat) \<Rightarrow> string \<Rightarrow> nat" where
  "revision_of revs a \<equiv> (case revs a of None \<Rightarrow> 0 | Some r \<Rightarrow> r)"

fun reconcile_accounts ::
  "'w pause \<Rightarrow> 'd quota_codec \<Rightarrow> ('w \<Rightarrow> go_error option) \<Rightarrow> (string \<rightharpoonup> int) \<Rightarrow> bool \<Rightarrow> (string \<rightharpoonup> nat) \<Rightarrow>
   string list \<Rightarrow> go_error option \<Rightarrow> ('w, 'd) bstate \<Rightarrow> go_error option \<times> ('w, 'd) bstate" where
  "reconcile_accounts pause cd ctx totals complete before [] firstErr st = (firstErr, st)"
| "reconcile_accounts pause cd ctx totals complete before (a # as) firstErr st =
     (case ctx (snd (snd st)) of
        Some err \<Rightarrow> (Some err, st)
      | None \<Rightarrow>
          (case reconcileVCPU pause cd a (total_of totals a) complete (revision_of before a) st of
             (err, st1) \<Rightarrow>
               reconcile_accounts pause cd ctx totals complete before as
                 (case firstErr of None \<Rightarrow> err | Some e \<Rightarrow> Some e) st1))"

definition Reconcile ::
  "'w pause \<Rightarrow> 'd quota_codec \<Rightarrow> ('w \<Rightarrow> go_error option) \<Rightarrow> ('w, 'd) QuotaService option \<Rightarrow>
   ('w \<Rightarrow> string list result \<times> 'w) \<Rightarrow> 'w vcpu_lister \<Rightarrow> ('w, 'd) bstate \<Rightarrow> go_error option \<times> ('w, 'd) bstate" where
  "Reconcile pause cd ctx s accounts list st =
     (case s of
        None \<Rightarrow> (None, st)
      | Some q \<Rightarrow>
          if \<not> lim_Enabled (q_limits q) then (None, st)
          else
            (case on_world accounts st of
               (Inl err, st1) \<Rightarrow> (Some (Wrapped ''quota reconcile: list accounts: '' [err] []), st1)
             | (Inr ids, st1) \<Rightarrow>
                 (let charged = filter (\<lambda>a. a \<noteq> GlobalAccountID) ids in
                  case counterRevisions cd charged Map.empty st1 of
                    (before, st2) \<Rightarrow>
                      (case on_world list st2 of
                         (Inl err, st3) \<Rightarrow> (Some err, st3)
                       | (Inr (totals, complete), st3) \<Rightarrow>
                           reconcile_accounts pause cd ctx totals complete before charged None st3))))"

definition ReconcileAccount ::
  "'w pause \<Rightarrow> 'd quota_codec \<Rightarrow> ('w, 'd) QuotaService option \<Rightarrow> string \<Rightarrow> 'w vcpu_lister \<Rightarrow> ('w, 'd) bstate \<Rightarrow>
   go_error option \<times> ('w, 'd) bstate" where
  "ReconcileAccount pause cd s accountID list st =
     (if (case s of None \<Rightarrow> True | Some q \<Rightarrow> \<not> lim_Enabled (q_limits q)) \<or> accountID = GlobalAccountID then (None, st)
      else
        (case counterRevisions cd [accountID] Map.empty st of
           (before, st1) \<Rightarrow>
             (case on_world list st1 of
                (Inl err, st2) \<Rightarrow> (Some (Wrapped (''quota reconcile '' @ accountID @ '': instance scan: '') [err] []), st2)
              | (Inr (totals, complete), st2) \<Rightarrow>
                  (case reconcileVCPU pause cd accountID (total_of totals accountID) complete (revision_of before accountID) st2 of
                     (Some err, st3) \<Rightarrow>
                       (Some (Wrapped (''quota reconcile '' @ accountID @ '': counter overwrite: '') [err] []), st3)
                   | (None, st3) \<Rightarrow> (None, st3)))))"

text \<open>The fields of an instance record the sweep reads.\<close>

record instance_record =
  ir_AccountID :: string
  ir_InstanceType :: string
  ir_Status :: InstanceState

definition recordIsTerminal :: "instance_record \<Rightarrow> bool" where
  "recordIsTerminal rec \<longleftrightarrow> ir_Status rec = StateShuttingDown \<or> ir_Status rec = StateTerminated"

definition record_totals :: "(string \<rightharpoonup> int) \<Rightarrow> instance_record list \<Rightarrow> string \<rightharpoonup> int" where
  "record_totals DefaultVCPUs recs =
     foldl (\<lambda>totals rec.
       if ir_AccountID rec = [] \<or> ir_AccountID rec = GlobalAccountID \<or> recordIsTerminal rec then totals
       else (case DefaultVCPUs (ir_InstanceType rec) of
               None \<Rightarrow> totals
             | Some v \<Rightarrow> totals(ir_AccountID rec \<mapsto> int64_of (total_of totals (ir_AccountID rec) + v))))
       Map.empty recs"

definition RecordVCPULister ::
  "(string \<rightharpoonup> int) \<Rightarrow> ('w \<Rightarrow> string \<Rightarrow> nat result \<times> 'w) \<Rightarrow>
   ('w \<Rightarrow> string \<Rightarrow> (instance_record Item list \<times> nat) result \<times> 'w) \<Rightarrow> string \<Rightarrow> 'w vcpu_lister" where
  "RecordVCPULister DefaultVCPUs LastSequence Snapshot prefix w =
     (let filt = prefix @ ''*'' in
      case LastSequence w filt of
        (watermark, w1) \<Rightarrow>
          (case Snapshot w1 filt of
             (Inl err, w2) \<Rightarrow> (Inl err, w2)
           | (Inr (items, highWater), w2) \<Rightarrow>
               (let totals = record_totals DefaultVCPUs (map it_Value items) in
                (Inr (totals, case watermark of Inl err \<Rightarrow> False | Inr m \<Rightarrow> m \<le> highWater), w2))))"

definition AccountForRecord :: "('d \<Rightarrow> instance_record result) \<Rightarrow> 'd \<Rightarrow> string option" where
  "AccountForRecord dec v =
     (case dec v of
        Inl err \<Rightarrow> None
      | Inr rec \<Rightarrow> if ir_AccountID rec = [] \<or> ir_AccountID rec = GlobalAccountID then None else Some (ir_AccountID rec))"

section \<open>Live-counted dimensions\<close>

text \<open>The common body of the live gates: the describe call, the account's limits, the comparison.\<close>

definition enforce_live ::
  "(Limits \<Rightarrow> int) \<Rightarrow> ('d \<Rightarrow> overrideRecord result) \<Rightarrow> ('w \<Rightarrow> nat result \<times> 'w) \<Rightarrow> ('w, 'd) QuotaService option \<Rightarrow>
   string \<Rightarrow> int \<Rightarrow> 'w \<Rightarrow> go_error option \<times> 'w" where
  "enforce_live dim od describe s accountID want w =
     (if Exempt s accountID then (None, w)
      else
        (case describe w of
           (Inl err, w1) \<Rightarrow> (Some err, w1)
         | (Inr count, w1) \<Rightarrow>
             (case limitsFor od (the s) accountID w1 of
                (Inl err, w2) \<Rightarrow> (Some err, w2)
              | (Inr limits, w2) \<Rightarrow> (exceeds (int count) want (dim limits), w2))))"

definition EnforceVPCs where "EnforceVPCs od describe s = enforce_live lim_VPCs od describe s"
definition EnforceSubnets where "EnforceSubnets od describe s = enforce_live lim_Subnets od describe s"
definition EnforceEIPs where "EnforceEIPs od describe s = enforce_live lim_EIPs od describe s"
definition EnforceLoadBalancers where "EnforceLoadBalancers od describe s = enforce_live lim_LoadBalancers od describe s"
definition EnforceRDSInstances where "EnforceRDSInstances od describe s = enforce_live lim_RDSInstances od describe s"

definition DefaultLoadBalancerLimit :: int where "DefaultLoadBalancerLimit = 50"

definition LoadBalancerLimit ::
  "('d \<Rightarrow> overrideRecord result) \<Rightarrow> ('w, 'd) QuotaService option \<Rightarrow> string \<Rightarrow> 'w \<Rightarrow> int result \<times> 'w" where
  "LoadBalancerLimit od s accountID w =
     (if Exempt s accountID then (Inr DefaultLoadBalancerLimit, w)
      else
        (case GetAccountQuota od (the s) accountID w of
           (Inl err, w1) \<Rightarrow> (Inl (if IsErrorCode err ErrorBlocked then err else Text ErrorInternalError), w1)
         | (Inr (over, limits), w1) \<Rightarrow> (Inr (lim_LoadBalancers limits), w1)))"

text \<open>A described volume: its id and its size in GiB, either of which may be nil.\<close>

type_synonym ec2_volume = "string option \<times> int option"

fun sumVolumeGiB :: "ec2_volume option list \<Rightarrow> string \<Rightarrow> int \<times> int \<Rightarrow> int \<times> int" where
  "sumVolumeGiB [] volumeID acc = acc"
| "sumVolumeGiB (Some (i, Some sz) # vs) volumeID (tot, target) =
     sumVolumeGiB vs volumeID
       (int64_of (tot + sz), if volumeID \<noteq> [] \<and> i = Some volumeID then sz else target)"
| "sumVolumeGiB (v # vs) volumeID acc = sumVolumeGiB vs volumeID acc"

definition EnforceVolumeCreate ::
  "('d \<Rightarrow> overrideRecord result) \<Rightarrow> ('w \<Rightarrow> ec2_volume option list result \<times> 'w) \<Rightarrow> ('w, 'd) QuotaService option \<Rightarrow>
   string \<Rightarrow> int \<Rightarrow> 'w \<Rightarrow> go_error option \<times> 'w" where
  "EnforceVolumeCreate od describe s accountID requestedGiB w =
     (if Exempt s accountID then (None, w)
      else
        (case describe w of
           (Inl err, w1) \<Rightarrow> (Some err, w1)
         | (Inr vols, w1) \<Rightarrow>
             (case limitsFor od (the s) accountID w1 of
                (Inl err, w2) \<Rightarrow> (Some err, w2)
              | (Inr limits, w2) \<Rightarrow>
                  (case exceeds (int (length vols)) 1 (lim_Volumes limits) of
                     Some err \<Rightarrow> (Some err, w2)
                   | None \<Rightarrow> (exceeds (fst (sumVolumeGiB vols [] (0, 0))) requestedGiB (lim_VolumesGiB limits), w2)))))"

definition EnforceVolumeModify ::
  "('d \<Rightarrow> overrideRecord result) \<Rightarrow> ('w \<Rightarrow> ec2_volume option list result \<times> 'w) \<Rightarrow> ('w, 'd) QuotaService option \<Rightarrow>
   string \<Rightarrow> string \<Rightarrow> int \<Rightarrow> 'w \<Rightarrow> go_error option \<times> 'w" where
  "EnforceVolumeModify od describe s accountID volumeID newGiB w =
     (if Exempt s accountID then (None, w)
      else
        (case describe w of
           (Inl err, w1) \<Rightarrow> (Some err, w1)
         | (Inr vols, w1) \<Rightarrow>
             (case sumVolumeGiB vols volumeID (0, 0) of
                (tot, oldGiB) \<Rightarrow>
                  (case limitsFor od (the s) accountID w1 of
                     (Inl err, w2) \<Rightarrow> (Some err, w2)
                   | (Inr limits, w2) \<Rightarrow> (exceeds (int64_of (tot - oldGiB)) newGiB (lim_VolumesGiB limits), w2)))))"

definition CheckBedrockTokens ::
  "('w, 'd) QuotaService option \<Rightarrow> string \<Rightarrow> 'w \<Rightarrow> go_error option \<times> 'w" where
  "CheckBedrockTokens s accountID w =
     (case s of
        None \<Rightarrow> (None, w)
      | Some q \<Rightarrow>
          if \<not> lim_TokensPerMonthEnabled (q_limits q) \<or> accountID = GlobalAccountID then (None, w)
          else (case q_bedrockUsage q of
                  None \<Rightarrow> (None, w)
                | Some f \<Rightarrow>
                    (case f w accountID of
                       (Inl err, w1) \<Rightarrow> (Some err, w1)
                     | (Inr tokens, w1) \<Rightarrow>
                         (if tokens \<ge> lim_TokensPerMonth (q_limits q)
                          then Some (Text ''ServiceQuotaExceededException'') else None, w1))))"

end
