(* ===== verification/Quota_Claims.thy ===== *)
theory Quota_Claims
  imports Quota Kvstore_Claims
begin

text \<open>
  What admission guarantees: the cap is compared exactly, a sealed account's overrides stay sealed, and
  a complete reconciliation pass never overwrites a charge it did not see. A lemma at the end records
  an interleaving in which an incomplete pass lowers the counter.
\<close>

section \<open>The cap\<close>

lemma exceeds_exact:
  assumes "0 \<le> count" and "count \<le> MaxInt" and "-1 \<le> limit" and "limit \<le> MaxInt"
  shows "exceeds count want limit =
    (if limit \<noteq> Unlimited \<and> count + want > limit then Some (Text ErrorResourceLimitExceeded) else None)"
proof -
  have "int64_of (limit - count) = limit - count" using assms by (intro int64_of_id) simp_all
  then show ?thesis by (auto simp: exceeds_def)
qed

lemma launch_want_exact:
  assumes "0 < perType" and "1 \<le> maxCount"
  shows "launch_want perType maxCount = min MaxInt (perType * maxCount)"
proof -
  have le: "maxCount \<le> MaxInt div perType \<longleftrightarrow> perType * maxCount \<le> MaxInt"
  proof
    assume "maxCount \<le> MaxInt div perType"
    then have "perType * maxCount \<le> perType * (MaxInt div perType)" using assms(1) by (intro mult_left_mono) simp_all
    also have "\<dots> \<le> MaxInt" using mult_div_mod_eq [of perType MaxInt] pos_mod_sign [OF assms(1), of MaxInt] by linarith
    finally show "perType * maxCount \<le> MaxInt" .
  next
    assume "perType * maxCount \<le> MaxInt"
    from zdiv_mono1 [OF this assms(1)] assms(1) show "maxCount \<le> MaxInt div perType" by simp
  qed
  have "0 < perType * maxCount" using assms by simp
  then have "int64_of (perType * maxCount) = perType * maxCount" if "perType * maxCount \<le> MaxInt"
    using that by (intro int64_of_id) simp_all
  with assms(1) le show ?thesis by (auto simp: launch_want_def min_def)
qed

text \<open>
  C34. The launch gate enforces the cap exactly, in integers without overflow. If the counter reads \<open>c\<close>
  and the account's vCPU limit is \<open>l\<close>, below the largest integer, then a request for \<open>n\<close> instances of
  a type with \<open>v\<close> vCPUs is refused exactly when a limit is set and \<open>c + v * n\<close> exceeds it, however
  large the product is.
\<close>

theorem EnforceLaunch_exact:
  assumes "\<not> Exempt (Some q) accountID" and "DefaultVCPUs ty = Some v" and "0 < v" and "1 \<le> n"
    and "readVCPU cd accountID st = (Inr (c, r), st1)" and "0 \<le> c" and "c \<le> MaxInt"
    and "on_world (limitsFor (odec cd) q accountID) st1 = (Inr limits, st2)"
    and "-1 \<le> lim_VCPUs limits" and "lim_VCPUs limits < MaxInt"
  shows "EnforceLaunch DefaultVCPUs cd (Some q) accountID ty n st =
    (if lim_VCPUs limits \<noteq> Unlimited \<and> c + v * n > lim_VCPUs limits
     then Some (Text ErrorResourceLimitExceeded) else None, st2)"
proof -
  have "c + min MaxInt (v * n) > lim_VCPUs limits \<longleftrightarrow> c + v * n > lim_VCPUs limits"
    using assms(6,10) by (auto simp: min_def)
  with assms launch_want_exact [OF assms(3,4)] exceeds_exact [OF assms(6,7,9)] show ?thesis
    by (simp add: EnforceLaunch_def CheckVCPU_def)
qed

text \<open>A gateway with a cap of 8 vCPUs and an account that has used 5.\<close>

definition id_codec :: "(int + overrideRecord) quota_codec" where
  "id_codec = \<lparr>vdec = (\<lambda>d. case d of Inl i \<Rightarrow> Inr i | Inr rec \<Rightarrow> Inl (Text ''json'')), venc = (\<lambda>i. Inr (Inl i)),
     odec = (\<lambda>d. case d of Inr rec \<Rightarrow> Inr rec | Inl i \<Rightarrow> Inl (Text ''json'')), oenc = (\<lambda>rec. Inr (Inr rec))\<rparr>"

type_synonym demo_quota_world = "(int + overrideRecord) mem"

definition demo_limits :: Limits where
  "demo_limits = \<lparr>lim_Enabled = True, lim_VCPUs = 8, lim_VPCs = 5, lim_Subnets = 5, lim_EIPs = 5, lim_VolumesGiB = 100,
     lim_Volumes = 5, lim_RDSInstances = 1, lim_LoadBalancers = 1, lim_TokensPerMonthEnabled = False,
     lim_TokensPerMonth = 0\<rparr>"

definition demo_quota :: "(demo_quota_world, int + overrideRecord) QuotaService" where
  "demo_quota = \<lparr>q_limits = demo_limits, q_bedrockUsage = None, q_overrides = None, q_js = None,
     q_terminationChecker = None\<rparr>"

definition demo_used :: demo_quota_world where
  "demo_used = \<lparr>mem_log = [(''123456789012'', Some (Inl 5))], mem_script = []\<rparr>"

abbreviation demo_usage :: "(demo_quota_world, int + overrideRecord) Bucket" where
  "demo_usage \<equiv> usage_store (mem_kv (\<lambda>_. True))"

lemma demo_read:
  "readVCPU id_codec ''123456789012'' (demo_usage, idle_proc, demo_used) = (Inr (5, 1), demo_usage, idle_proc, demo_used)"
  by (simp add: readVCPU_def Store_Get_def withKV_def KV_def usage_store_def NewOpenBucket_def get_record_def
      mem_kv_def demo_used_def mem_foreign_def id_codec_def)

theorem EnforceLaunch_exact_witness:
  "fst (EnforceLaunch [''m5.large'' \<mapsto> 2] id_codec (Some demo_quota) ''123456789012'' ''m5.large'' 2
     (demo_usage, idle_proc, demo_used)) = Some (Text ErrorResourceLimitExceeded)"
proof -
  have "on_world (limitsFor (odec id_codec) demo_quota ''123456789012'') (demo_usage, idle_proc, demo_used) =
      (Inr demo_limits, demo_usage, idle_proc, demo_used)"
    by (simp add: on_world_def limitsFor_def recordFor_def demo_quota_def zero_override_def checkActive_def
        no_overrides_def apply_overrides_def override_field_def)
  from EnforceLaunch_exact [OF _ _ _ _ demo_read _ _ this, where v = 2 and n = 2 and ty = "''m5.large''" and
      DefaultVCPUs = "[''m5.large'' \<mapsto> 2]"]
  show ?thesis by (simp add: Exempt_def demo_quota_def demo_limits_def GlobalAccountID_def Unlimited_def)
qed

section \<open>Sealed overrides\<close>

definition sealed_at ::
  "('w, 'd) kv_view \<Rightarrow> ('d \<Rightarrow> overrideRecord result) \<Rightarrow> string \<Rightarrow> 'w \<Rightarrow> bool" where
  "sealed_at V od a w \<longleftrightarrow>
     (\<exists>d r rec. stored V w a = Some (d, r) \<and> od d = Inr rec \<and> or_State rec = OverrideStateSealed)"

lemma sealed_committed:
  assumes "rely_keeps V (sealed_at V od a)" and "sealed_at V od a w" and "committed V w a old new w'"
  obtains d r rec where "old = Some (d, r)" and "od d = Inr rec" and "or_State rec = OverrideStateSealed"
  using assms unfolding committed_def rely_keeps_def sealed_at_def by blast

lemma checkActive_state: "checkActive rec = None \<longleftrightarrow> or_State rec = []"
  by (simp add: checkActive_def)

lemma sealed_nonempty: "OverrideStateSealed \<noteq> []"
  by (simp add: OverrideStateSealed_def)

lemma put_keeps_sealed:
  assumes L: "kv_lawful kv V" and P: "pause_lawful pause V" and K: "rely_keeps V (sealed_at V od a)"
    and s: "sealed_at V od a w"
    and run: "Update kv pause od oe zero_override a cfg (put_override over) w = (x, w')"
  shows "sealed_at V od a w'"
proof -
  have no: "\<not> update_effect V od oe zero_override ab a (put_override over) w r w'" for ab r
  proof
    assume "update_effect V od oe zero_override ab a (put_override over) w r w'"
    then obtain v0 where act: "or_State v0 = []" and "applied V od oe zero_override ab a v0 (fst r) w w'"
      by (auto simp: update_effect_def put_override_def checkActive_state split: option.splits)
    then obtain old new where "committed V w a old new w'"
      and o: "case old of None \<Rightarrow> ab \<and> v0 = zero_override | Some (d0, r0) \<Rightarrow> od d0 = Inr v0"
      unfolding applied_def by blast
    from sealed_committed [OF K s this(1)] o act sealed_nonempty show False by fastforce
  qed
  from Update_outcome [OF L P run] no have "rely V w w'" by (auto simp: write_outcome_def split: sum.splits)
  with K s show ?thesis unfolding rely_keeps_def by blast
qed

lemma clear_keeps_sealed:
  assumes L: "kv_lawful kv V" and K: "rely_keeps V (sealed_at V od a)"
  shows "sealed_at V od a w \<Longrightarrow> clear_attempts od kv a n w = (x, w') \<Longrightarrow> sealed_at V od a w'"
proof (induction n arbitrary: w)
  case (Suc n)
  obtain g w1 where g: "kv_Get kv w a = (g, w1)" by fastforce
  from K Suc.prems(1) Get_rely [OF L g] have s1: "sealed_at V od a w1" unfolding rely_keeps_def by blast
  show ?case
  proof (cases "\<exists>d r rec. g = Inr (d, r) \<and> od d = Inr rec \<and> checkActive rec = None")
    case True
    then obtain d r rec where t: "g = Inr (d, r)" "od d = Inr rec" "or_State rec = []" by (auto simp: checkActive_state)
    obtain y w2 where y: "kv_Delete kv w1 a (Some r) = (y, w2)" by fastforce
    from t(1) g have h: "hist V w1 a r = Some d" using Get_hist [OF L] by simp
    have no: "\<not> committed V w1 a (Some (d0, r)) None w2" for d0
      using committed_at [OF lawful_view [OF L] h] sealed_committed [OF K s1] t(2,3) sealed_nonempty
      by (metis Inr_inject option.inject prod.inject)
    from Delete_lawful [OF L y] no have "rely V w1 w2" by (auto simp: write_outcome_def split: sum.splits)
    with K s1 have s2: "sealed_at V od a w2" unfolding rely_keeps_def by blast
    from t(3) have "checkActive rec = None" by (simp add: checkActive_state)
    with Suc.prems(2) g t(1,2) y s2 Suc.IH [OF s2] show ?thesis by (auto split: sum.splits if_splits)
  next
    case False
    with Suc.prems(2) g s1 show ?thesis
      by (auto split: sum.splits if_splits option.splits)
  qed
qed simp

lemma seal_seals:
  assumes L: "kv_lawful kv V" and K: "rely_keeps V (sealed_at V od a)"
    and d: "od data = Inr rec" "or_State rec = OverrideStateSealed"
  shows "seal_attempts kv a data n w = (x, w') \<Longrightarrow>
    (sealed_at V od a w \<longrightarrow> sealed_at V od a w') \<and> (\<forall>r. x = Inr r \<longrightarrow> sealed_at V od a w')"
proof (induction n arbitrary: w)
  case (Suc n)
  have keep: "sealed_at V od a u'" if "rely V u u'" "sealed_at V od a u" for u u'
    using K that unfolding rely_keeps_def by blast
  have comm: "sealed_at V od a u'" if "committed V u a old (Some (data, r)) u'" for u old r u'
    using that d keep unfolding committed_def kv_step_def sealed_at_def by (metis fun_upd_same)
  have wr: "write_outcome V u y (\<lambda>r u'. \<exists>old. committed V u a old (Some (data, r)) u') u'"
    if "(if r = 0 then kv_Create kv u a data else kv_Update kv u a data r) = (y, u')" for r u y u'
    using that Create_lawful [OF L, of u a data y u'] Update_lawful [OF L, of u a data r y u']
    by (auto simp: write_outcome_def split: if_splits sum.splits)
  have step: "(sealed_at V od a u \<longrightarrow> sealed_at V od a w') \<and> (\<forall>r. x = Inr r \<longrightarrow> sealed_at V od a w')"
    if "(case (if r = 0 then kv_Create kv u a data else kv_Update kv u a data r) of
              (Inr newRev, w2) \<Rightarrow> (Inr newRev, w2)
            | (Inl err, w2) \<Rightarrow>
                if IsRevisionConflict err then seal_attempts kv a data n w2
                else (Inl (Text ErrorInternalError), w2)) = (x, w')" for r u
  proof -
    obtain y u' where y: "(if r = 0 then kv_Create kv u a data else kv_Update kv u a data r) = (y, u')" by fastforce
    from wr [OF y] comm keep have o: "sealed_at V od a u \<Longrightarrow> sealed_at V od a u'" "\<And>k. y = Inr k \<Longrightarrow> sealed_at V od a u'"
      by (auto simp: write_outcome_def split: sum.splits)
    from that y o Suc.IH [of u'] show ?thesis by (cases y) (auto split: if_splits)
  qed
  obtain g w1 where g: "kv_Get kv w a = (g, w1)" by fastforce
  note r1 = Get_rely [OF L g]
  from Suc.prems g step [of "snd (projr g)" w1] step [of 0 w1] keep [OF r1] show ?case
    by (cases g) (auto simp: Let_def split: if_splits)
qed auto

datatype override_op = PutOverrides Overrides string | SealOverrides

fun override_step ::
  "'w pause \<Rightarrow> 'd quota_codec \<Rightarrow> ('w \<Rightarrow> string) \<Rightarrow> ('w, 'd) QuotaService \<Rightarrow> string \<Rightarrow> override_op \<Rightarrow> Proc \<times> 'w \<Rightarrow> Proc \<times> 'w" where
  "override_step pause cd now q a (PutOverrides over by) s =
     (fst s, snd (PutAccountQuota pause (odec cd) (oenc cd) now (Some q) a over by (snd s)))"
| "override_step pause cd now q a SealOverrides s = snd (SealAccountOverrides (oenc cd) q a (fst s) (snd s))"

lemma Seal_outcome:
  assumes "kv_lawful kv V" and "codec_ok (odec cd) (oenc cd)" and "q_overrides q = Some kv"
    and "\<forall>f u x u'. q_terminationChecker q = Some f \<longrightarrow> f u a = (x, u') \<longrightarrow> rely V u u'"
    and K: "rely_keeps V (sealed_at V (odec cd) a)"
    and "SealAccountOverrides (oenc cd) q a p w = (x, p', w')"
  shows "(sealed_at V (odec cd) a w \<longrightarrow> sealed_at V (odec cd) a w') \<and> (\<forall>r. x = Inr r \<longrightarrow> sealed_at V (odec cd) a w')"
proof -
  obtain e w1 where e: "checkTerminating q a w = (e, w1)" by fastforce
  with assms(4) rely_refl [OF lawful_view [OF assms(1)]] have "rely V w w1"
    by (auto simp: checkTerminating_def split: option.splits prod.splits sum.splits)
  with K have s1: "sealed_at V (odec cd) a w \<Longrightarrow> sealed_at V (odec cd) a w1" unfolding rely_keeps_def by blast
  have seal: "(sealed_at V (odec cd) a w1 \<longrightarrow> sealed_at V (odec cd) a u) \<and> (\<forall>r. y = Inr r \<longrightarrow> sealed_at V (odec cd) a u)"
    if "oenc cd sealedRecord = Inr data" "seal_attempts kv a data sealMaxAttempts w1 = (y, u)" for data y u
    using seal_seals [OF assms(1) K _ _ that(2), of sealedRecord] assms(2) that(1)
    by (simp add: codec_ok_def sealedRecord_def)
  from assms(6) e s1 seal show ?thesis
    by (auto simp: SealAccountOverrides_def sealBucket_def assms(3) split: if_splits option.splits sum.splits prod.splits)
qed

text \<open>
  C13. A seal is final. Once \<open>SealAccountOverrides\<close> has returned a revision, the account's override
  record is sealed, and no sequence of later administrative writes, clears and seals changes that, in
  whatever state the gateway's own counters and clock are, as long as the other gateways keep sealed
  records sealed too.
\<close>

theorem sealed_override_final:
  assumes "kv_lawful kv V" and "pause_lawful pause V" and "codec_ok (odec cd) (oenc cd)" and "q_overrides q = Some kv"
    and "\<forall>f u x u'. q_terminationChecker q = Some f \<longrightarrow> f u a = (x, u') \<longrightarrow> rely V u u'"
    and "rely_keeps V (sealed_at V (odec cd) a)"
    and "SealAccountOverrides (oenc cd) q a p w = (Inr r, p1, w1)"
    and "fold (override_step pause cd now q a) ops (p1, w1) = (p2, w2)"
  shows "sealed_at V (odec cd) a w2"
proof -
  have step: "sealed_at V (odec cd) a (snd (override_step pause cd now q a op (p, w)))" if "sealed_at V (odec cd) a w" for op p w
  proof (cases op)
    case (PutOverrides over by')
    obtain e w' where e: "PutAccountQuota pause (odec cd) (oenc cd) now (Some q) a over by' w = (e, w')" by fastforce
    show ?thesis
    proof (cases "OverridesEmpty over")
      case True
      with e assms(4) have "clear_attempts (odec cd) kv a overrideMaxAttempts w = (e, w')"
        by (simp add: PutAccountQuota_def clearAccountQuota_def)
      from clear_keeps_sealed [OF assms(1,6) that this] PutOverrides e show ?thesis by simp
    next
      case False
      with e assms(4) obtain y where "Update kv pause (odec cd) (oenc cd) zero_override a override_cas
          (put_override (over\<lparr>ov_UpdatedAt := now w, ov_UpdatedBy := by'\<rparr>)) w = (y, w')"
        by (auto simp: PutAccountQuota_def split: prod.splits sum.splits)
      from put_keeps_sealed [OF assms(1,2,6) that this] PutOverrides e show ?thesis by simp
    qed
  next
    case SealOverrides
    then show ?thesis
      using Seal_outcome [OF assms(1,3,4,5,6), of p w] that by (cases "SealAccountOverrides (oenc cd) q a p w") auto
  qed
  have "sealed_at V (odec cd) a w2" if "sealed_at V (odec cd) a w" "fold (override_step pause cd now q a) ops (p, w) = (p2, w2)" for p w
    using that
  proof (induction ops arbitrary: p w)
    case (Cons op ops)
    from step [OF Cons.prems(1), of op p] Cons show ?case by (cases "override_step pause cd now q a op (p, w)") simp
  qed simp
  moreover have "sealed_at V (odec cd) a w1" using Seal_outcome [OF assms(1,3,4,5,6,7)] by blast
  ultimately show ?thesis using assms(8) by blast
qed

abbreviation seal_kv :: "(demo_quota_world, int + overrideRecord) kv" where "seal_kv \<equiv> mem_kv (\<lambda>_. False)"

definition seal_quota :: "(demo_quota_world, int + overrideRecord) QuotaService" where
  "seal_quota = demo_quota\<lparr>q_overrides := Some seal_kv, q_terminationChecker := Some (\<lambda>w a. (Inr True, w))\<rparr>"

definition sealed_world :: demo_quota_world where
  "sealed_world = mem_append ''123456789012'' (Some (Inr sealedRecord)) demo_used"

lemma demo_sealed:
  "SealAccountOverrides (oenc id_codec) seal_quota ''123456789012'' idle_proc demo_used = (Inr 2, idle_proc, sealed_world)"
  by (simp add: SealAccountOverrides_def IsAccountID_def is_digit_def GlobalAccountID_def checkTerminating_def seal_quota_def
      sealBucket_def id_codec_def sealMaxAttempts_def eval_nat_numeral demo_used_def sealed_world_def mem_kv_def mem_foreign_def
      mem_append_def)

lemma quiet_keeps: "rely_keeps (mem_view (\<lambda>_. False)) (sealed_at (mem_view (\<lambda>_. False)) od a)"
proof -
  have "mem_log ((mem_foreign (\<lambda>_. False) ^^ n) w) = mem_log w" for n and w :: "'a mem"
    by (induction n) (auto simp: mem_foreign_def split: list.splits)
  then show ?thesis by (auto simp: rely_keeps_def sealed_at_def mem_view_def)
qed

theorem sealed_override_final_witness:
  "sealed_at (mem_view (\<lambda>_. False)) (odec id_codec) ''123456789012''
     (snd (fold (override_step mem_pause id_codec (\<lambda>w. ''now'') seal_quota ''123456789012'')
        [PutOverrides no_overrides ''admin'', PutOverrides (no_overrides\<lparr>ov_VCPUs := Some 64\<rparr>) ''admin'']
        (idle_proc, sealed_world)))"
proof -
  have "codec_ok (odec id_codec) (oenc id_codec)" by (simp add: codec_ok_def id_codec_def)
  show ?thesis
    by (rule sealed_override_final [OF mem_kv_lawful mem_pause_lawful \<open>codec_ok (odec id_codec) (oenc id_codec)\<close> _ _
          quiet_keeps demo_sealed prod.collapse [symmetric]]) (simp_all add: seal_quota_def mem_rely_refl)
qed

section \<open>Charges and sweeps\<close>

text \<open>The entry a sweep may replace: the one whose revision was read before the scan, none if there was
  no counter then.\<close>

definition unmoved :: "nat \<Rightarrow> ('d \<times> nat) option \<Rightarrow> bool" where
  "unmoved since e \<longleftrightarrow> (case e of None \<Rightarrow> since = 0 | Some (d, r) \<Rightarrow> r = since)"

definition set_to :: "(int \<Rightarrow> 'd result) \<Rightarrow> int \<Rightarrow> ('d \<times> nat) option \<Rightarrow> bool" where
  "set_to enc v e \<longleftrightarrow> (\<exists>data r. e = Some (data, r) \<and> enc v = Inr data)"

lemma runs_changes:
  assumes V: "view_ok V" and R: "runs V op w x w'"
    and each: "\<And>kv w x w'. kv_lawful kv V \<Longrightarrow> op kv w = (x, w') \<Longrightarrow> changes V key P Q w w'"
  shows "changes V key P Q w w'"
proof -
  have one: "changes V key P Q u u2" if "rely V u u1" "kv_lawful kv V" "op kv u1 = (y, u2)" for kv u u1 y u2
    using changes_trans [OF V each [OF that(2,3)] changes.idle [OF that(1)]] .
  from R show ?thesis
  proof cases
    case none
    then show ?thesis by (blast intro: changes.idle)
  next
    case (once kv w1)
    then show ?thesis using one by blast
  next
    case (lost kv w1 e w2)
    then show ?thesis using one changes_relyR [OF V] by blast
  next
    case (twice kv w1 e w2 w3 kv')
    from changes_trans [OF V one [OF twice(5,6,7)] one [OF twice(2,1,3)]] show ?thesis .
  qed
qed

lemma get_record_rely: "kv_lawful kv V \<Longrightarrow> get_record dec key kv w = (x, w') \<Longrightarrow> rely V w w'"
  by (auto simp: get_record_def split: prod.splits sum.splits if_splits dest: Get_rely)

lemma readVCPU_rely:
  assumes B: "bucket_lawful b V" and "readVCPU cd a (b, p, w) = (x, b', p', w')"
  shows "rely V w w' \<and> bucket_lawful b' V"
proof -
  note V = bucket_lawful_view [OF B]
  obtain y where "Store_Get (vdec cd) a (b, p, w) = (y, b', p', w')"
    using assms(2) by (auto simp: readVCPU_def split: prod.splits sum.splits)
  from withKV_runs [OF B this [unfolded Store_Get_def]]
  have R: "runs V (get_record (vdec cd) a) w y w'" and "bucket_lawful b' V" by blast+
  have "rely V w w'" using R
    by cases (blast intro: rely_trans [OF V] get_record_rely)+
  with \<open>bucket_lawful b' V\<close> show ?thesis by blast
qed

lemma Create_changes:
  assumes B: "bucket_lawful b V" and "Store_Create enc a v (b, p, w) = (x, b', p', w')"
  shows "changes V a (unmoved 0) (set_to enc v) w w'"
proof (cases "enc v")
  case (Inl err)
  with assms(2) show ?thesis by (auto simp: Store_Create_def intro: changes.idle rely_refl [OF bucket_lawful_view [OF B]])
next
  case (Inr data)
  note V = bucket_lawful_view [OF B]
  let ?op = "\<lambda>kv w. in_context ''create'' a (kv_Create kv w a data)"
  obtain y where "withKV ?op (b, p, w) = (y, b', p', w')"
    using assms(2) Inr by (auto simp: Store_Create_def split: prod.splits sum.splits)
  from withKV_runs [OF B this] have "runs V ?op w y w'" by blast
  then show ?thesis
  proof (rule runs_changes [OF V])
    fix kv u z u'
    assume L: "kv_lawful kv V" and "?op kv u = (z, u')"
    then obtain z' where c: "kv_Create kv u a data = (z', u')" by (auto simp: in_context_def split: prod.splits sum.splits)
    show "changes V a (unmoved 0) (set_to enc v) u u'"
      by (rule changes_outcome [OF V Create_lawful [OF L c]])
        (rule changes_committed [OF V], assumption, simp_all add: unmoved_def set_to_def Inr)
  qed
qed

lemma CompareAndSet_changes:
  assumes B: "bucket_lawful b V" and "CompareAndSet enc a v r (b, p, w) = (x, b', p', w')"
  shows "changes V a (unmoved r) (set_to enc v) w w'"
proof -
  note V = bucket_lawful_view [OF B]
  obtain y b1 p1 w1 where y: "KV (b, p, w) = (y, b1, p1, w1)" by (metis prod.exhaust)
  from KV_handed [OF B y] have r1: "rely V w w1" and L: "\<And>kv. y = Inr kv \<Longrightarrow> kv_lawful kv V"
    by (auto simp: handed_def opened_def)
  show ?thesis
  proof (cases "\<exists>kv data. y = Inr kv \<and> enc v = Inr data")
    case False
    with assms(2) y r1 show ?thesis by (cases y) (auto simp: CompareAndSet_def intro: changes.idle split: sum.splits)
  next
    case True
    then obtain kv data where kd: "y = Inr kv" "enc v = Inr data" by blast
    obtain z w2 where z: "kv_Update kv w1 a data r = (z, w2)" by fastforce
    have "changes V a (unmoved r) (set_to enc v) w1 w2"
      by (rule changes_outcome [OF V Update_lawful [OF L [OF kd(1)] z]])
        (erule exE, rule changes_committed [OF V], assumption, simp_all add: unmoved_def set_to_def kd(2))
    from changes_trans [OF V this changes.idle [OF r1]] assms(2) y kd z show ?thesis
      by (auto simp: CompareAndSet_def split: sum.splits)
  qed
qed

text \<open>
  C14. A complete sweep never undoes a charge. Writing an account's counter from a complete sweep changes
  the counter only while it is still at the revision read before the scan, or still absent if it was
  absent then, and only to the recomputed value: a charge that landed in between is never overwritten,
  whatever errors and interference the calls meet.
\<close>

theorem complete_sweep_keeps_charges:
  assumes "bucket_lawful b V" and "reconcileVCPU pause cd a v True since (b, p, w) = (x, b', p', w')"
  shows "changes V a (unmoved since) (set_to (venc cd) v) w w'"
proof -
  note V = bucket_lawful_view [OF assms(1)]
  obtain y b1 p1 w1 where y: "readVCPU cd a (b, p, w) = (y, b1, p1, w1)" by (metis prod.exhaust)
  from readVCPU_rely [OF assms(1) y] have r1: "rely V w w1" and B1: "bucket_lawful b1 V" by blast+
  note idle = changes.idle [OF r1]
  show ?thesis
  proof (cases "\<exists>current. y = Inr (current, since) \<and> current \<noteq> v")
    case False
    with assms(2) y idle show ?thesis
      by (cases y) (auto simp: reconcileVCPU_def setVCPUAt_def split: if_splits)
  next
    case True
    then obtain current where c: "y = Inr (current, since)" "current \<noteq> v" by blast
    let ?store = "if since = 0 then Store_Create (venc cd) a v (b1, p1, w1) else CompareAndSet (venc cd) a v since (b1, p1, w1)"
    obtain z where "?store = (z, b', p', w')"
      using assms(2) y c by (auto simp: reconcileVCPU_def setVCPUAt_def split: prod.splits sum.splits if_splits)
    then have "changes V a (unmoved since) (set_to (venc cd) v) w1 w'"
      using Create_changes [OF B1] CompareAndSet_changes [OF B1] by (auto split: if_splits)
    from changes_trans [OF V this idle] show ?thesis .
  qed
qed

theorem complete_sweep_keeps_charges_witness:
  "\<exists>w'. reconcileVCPU mem_pause id_codec ''123456789012'' 3 True 1 (demo_usage, idle_proc, demo_used) =
      (None, demo_usage, idle_proc, w') \<and>
    changes (mem_view (\<lambda>_. True)) ''123456789012'' (unmoved 1) (set_to (venc id_codec) 3) demo_used w'"
proof -
  let ?w = "mem_append ''123456789012'' (Some (Inl 3)) demo_used"
  have run: "reconcileVCPU mem_pause id_codec ''123456789012'' 3 True 1 (demo_usage, idle_proc, demo_used) =
      (None, demo_usage, idle_proc, ?w)"
    by (simp add: reconcileVCPU_def setVCPUAt_def demo_read, simp add: CompareAndSet_def KV_def usage_store_def
        NewOpenBucket_def id_codec_def mem_kv_def demo_used_def)
  have "bucket_lawful demo_usage (mem_view (\<lambda>_. True))"
    by (simp add: bucket_lawful_def usage_store_def NewOpenBucket_def usageConfig_def hook_lawful_def mem_kv_lawful mem_view_ok)
  from complete_sweep_keeps_charges [OF this run] run show ?thesis by blast
qed

text \<open>An incomplete sweep reads the counter, finds it below its own count, and then overwrites it
  unguarded: a charge that lands between the two is lost, and the counter goes down.\<close>

lemma incomplete_sweep_lowers_counter:
  "let a = ''123456789012'';
       w = demo_used\<lparr>mem_script := [(a, Inl 10)]\<rparr>;
       w' = snd (snd (snd (reconcileVCPU mem_pause id_codec a 8 False 1 (demo_usage, idle_proc, w))))
   in mem_log w' = [(a, Some (Inl 8)), (a, Some (Inl 10)), (a, Some (Inl 5))]"
  by (simp add: reconcileVCPU_def readVCPU_def Store_Get_def withKV_def KV_def usage_store_def NewOpenBucket_def
      get_record_def mem_kv_def demo_used_def mem_foreign_def id_codec_def setVCPU_def casVCPU_def Store_Upsert_def
      Update_def retryCAS_def cas_attempts_def upsert_config_def usageConfig_def vcpuCASRetries_def eval_nat_numeral
      Update_attempt_def Update_commit_def cas_write_def vcpu_mutator_def mem_append_def Let_def)

end
