(* ===== verification/Ratelimit.thy ===== *)
theory Ratelimit
  imports Prelude
begin

text \<open>
  The lockout of addresses that repeatedly fail to authenticate, \<open>ingress/aws/ratelimit/limiter.go\<close>.
  The records map is the state, each method runs under its mutex and takes the time as an argument;
  times and durations are nanoseconds and the zero time is \<open>None\<close>.
\<close>

section \<open>The limiter\<close>

definition failureWindow :: int where "failureWindow = 60 * 1000000000"
definition MaxFailures :: nat where "MaxFailures = 10"
definition initialLockout :: int where "initialLockout = 30 * 1000000000"
definition backoffMultiplier :: int where "backoffMultiplier = 2"
definition maxLockout :: int where "maxLockout = 5 * 60 * 1000000000"
definition Anonymous :: string where "Anonymous = []"

record attempt =
  fingerprint :: string
  seen_at :: int

record ipRecord =
  failures :: "attempt list"
  lockedUntil :: "int option"
  lockouts :: nat

type_synonym limiter = "string \<rightharpoonup> ipRecord"

definition NewAuthRateLimiter :: limiter where "NewAuthRateLimiter = Map.empty"

definition locked :: "ipRecord \<Rightarrow> int \<Rightarrow> bool" where
  "locked rec now = (case lockedUntil rec of None \<Rightarrow> False | Some t \<Rightarrow> now < t)"

definition CheckIP :: "limiter \<Rightarrow> string \<Rightarrow> int \<Rightarrow> string" where
  "CheckIP rl ip now =
     (case rl ip of None \<Rightarrow> [] | Some rec \<Rightarrow> if locked rec now then ''RequestLimitExceeded'' else [])"

definition pruneOldFailures :: "attempt list \<Rightarrow> int \<Rightarrow> attempt list" where
  "pruneOldFailures fs now = filter (\<lambda>a. seen_at a > now - failureWindow) fs"

fun refresh :: "attempt list \<Rightarrow> string \<Rightarrow> int \<Rightarrow> attempt list option" where
  "refresh [] fp now = None"
| "refresh (a # as) fp now =
     (if fingerprint a = fp then Some (a\<lparr>seen_at := now\<rparr> # as) else map_option (\<lambda>bs. a # bs) (refresh as fp now))"

definition recordAttempt :: "attempt list \<Rightarrow> string \<Rightarrow> int \<Rightarrow> attempt list" where
  "recordAttempt fs fp now =
     (case (if fp \<noteq> Anonymous then refresh fs fp now else None) of
        Some fs' \<Rightarrow> fs'
      | None \<Rightarrow> fs @ [\<lparr>fingerprint = fp, seen_at = now\<rparr>])"

fun lockout_from :: "int \<Rightarrow> nat \<Rightarrow> int" where
  "lockout_from d 0 = d"
| "lockout_from d (Suc k) =
     (let d' = d * backoffMultiplier in if d' \<ge> maxLockout then maxLockout else lockout_from d' k)"

definition fresh_record :: ipRecord where
  "fresh_record = \<lparr>failures = [], lockedUntil = None, lockouts = 0\<rparr>"

definition fail_record :: "ipRecord \<Rightarrow> string \<Rightarrow> int \<Rightarrow> ipRecord" where
  "fail_record rec fp now =
     (let fs = recordAttempt (pruneOldFailures (failures rec) now) fp now in
      if length fs \<ge> MaxFailures \<and> (case lockedUntil rec of None \<Rightarrow> True | Some t \<Rightarrow> now > t)
      then \<lparr>failures = [], lockedUntil = Some (now + lockout_from initialLockout (lockouts rec)),
            lockouts = Suc (lockouts rec)\<rparr>
      else rec\<lparr>failures := fs\<rparr>)"

definition RecordFailure :: "limiter \<Rightarrow> string \<Rightarrow> string \<Rightarrow> int \<Rightarrow> limiter" where
  "RecordFailure rl ip fp now =
     rl(ip \<mapsto> fail_record (case rl ip of None \<Rightarrow> fresh_record | Some rec \<Rightarrow> rec) fp now)"

definition Fingerprint :: "string \<Rightarrow> string list \<Rightarrow> string" where
  "Fingerprint reason parts = reason @ [CHR 0x00] @ go_join [CHR 0x00] parts"

definition RecordSuccess :: "limiter \<Rightarrow> string \<Rightarrow> limiter" where
  "RecordSuccess rl ip = (case rl ip of None \<Rightarrow> rl | Some rec \<Rightarrow> rl(ip := None))"

definition clean_record :: "ipRecord \<Rightarrow> int \<Rightarrow> ipRecord option" where
  "clean_record rec now =
     (if locked rec now then Some rec
      else (let fs = pruneOldFailures (failures rec) now in if fs = [] then None else Some (rec\<lparr>failures := fs\<rparr>)))"

definition cleanup :: "limiter \<Rightarrow> int \<Rightarrow> limiter" where
  "cleanup rl now = (\<lambda>ip. Option.bind (rl ip) (\<lambda>rec. clean_record rec now))"

section \<open>Lockouts\<close>

lemma lockout_from_min:
  assumes "0 < d" and "d < maxLockout"
  shows "lockout_from d k = min maxLockout (d * 2 ^ k)"
  using assms
proof (induction k arbitrary: d)
  case (Suc k)
  have p: "d * 2 \<le> d * 2 * 2 ^ k" using Suc.prems(1) by simp
  show ?case
  proof (cases "d * 2 \<ge> maxLockout")
    case True
    with p have "maxLockout \<le> d * 2 ^ Suc k" by simp
    with True show ?thesis by (simp add: backoffMultiplier_def)
  next
    case False
    with Suc.IH [of "d * 2"] Suc.prems show ?thesis by (simp add: backoffMultiplier_def mult.assoc)
  qed
qed simp

lemma lockout_exact: "lockout_from initialLockout k = min maxLockout (initialLockout * 2 ^ k)"
  by (rule lockout_from_min) (simp_all add: initialLockout_def maxLockout_def)

lemma refresh_some:
  "refresh fs fp now = Some fs' \<Longrightarrow> map fingerprint fs' = map fingerprint fs \<and> fp \<in> fingerprint ` set fs"
  by (induction fs fp now arbitrary: fs' rule: refresh.induct) (auto split: if_splits)

lemma refresh_none: "refresh fs fp now = None \<longleftrightarrow> fp \<notin> fingerprint ` set fs"
  by (induction fs fp now rule: refresh.induct) auto

lemma recordAttempt_prints:
  assumes "fp \<noteq> Anonymous"
  shows "map fingerprint (recordAttempt fs fp now) =
    (if fp \<in> fingerprint ` set fs then map fingerprint fs else map fingerprint fs @ [fp])"
proof (cases "refresh fs fp now")
  case None
  with assms refresh_none [of fs fp now] show ?thesis by (simp add: recordAttempt_def)
next
  case (Some fs')
  with assms refresh_some [OF Some] show ?thesis by (auto simp: recordAttempt_def)
qed

text \<open>A sequence of operations on a limiter, each with its time.\<close>

datatype limiter_op = Fail string string int | Succeed string | Clean int

fun limiter_step :: "limiter \<Rightarrow> limiter_op \<Rightarrow> limiter" where
  "limiter_step rl (Fail ip fp now) = RecordFailure rl ip fp now"
| "limiter_step rl (Succeed ip) = RecordSuccess rl ip"
| "limiter_step rl (Clean now) = cleanup rl now"

definition prints_of :: "string \<Rightarrow> limiter_op list \<Rightarrow> string set" where
  "prints_of ip ops = {fp. \<exists>now. Fail ip fp now \<in> set ops}"

lemma prints_of_finite: "finite (prints_of ip ops)"
proof -
  have "prints_of ip ops \<subseteq> (\<lambda>p. case p of Fail i fp n \<Rightarrow> fp | _ \<Rightarrow> []) ` set ops"
    by (force simp: prints_of_def image_iff)
  then show ?thesis by (rule finite_subset) simp
qed

text \<open>The failures recorded for an address that was never locked out: distinct, and all tried.\<close>

definition few :: "string set \<Rightarrow> ipRecord \<Rightarrow> bool" where
  "few S rec \<longleftrightarrow> lockedUntil rec = None \<and> distinct (map fingerprint (failures rec)) \<and> fingerprint ` set (failures rec) \<subseteq> S"

lemma few_fail:
  assumes "few S rec" and "fp \<in> S" and "fp \<noteq> Anonymous" and "finite S" and "card S < MaxFailures"
  shows "few S (fail_record rec fp now)"
proof -
  let ?fs = "pruneOldFailures (failures rec) now"
  let ?gs = "recordAttempt ?fs fp now"
  have d: "distinct (map fingerprint ?fs)" "fingerprint ` set ?fs \<subseteq> S"
    using assms(1) by (auto simp: few_def pruneOldFailures_def distinct_map_filter)
  have g: "distinct (map fingerprint ?gs)" "fingerprint ` set ?gs \<subseteq> S"
    using d assms(2) recordAttempt_prints [OF assms(3), of ?fs now]
    by (simp_all add: distinct_map_filter flip: set_map split: if_splits)
  from g card_mono [OF assms(4) g(2)] distinct_card [OF g(1)] assms(5) have "length ?gs < MaxFailures" by simp
  with g assms(1) show ?thesis by (simp add: few_def fail_record_def Let_def)
qed

text \<open>
  C40. A client that repeats its mistakes is not locked out. From a fresh limiter, over any sequence of
  failures, successes and clean-ups of any addresses at any times, an address whose failures carry
  fewer than ten distinct fingerprints, none of them anonymous, is never refused, however often each
  is repeated.
\<close>

theorem repeated_faults_never_lock:
  assumes "card (prints_of ip ops) < MaxFailures" and "Anonymous \<notin> prints_of ip ops"
  shows "CheckIP (foldl limiter_step NewAuthRateLimiter ops) ip now = []"
proof -
  have "\<forall>rec. foldl limiter_step NewAuthRateLimiter ps ip = Some rec \<longrightarrow> few (prints_of ip ops) rec"
    if "set ps \<subseteq> set ops" for ps
    using that
  proof (induction ps rule: rev_induct)
    case Nil
    then show ?case by (simp add: NewAuthRateLimiter_def)
  next
    case (snoc p ps)
    let ?rl = "foldl limiter_step NewAuthRateLimiter ps"
    have IH: "?rl ip = Some rec \<Longrightarrow> few (prints_of ip ops) rec" for rec using snoc by simp
    have fresh: "few (prints_of ip ops) fresh_record" by (simp add: few_def fresh_record_def)
    show ?case
    proof (cases p)
      case (Fail i fp t)
      have "few (prints_of ip ops) (fail_record rec fp t)" if "i = ip" "few (prints_of ip ops) rec" for rec
      proof (rule few_fail [OF that(2) _ _ prints_of_finite assms(1)])
        show "fp \<in> prints_of ip ops" using snoc.prems Fail that(1) by (auto simp: prints_of_def)
        with assms(2) show "fp \<noteq> Anonymous" by blast
      qed
      with IH fresh Fail show ?thesis by (auto simp: RecordFailure_def split: option.splits)
    next
      case (Succeed i)
      with IH show ?thesis by (auto simp: RecordSuccess_def split: option.splits)
    next
      case (Clean t)
      with IH show ?thesis
        by (auto simp: cleanup_def clean_record_def Let_def few_def pruneOldFailures_def distinct_map_filter bind_eq_Some_conv
            split: if_splits) blast
    qed
  qed
  from this [OF order.refl] show ?thesis by (auto simp: CheckIP_def few_def locked_def split: option.splits)
qed

theorem repeated_faults_never_lock_witness:
  "CheckIP (foldl limiter_step NewAuthRateLimiter (replicate 50 (Fail ''192.0.2.7'' ''signature'' 1000))) ''192.0.2.7'' 2000 = []"
proof -
  have "prints_of ''192.0.2.7'' (replicate 50 (Fail ''192.0.2.7'' ''signature'' 1000)) = {''signature''}"
    by (auto simp: prints_of_def)
  with repeated_faults_never_lock [of "''192.0.2.7''" "replicate 50 (Fail ''192.0.2.7'' ''signature'' 1000)"] show ?thesis
    by (simp add: MaxFailures_def Anonymous_def)
qed

section \<open>What a lockout forgets\<close>

text \<open>Failures that arrive while an address is locked are kept without bound: ten lock the address
  and clear the list, fifteen more requests already admitted leave fifteen entries.\<close>

lemma locked_record_grows:
  "map_option (\<lambda>rec. (length (failures rec), lockouts rec))
     (foldl limiter_step NewAuthRateLimiter (replicate 25 (Fail ''192.0.2.7'' Anonymous 0)) ''192.0.2.7'') = Some (15, 1)"
  by code_simp

text \<open>The clean-up after a lockout has ended drops the count of lockouts, so the next one starts at
  thirty seconds again.\<close>

lemma escalation_forgotten:
  "let second = 1000000000;
       burst = (\<lambda>t. replicate 10 (Fail ''192.0.2.7'' Anonymous t));
       kept = foldl limiter_step NewAuthRateLimiter (burst 0 @ burst (31 * second));
       dropped = foldl limiter_step NewAuthRateLimiter (burst 0 @ [Clean (31 * second)] @ burst (31 * second))
   in map_option lockedUntil (kept ''192.0.2.7'') = Some (Some (91 * second)) \<and>
      map_option lockedUntil (dropped ''192.0.2.7'') = Some (Some (61 * second))"
  by code_simp

end
