(* ===== verification/Policyauth.thy ===== *)
theory Policyauth
  imports Quota
begin

text \<open>
  The authorization of a verified caller, \<open>runtime/roles/awsgw/policyauth/policyauth.go\<close>, with the
  caller's address from \<open>ingress/http/client_ip.go\<close>. The policy language is a library of its own: its
  evaluation of one action on one resource, and its role ARN parser, are arguments, as is the IAM
  service that resolves a principal's policies.
\<close>

section \<open>The caller\<close>

record Principal =
  pc_Identity :: string
  pc_AccountID :: string
  pc_PrincipalType :: string
  pc_AssumedRoleARN :: string
  pc_UnderlyingRoleARN :: string
  pc_UserID :: string

abbreviation PrincipalTypeUser :: string where "PrincipalTypeUser \<equiv> ''user''"
abbreviation PrincipalTypeAssumedRole :: string where "PrincipalTypeAssumedRole \<equiv> ''assumed-role''"
abbreviation PrincipalTypeRoot :: string where "PrincipalTypeRoot \<equiv> ''root''"
abbreviation ErrorAccessDenied :: string where "ErrorAccessDenied \<equiv> ''AccessDenied''"
abbreviation ErrTimeout :: string where "ErrTimeout \<equiv> ''nats.ErrTimeout''"

text \<open>\<open>net.SplitHostPort\<close>, the host only.\<close>

fun index_of :: "char \<Rightarrow> string \<Rightarrow> nat option" where
  "index_of c [] = None"
| "index_of c (x # xs) = (if x = c then Some 0 else map_option Suc (index_of c xs))"

definition last_index_of :: "char \<Rightarrow> string \<Rightarrow> nat option" where
  "last_index_of c s = map_option (\<lambda>i. length s - 1 - i) (index_of c (rev s))"

definition SplitHostPort :: "string \<Rightarrow> string option" where
  "SplitHostPort hostport =
     (case last_index_of CHR '':'' hostport of
        None \<Rightarrow> None
      | Some i \<Rightarrow>
          (let plain = (\<lambda>host j k.
                 if CHR ''['' \<in> set (drop j hostport) \<or> CHR '']'' \<in> set (drop k hostport) then None else Some host)
           in if hd hostport = CHR ''['' then
                (case index_of CHR '']'' hostport of
                   None \<Rightarrow> None
                 | Some e \<Rightarrow> if Suc e = i then plain (drop 1 (take e hostport)) 1 (Suc e) else None)
              else (let host = take i hostport in if CHR '':'' \<in> set host then None else plain host 0 0)))"

definition ClientIP :: "string \<Rightarrow> string" where
  "ClientIP remoteAddr = (case SplitHostPort remoteAddr of None \<Rightarrow> remoteAddr | Some host \<Rightarrow> host)"

section \<open>Condition keys\<close>

datatype condition_key =
  KeySecureTransport | KeyUsername | KeyPrincipalAccount | KeyUserID | KeySourceIP | KeyPrincipalType | KeyCurrentTime

type_synonym condition_keys = "condition_key \<rightharpoonup> string"

text \<open>The canonical spellings of the principal type come with the policy library.\<close>

record principal_spellings =
  sp_User :: string
  sp_AssumedRole :: string
  sp_Account :: string

definition principalTypeCondition :: "principal_spellings \<Rightarrow> string \<Rightarrow> string option" where
  "principalTypeCondition sp ty =
     (if ty = PrincipalTypeUser then Some (sp_User sp)
      else if ty = PrincipalTypeAssumedRole then Some (sp_AssumedRole sp)
      else if ty = PrincipalTypeRoot then Some (sp_Account sp)
      else None)"

record http_request =
  hr_TLS :: bool
  hr_RemoteAddr :: string

abbreviation set_if :: "bool \<Rightarrow> condition_key \<Rightarrow> string \<Rightarrow> condition_keys \<Rightarrow> condition_keys" where
  "set_if b k v keys \<equiv> (if b then keys(k \<mapsto> v) else keys)"

definition RequestConditionKeys ::
  "principal_spellings \<Rightarrow> (condition_keys \<Rightarrow> condition_keys) \<Rightarrow> http_request \<Rightarrow> Principal \<Rightarrow> condition_keys" where
  "RequestConditionKeys sp SetRequestTime r caller =
     (let k0 = [KeySecureTransport \<mapsto> (if hr_TLS r then ''true'' else ''false'')];
          k1 = set_if (pc_PrincipalType caller = PrincipalTypeUser \<and> pc_Identity caller \<noteq> [])
                 KeyUsername (pc_Identity caller) k0;
          k2 = set_if (pc_AccountID caller \<noteq> []) KeyPrincipalAccount (pc_AccountID caller) k1;
          k3 = set_if (pc_UserID caller \<noteq> []) KeyUserID (pc_UserID caller) k2;
          k4 = set_if (ClientIP (hr_RemoteAddr r) \<noteq> []) KeySourceIP (ClientIP (hr_RemoteAddr r)) k3;
          k5 = (case principalTypeCondition sp (pc_PrincipalType caller) of
                  None \<Rightarrow> k4 | Some v \<Rightarrow> k4(KeyPrincipalType \<mapsto> v))
      in SetRequestTime k5)"

section \<open>Evaluation\<close>

definition policy_transient :: "go_error \<Rightarrow> bool" where
  "policy_transient err \<longleftrightarrow> errors_Is err ErrNoResponders \<or> errors_Is err ErrTimeout \<or> errors_Is err ErrNoStreamResponse"

record ('w, 'p) IAMService =
  GetUserPolicies :: "'w \<Rightarrow> string \<Rightarrow> string \<Rightarrow> 'p list result \<times> 'w"
  GetRolePolicies :: "'w \<Rightarrow> string \<Rightarrow> string \<Rightarrow> 'p list result \<times> 'w"
  iam_sleep :: "'w \<Rightarrow> nat \<Rightarrow> 'w"

text \<open>The library: whether it denies an action on a resource, and its parser of role ARNs.\<close>

record 'p policy_library =
  Denies :: "string \<Rightarrow> string \<Rightarrow> 'p list \<Rightarrow> condition_keys \<Rightarrow> bool"
  ParseRoleARN :: "string \<Rightarrow> (string \<times> string) result"

text \<open>An error of \<open>Evaluate\<close>: a plain one, or the denial of an action on a resource.\<close>

datatype auth_error = Plain string | DenialError string string

fun resolve_policies ::
  "('w \<Rightarrow> 'p list result \<times> 'w) \<Rightarrow> ('w \<Rightarrow> nat \<Rightarrow> 'w) \<Rightarrow> nat \<Rightarrow> nat \<Rightarrow> 'w \<Rightarrow> 'p list result \<times> 'w" where
  "resolve_policies f sleep 0 k w = f w"
| "resolve_policies f sleep (Suc n) k w =
     (case f w of
        (Inr ps, w1) \<Rightarrow> (Inr ps, w1)
      | (Inl err, w1) \<Rightarrow>
          if \<not> policy_transient err then (Inl err, w1)
          else resolve_policies f sleep n (Suc k) (sleep w1 (Suc k)))"

datatype resolver = Bypass | Refuse auth_error | ResolveUser string string | ResolveRole string string

definition select_resolver :: "'p policy_library \<Rightarrow> Principal \<Rightarrow> resolver" where
  "select_resolver lib caller =
     (if pc_PrincipalType caller = PrincipalTypeUser then
        (if pc_Identity caller = ''root'' \<and> pc_AccountID caller = GlobalAccountID then Bypass
         else ResolveUser (pc_AccountID caller) (pc_Identity caller))
      else if pc_PrincipalType caller = PrincipalTypeAssumedRole then
        (case ParseRoleARN lib (pc_UnderlyingRoleARN caller) of
           Inl err \<Rightarrow> Refuse (Plain ErrorAccessDenied)
         | Inr (roleAcct, roleName) \<Rightarrow>
             if roleAcct \<noteq> pc_AccountID caller then Refuse (Plain ErrorAccessDenied)
             else ResolveRole (pc_AccountID caller) roleName)
      else Refuse (Plain ErrorInternalError))"

definition run_resolver :: "('w, 'p) IAMService \<Rightarrow> resolver \<Rightarrow> 'w \<Rightarrow> 'p list result \<times> 'w" where
  "run_resolver iam res w =
     (case res of
        ResolveUser acct user \<Rightarrow> GetUserPolicies iam w acct user
      | ResolveRole acct role \<Rightarrow> GetRolePolicies iam w acct role
      | _ \<Rightarrow> (Inl (Text []), w))"

definition Evaluate ::
  "'p policy_library \<Rightarrow> ('w, 'p) IAMService option \<Rightarrow> Principal \<Rightarrow> string \<Rightarrow> string list \<Rightarrow> condition_keys \<Rightarrow> 'w \<Rightarrow>
   auth_error option \<times> 'w" where
  "Evaluate lib iam caller iamAction resources keys w =
     (case iam of
        None \<Rightarrow> (Some (Plain ErrorInternalError), w)
      | Some svc \<Rightarrow>
          (case select_resolver lib caller of
             Bypass \<Rightarrow> (None, w)
           | Refuse e \<Rightarrow> (Some e, w)
           | res \<Rightarrow>
               (case resolve_policies (run_resolver svc res) (iam_sleep svc) 2 0 w of
                  (Inl err, w1) \<Rightarrow> (Some (Plain ErrorInternalError), w1)
                | (Inr policies, w1) \<Rightarrow>
                    (case find (\<lambda>r. Denies lib iamAction r policies keys) resources of
                       Some r \<Rightarrow> (Some (DenialError iamAction r), w1)
                     | None \<Rightarrow> (None, w1)))))"

definition Authorize ::
  "'p policy_library \<Rightarrow> principal_spellings \<Rightarrow> (condition_keys \<Rightarrow> condition_keys) \<Rightarrow> ('w, 'p) IAMService option \<Rightarrow>
   http_request \<Rightarrow> Principal \<Rightarrow> string \<Rightarrow> string list \<Rightarrow> 'w \<Rightarrow> auth_error option \<times> 'w" where
  "Authorize lib sp SetRequestTime iam r caller iamAction resources w =
     Evaluate lib iam caller iamAction resources (RequestConditionKeys sp SetRequestTime r caller) w"

section \<open>Fail closed\<close>

text \<open>What a resolver answers after at most three attempts comes from one of its own calls.\<close>

lemma resolve_policies_from:
  "resolve_policies f sleep n k w = (Inr ps, w') \<Longrightarrow> \<exists>u. f u = (Inr ps, w')"
  by (induction f sleep n k w rule: resolve_policies.induct) (auto split: prod.splits sum.splits if_splits)

text \<open>
  C12. Authorization fails closed. A request is allowed only if the caller is the user root of the
  global account, or one call to the IAM service returned the policies of the caller's own account, of
  the user by name or of the role its session was issued for, and under those policies the library
  denies the action on none of the resources. A role session is never let through by the name its
  caller chose for it.
\<close>

theorem Evaluate_fails_closed:
  assumes "Evaluate lib iam caller act resources keys w = (None, w')"
  shows "(pc_PrincipalType caller = PrincipalTypeUser \<and> pc_Identity caller = ''root'' \<and>
          pc_AccountID caller = GlobalAccountID) \<or>
    (\<exists>svc u ps.
      iam = Some svc \<and> (\<forall>r \<in> set resources. \<not> Denies lib act r ps keys) \<and>
      (pc_PrincipalType caller = PrincipalTypeUser \<and>
         GetUserPolicies svc u (pc_AccountID caller) (pc_Identity caller) = (Inr ps, w') \<or>
       pc_PrincipalType caller = PrincipalTypeAssumedRole \<and>
         (\<exists>role. ParseRoleARN lib (pc_UnderlyingRoleARN caller) = Inr (pc_AccountID caller, role) \<and>
            GetRolePolicies svc u (pc_AccountID caller) role = (Inr ps, w'))))"
proof -
  from assms obtain svc where svc: "iam = Some svc" by (cases iam) (auto simp: Evaluate_def)
  let ?res = "select_resolver lib caller"
  show ?thesis
  proof (cases ?res)
    case Bypass
    then show ?thesis by (auto simp: select_resolver_def split: if_splits sum.splits)
  next
    case (Refuse e)
    with assms svc show ?thesis by (simp add: Evaluate_def)
  next
    case (ResolveUser a n)
    obtain x w1 where x: "resolve_policies (run_resolver svc ?res) (iam_sleep svc) 2 0 w = (x, w1)" by fastforce
    with assms svc ResolveUser obtain ps where ps: "x = Inr ps" "w1 = w'" "find (\<lambda>r. Denies lib act r ps keys) resources = None"
      by (auto simp: Evaluate_def split: sum.splits option.splits)
    from resolve_policies_from [OF x [unfolded ps(1,2)]] obtain u where "run_resolver svc ?res u = (Inr ps, w')" ..
    with ResolveUser svc ps(3) show ?thesis
      by (auto simp: run_resolver_def select_resolver_def find_None_iff split: if_splits sum.splits)
  next
    case (ResolveRole a n)
    obtain x w1 where x: "resolve_policies (run_resolver svc ?res) (iam_sleep svc) 2 0 w = (x, w1)" by fastforce
    with assms svc ResolveRole obtain ps where ps: "x = Inr ps" "w1 = w'" "find (\<lambda>r. Denies lib act r ps keys) resources = None"
      by (auto simp: Evaluate_def split: sum.splits option.splits)
    from resolve_policies_from [OF x [unfolded ps(1,2)]] obtain u where "run_resolver svc ?res u = (Inr ps, w')" ..
    with ResolveRole svc ps(3) show ?thesis
      by (auto simp: run_resolver_def select_resolver_def find_None_iff split: if_splits sum.splits) blast
  qed
qed

text \<open>A library that denies whatever no policy names, and a service that fails once before it answers.\<close>

definition list_library :: "string policy_library" where
  "list_library = \<lparr>Denies = (\<lambda>act r ps keys. r \<notin> set ps), ParseRoleARN = (\<lambda>s. Inr (''123456789012'', s))\<rparr>"

definition flaky_iam :: "(bool, string) IAMService" where
  "flaky_iam = \<lparr>GetUserPolicies = (\<lambda>w a n. (if w then Inr [''vol-1''] else Inl (Sentinel ErrTimeout), True)),
     GetRolePolicies = (\<lambda>w a n. (Inl (Text ''no such role''), w)), iam_sleep = (\<lambda>w n. w)\<rparr>"

definition alice :: Principal where
  "alice = \<lparr>pc_Identity = ''alice'', pc_AccountID = ''123456789012'', pc_PrincipalType = PrincipalTypeUser,
     pc_AssumedRoleARN = [], pc_UnderlyingRoleARN = [], pc_UserID = ''AIDA1''\<rparr>"

theorem Evaluate_fails_closed_witness:
  "\<exists>u ps. GetUserPolicies flaky_iam u ''123456789012'' ''alice'' = (Inr ps, True) \<and>
     Evaluate list_library (Some flaky_iam) alice ''ec2:AttachVolume'' [''vol-1''] Map.empty False = (None, True) \<and>
     \<not> Denies list_library ''ec2:AttachVolume'' ''vol-1'' ps Map.empty"
proof -
  have e: "Evaluate list_library (Some flaky_iam) alice ''ec2:AttachVolume'' [''vol-1''] Map.empty False = (None, True)"
    by (simp add: Evaluate_def select_resolver_def alice_def run_resolver_def flaky_iam_def eval_nat_numeral
        policy_transient_def list_library_def)
  from Evaluate_fails_closed [OF e] e show ?thesis by (auto simp: alice_def)
qed

end
