(* ===== verification/Gobytes.thy ===== *)
theory Gobytes
  imports Prelude
begin

text \<open>
  The parts of Go's standard library for bytes that the message queue uses: big-endian integers
  (\<open>encoding/binary\<close>), hexadecimal and raw URL base64 (\<open>encoding/hex\<close>, \<open>encoding/base64\<close>), UTF-8
  (\<open>unicode/utf8\<close>), and the digests MD5, SHA-256 and HMAC-SHA-256 (\<open>crypto\<close>). A byte slice is a
  \<open>string\<close>, whose characters are bytes.
\<close>

unbundle bit_operations_syntax

section \<open>Integers as bytes\<close>

fun be_bytes :: "nat \<Rightarrow> nat \<Rightarrow> string" where
  "be_bytes 0 n = []"
| "be_bytes (Suc k) n = be_bytes k (n div 256) @ [char_of (n mod 256)]"

definition be_val :: "string \<Rightarrow> nat" where
  "be_val s = foldl (\<lambda>n c. 256 * n + of_char c) 0 s"

definition le_bytes :: "nat \<Rightarrow> nat \<Rightarrow> string" where
  "le_bytes k n = rev (be_bytes k n)"

definition le_val :: "string \<Rightarrow> nat" where
  "le_val s = be_val (rev s)"

lemma length_be_bytes [simp]: "length (be_bytes k n) = k"
  by (induction k arbitrary: n) auto

lemma be_val_snoc: "be_val (s @ [c]) = 256 * be_val s + of_char c"
  by (simp add: be_val_def)

lemma be_val_Nil [simp]: "be_val [] = 0"
  by (simp add: be_val_def)

lemma of_char_less: "(of_char c :: nat) < 256"
  by (metis of_char_mod_256 mod_less_divisor zero_less_numeral)

lemma be_val_bytes: "be_val (be_bytes k n) = n mod 256 ^ k"
proof (induction k arbitrary: n)
  case (Suc k)
  have "(of_char (char_of (n mod 256) :: char) :: nat) = n mod 256" by (simp add: of_char_of)
  with Suc show ?case by (simp add: be_val_snoc mod_mult2_eq)
qed simp

lemma be_val_bound: "be_val s < 256 ^ length s"
proof (induction s rule: rev_induct)
  case (snoc c s)
  have "256 * be_val s + of_char c < 256 * (be_val s + 1)" using of_char_less [of c] by simp
  also have "\<dots> \<le> 256 * 256 ^ length s" using snoc by (intro mult_le_mono2) simp
  finally show ?case by (simp add: be_val_snoc)
qed simp

lemma be_bytes_val: "be_bytes (length s) (be_val s) = s"
proof (induction s rule: rev_induct)
  case (snoc c s)
  have "(256 * be_val s + of_char c) div 256 = be_val s" and "(256 * be_val s + of_char c) mod 256 = of_char c"
    using of_char_less [of c] by simp_all
  with snoc show ?case by (simp add: be_val_snoc)
qed simp

section \<open>Decimal integers\<close>

text \<open>\<open>strconv.FormatInt\<close> and \<open>strconv.ParseUint\<close> in base 10 at 64 bits. \<open>strconv.ParseInt\<close> is
  \<open>go_atoi\<close>.\<close>

definition go_format_int :: "int \<Rightarrow> string" where
  "go_format_int i = (if i < 0 then CHR ''-'' # go_itoa (nat (- i)) else go_itoa (nat i))"

definition go_parse_uint :: "string \<Rightarrow> nat option" where
  "go_parse_uint s =
     (if s = [] \<or> \<not> list_all is_digit s \<or> 2 ^ 64 \<le> digits_val s then None else Some (digits_val s))"

lemma go_parse_uint_itoa: "n < 2 ^ 64 \<Longrightarrow> go_parse_uint (go_itoa n) = Some n"
  by (simp add: go_parse_uint_def go_itoa_digits)

lemma go_atoi_format: "0 \<le> i \<Longrightarrow> i < 2 ^ 63 \<Longrightarrow> go_atoi (go_format_int i) = Some i"
  using go_atoi_itoa [of "nat i"] by (simp add: go_format_int_def nat_less_iff)

section \<open>Hexadecimal\<close>

definition hex_char :: "nat \<Rightarrow> char" where
  "hex_char n = (if n < 10 then char_of (48 + n) else char_of (87 + n))"

definition hex_encode :: "string \<Rightarrow> string" where
  "hex_encode s = concat (map (\<lambda>c. [hex_char (of_char c div 16), hex_char (of_char c mod 16)]) s)"

definition is_hex :: "char \<Rightarrow> bool" where
  "is_hex c \<longleftrightarrow> is_digit c \<or> (97 \<le> (of_char c :: nat) \<and> (of_char c :: nat) \<le> 102)"

lemma is_hex_char: "n < 16 \<Longrightarrow> is_hex (hex_char n)"
  by (auto simp: is_hex_def hex_char_def of_char_of)

lemma hex_encode_hex: "list_all is_hex (hex_encode s)"
proof (induction s)
  case (Cons c s)
  have "(of_char c :: nat) div 16 < 16" using of_char_less [of c] by (simp add: less_mult_imp_div_less)
  with Cons show ?case by (simp add: hex_encode_def is_hex_char)
qed (simp add: hex_encode_def)

lemma length_hex_encode [simp]: "length (hex_encode s) = 2 * length s"
  by (induction s) (simp_all add: hex_encode_def)

section \<open>Base64\<close>

text \<open>
  \<open>base64.RawURLEncoding.Strict()\<close>: the URL alphabet, no padding, and unused bits that must be zero.
  The decoder skips carriage returns and newlines wherever they stand.
\<close>

definition b64_char :: "nat \<Rightarrow> char" where
  "b64_char n =
     (if n < 26 then char_of (65 + n) else if n < 52 then char_of (71 + n)
      else if n < 62 then char_of (n - 4) else if n = 62 then CHR ''-'' else CHR ''_'')"

definition b64_index :: "char \<Rightarrow> nat option" where
  "b64_index c =
     (let v = (of_char c :: nat) in
      if 65 \<le> v \<and> v \<le> 90 then Some (v - 65)
      else if 97 \<le> v \<and> v \<le> 122 then Some (v - 71)
      else if 48 \<le> v \<and> v \<le> 57 then Some (v + 4)
      else if v = 45 then Some 62 else if v = 95 then Some 63 else None)"

fun b64_digits :: "string \<Rightarrow> nat list" where
  "b64_digits [] = []"
| "b64_digits [a] = (let n = of_char a * 16 in [n div 64, n mod 64])"
| "b64_digits [a, b] = (let n = be_val [a, b] * 4 in [n div 4096, n div 64 mod 64, n mod 64])"
| "b64_digits (a # b # c # s) =
     (let n = be_val [a, b, c]
      in n div 262144 # n div 4096 mod 64 # n div 64 mod 64 # n mod 64 # b64_digits s)"

fun b64_undigits :: "nat list \<Rightarrow> string option" where
  "b64_undigits [] = Some []"
| "b64_undigits [x] = None"
| "b64_undigits [x, y] = (if y mod 16 \<noteq> 0 then None else Some (be_bytes 1 ((x * 64 + y) div 16)))"
| "b64_undigits [x, y, z] =
     (if z mod 4 \<noteq> 0 then None else Some (be_bytes 2 ((x * 4096 + y * 64 + z) div 4)))"
| "b64_undigits (x # y # z # u # ds) =
     map_option ((@) (be_bytes 3 (x * 262144 + y * 4096 + z * 64 + u))) (b64_undigits ds)"

definition b64_encode :: "string \<Rightarrow> string" where
  "b64_encode s = map b64_char (b64_digits s)"

definition not_newline :: "char \<Rightarrow> bool" where
  "not_newline c \<longleftrightarrow> c \<noteq> CHR 0x0A \<and> c \<noteq> CHR 0x0D"

definition b64_decode :: "string \<Rightarrow> string option" where
  "b64_decode t =
     (case those (map b64_index (filter not_newline t)) of None \<Rightarrow> None | Some ds \<Rightarrow> b64_undigits ds)"

lemma b64_index_char: "n < 64 \<Longrightarrow> b64_index (b64_char n) = Some n"
  by (auto simp: b64_index_def b64_char_def Let_def of_char_of)

lemma b64_chars: "char_of (45 :: nat) = CHR ''-''" "char_of (95 :: nat) = CHR ''_''"
  by (simp_all add: char_of_def bit_0)

lemma b64_char_index:
  assumes "b64_index c = Some n"
  shows "n < 64 \<and> b64_char n = c"
proof -
  have c: "char_of (of_char c :: nat) = c" by simp
  have "c = CHR ''-''" if "of_char c = (45 :: nat)" using c that b64_chars(1) by simp
  moreover have "c = CHR ''_''" if "of_char c = (95 :: nat)" using c that b64_chars(2) by simp
  ultimately show ?thesis
    using assms c by (auto simp: b64_index_def b64_char_def Let_def split: if_splits)
qed

lemma b64_digits_less: "x \<in> set (b64_digits s) \<Longrightarrow> x < 64"
proof (induction s rule: b64_digits.induct)
  case (2 a)
  then show ?case using of_char_less [of a] by (auto simp: Let_def less_mult_imp_div_less)
next
  case (3 a b)
  then show ?case using be_val_bound [of "[a, b]"] by (auto simp: Let_def less_mult_imp_div_less)
next
  case (4 a b c s)
  then show ?case using be_val_bound [of "[a, b, c]"] by (auto simp: Let_def less_mult_imp_div_less)
qed simp

lemma triple_digits:
  fixes n :: nat
  shows "n div 4096 * 4096 + n div 64 mod 64 * 64 + n mod 64 = n"
proof -
  have "n div 4096 = n div 64 div 64" by (simp flip: div_mult2_eq)
  then have "n div 4096 * 4096 + n div 64 mod 64 * 64 + n mod 64 =
    (n div 64 div 64 * 64 + n div 64 mod 64) * 64 + n mod 64" by (simp only: distrib_right mult.assoc)
  then show ?thesis by (simp only: div_mult_mod_eq)
qed

lemma quad_digits:
  fixes n :: nat
  shows "n div 262144 * 262144 + n div 4096 mod 64 * 4096 + n div 64 mod 64 * 64 + n mod 64 = n"
proof -
  have "n div 262144 = n div 64 div 4096" "n div 4096 = n div 64 div 64" by (simp_all flip: div_mult2_eq)
  then have "n div 262144 * 262144 + n div 4096 mod 64 * 4096 + n div 64 mod 64 * 64 + n mod 64 =
    (n div 64 div 4096 * 4096 + n div 64 div 64 mod 64 * 64 + n div 64 mod 64) * 64 + n mod 64"
    by (simp only: distrib_right mult.assoc)
  then show ?thesis by (simp only: triple_digits div_mult_mod_eq)
qed

lemma triple_undigits:
  fixes x y z :: nat
  assumes "n = x * 4096 + y * 64 + z" and "x < 64" "y < 64" "z < 64"
  shows "n div 4096 = x" and "n div 64 mod 64 = y" and "n mod 64 = z"
proof -
  have n: "n = (x * 64 + y) * 64 + z" using assms(1) by simp
  then have d: "n div 64 = x * 64 + y" using assms(4) by simp
  have "n div 4096 = n div 64 div 64" by (simp flip: div_mult2_eq)
  with d assms(3) show "n div 4096 = x" by simp
  from d assms(3) show "n div 64 mod 64 = y" by simp
  from n assms(4) show "n mod 64 = z" by (simp only: mod_mult_self3 mod_less)
qed

lemma quad_undigits:
  fixes x y z u :: nat
  assumes "n = x * 262144 + y * 4096 + z * 64 + u" and "x < 64" "y < 64" "z < 64" "u < 64"
  shows "n div 262144 = x" and "n div 4096 mod 64 = y" and "n div 64 mod 64 = z" and "n mod 64 = u"
proof -
  have n: "n = (x * 4096 + y * 64 + z) * 64 + u" using assms(1) by simp
  then have d: "n div 64 = x * 4096 + y * 64 + z" using assms(5) by simp
  note t = triple_undigits [OF d assms(2-4)]
  show "n div 262144 = x" using t(1) by (simp flip: div_mult2_eq)
  show "n div 4096 mod 64 = y" using t(2) by (simp flip: div_mult2_eq)
  show "n div 64 mod 64 = z" by (rule t(3))
  from n assms(5) show "n mod 64 = u" by (simp only: mod_mult_self3 mod_less)
qed

lemma be_bytes_of: "length s = k \<Longrightarrow> be_bytes k (be_val s) = s"
  using be_bytes_val by blast

lemma pair_digits:
  fixes m :: nat
  shows "m * 16 div 64 * 64 + m * 16 mod 64 = m * 16" and "m * 16 mod 64 mod 16 = 0"
  by (simp_all only: div_mult_mod_eq, simp add: mod_mod_cancel)

lemma b64_undigits_digits: "b64_undigits (b64_digits s) = Some s"
proof (induction s rule: b64_digits.induct)
  case (2 a)
  show ?case by (simp only: b64_digits.simps b64_undigits.simps Let_def pair_digits) simp
next
  case (3 a b)
  let ?n = "be_val [a, b] * 4"
  have "?n mod 64 mod 4 = 0" by (simp add: mod_mod_cancel)
  then show ?case
    by (simp only: b64_digits.simps b64_undigits.simps Let_def triple_digits) (simp add: be_bytes_of [of "[a, b]" 2])
next
  case (4 a b c s)
  then show ?case
    by (simp only: b64_digits.simps b64_undigits.simps Let_def quad_digits) (simp add: be_bytes_of [of "[a, b, c]" 3])
qed simp

lemma b64_digits_undigits:
  "b64_undigits ds = Some s \<Longrightarrow> \<forall>x\<in>set ds. x < 64 \<Longrightarrow> b64_digits s = ds"
proof (induction ds arbitrary: s rule: b64_undigits.induct)
  case (3 x y)
  define m where "m = (x * 64 + y) div 16"
  from 3(1) have y: "y mod 16 = 0" and s: "s = be_bytes 1 m"
    unfolding b64_undigits.simps m_def by (metis option.distinct(1) option.inject)+
  from 3(2) have l: "x < 64" "y < 64" by simp_all
  have "16 dvd x * 64 + y" by (intro dvd_add dvd_mult mod_0_imp_dvd y) simp
  then have m: "m * 16 = x * 64 + y" by (simp add: m_def)
  then have "m < 256" using l by simp
  then have "(of_char (char_of m :: char) :: nat) = m" by (simp add: of_char_of)
  moreover have "m * 16 div 64 = x" "m * 16 mod 64 = y" using l unfolding m by simp_all
  ultimately show ?case using s by (simp add: Let_def)
next
  case (4 x y z)
  define m where "m = (x * 4096 + y * 64 + z) div 4"
  from 4(1) have z: "z mod 4 = 0" and s: "s = be_bytes 2 m"
    unfolding b64_undigits.simps m_def by (metis option.distinct(1) option.inject)+
  from 4(2) have l: "x < 64" "y < 64" "z < 64" by simp_all
  have "4 dvd x * 4096 + y * 64 + z" by (intro dvd_add dvd_mult mod_0_imp_dvd z) simp_all
  then have m: "m * 4 = x * 4096 + y * 64 + z" by (simp add: m_def)
  then have b: "m < 65536" using l by simp
  obtain a b where ab: "s = [a, b]" using s by (simp add: numeral_2_eq_2)
  have "be_val s = m" using b by (simp add: s be_val_bytes)
  with ab triple_undigits [OF m l] show ?case by (simp add: Let_def)
next
  case (5 x y z u ds)
  define m where "m = x * 262144 + y * 4096 + z * 64 + u"
  from 5(2) obtain t where t: "b64_undigits ds = Some t" and s: "s = be_bytes 3 m @ t" by (auto simp: m_def)
  from 5(3) have l: "x < 64" "y < 64" "z < 64" "u < 64" by auto
  obtain a b c where abc: "be_bytes 3 m = [a, b, c]" by (simp add: numeral_3_eq_3)
  have "m < 16777216" using l by (simp add: m_def)
  then have "be_val [a, b, c] = m" by (simp add: abc [symmetric] be_val_bytes)
  moreover have "b64_digits t = ds" using 5(1) [OF t] 5(3) by simp
  ultimately show ?case using quad_undigits [OF m_def l] by (simp add: s abc Let_def)
qed auto

lemma those_index_char:
  "\<forall>x\<in>set ds. x < 64 \<Longrightarrow> those (map b64_index (map b64_char ds)) = Some ds"
  by (induction ds) (simp_all add: b64_index_char)

lemma those_indexD:
  "those (map b64_index t) = Some ds \<Longrightarrow> (\<forall>x\<in>set ds. x < 64) \<and> map b64_char ds = t"
  by (induction t arbitrary: ds) (auto split: option.splits dest: b64_char_index)

lemma b64_char_not_newline: "n < 64 \<Longrightarrow> not_newline (b64_char n)"
  using b64_index_char [of n] by (auto simp: not_newline_def b64_index_def)

text \<open>Decoding undoes encoding, and a text that decodes is, apart from newlines, the one spelling.\<close>

lemma b64_encode_clean: "filter not_newline (b64_encode s) = b64_encode s"
  using b64_digits_less [of _ s] by (auto simp: b64_encode_def filter_id_conv b64_char_not_newline)

lemma b64_decode_encode [simp]: "b64_decode (b64_encode s) = Some s"
  using those_index_char [of "b64_digits s"] b64_digits_less [of _ s]
  by (simp add: b64_decode_def b64_encode_clean) (simp add: b64_encode_def b64_undigits_digits)

lemma b64_decode_spelling: "b64_decode t = Some s \<longleftrightarrow> filter not_newline t = b64_encode s"
proof
  assume "b64_decode t = Some s"
  then obtain ds where "those (map b64_index (filter not_newline t)) = Some ds" "b64_undigits ds = Some s"
    by (auto simp: b64_decode_def split: option.splits)
  then show "filter not_newline t = b64_encode s"
    using those_indexD [of "filter not_newline t" ds] b64_digits_undigits [of ds s]
    by (auto simp: b64_encode_def)
next
  assume "filter not_newline t = b64_encode s"
  then have "b64_decode t = b64_decode (b64_encode s)" by (simp add: b64_decode_def b64_encode_clean)
  then show "b64_decode t = Some s" by simp
qed

section \<open>UTF-8\<close>

text \<open>
  \<open>utf8.DecodeRune\<close>: the first rune of the bytes and its width. A malformed sequence is
  \<open>RuneError\<close> of width 1, the empty one \<open>RuneError\<close> of width 0.
\<close>

abbreviation RuneError :: nat where "RuneError \<equiv> 0xFFFD"

definition byte_at :: "string \<Rightarrow> nat \<Rightarrow> nat" where
  "byte_at s i = (if i < length s then of_char (s ! i) else 0)"

definition within :: "nat \<Rightarrow> nat \<Rightarrow> nat \<Rightarrow> bool" where
  "within lo hi n \<longleftrightarrow> lo \<le> n \<and> n \<le> hi"

text \<open>The range the second byte must be in, given the first.\<close>

definition second_range :: "nat \<Rightarrow> nat \<times> nat" where
  "second_range p =
     (if p = 0xE0 then (0xA0, 0xBF) else if p = 0xED then (0x80, 0x9F)
      else if p = 0xF0 then (0x90, 0xBF) else if p = 0xF4 then (0x80, 0x8F) else (0x80, 0xBF))"

definition decode_rune :: "string \<Rightarrow> nat \<times> nat" where
  "decode_rune s =
     (if s = [] then (RuneError, 0)
      else
        let p = byte_at s 0; b1 = byte_at s 1; b2 = byte_at s 2; b3 = byte_at s 3;
            ok1 = within (fst (second_range p)) (snd (second_range p)) b1 in
        if p < 0x80 then (p, 1)
        else if within 0xC2 0xDF p \<and> ok1 then (p mod 32 * 64 + b1 mod 64, 2)
        else if within 0xE0 0xEF p \<and> ok1 \<and> within 0x80 0xBF b2 then
          (p mod 16 * 4096 + b1 mod 64 * 64 + b2 mod 64, 3)
        else if within 0xF0 0xF4 p \<and> ok1 \<and> within 0x80 0xBF b2 \<and> within 0x80 0xBF b3 then
          (p mod 8 * 262144 + b1 mod 64 * 4096 + b2 mod 64 * 64 + b3 mod 64, 4)
        else (RuneError, 1))"

lemma decode_rune_width: "s \<noteq> [] \<Longrightarrow> 0 < snd (decode_rune s)"
  by (simp add: decode_rune_def Let_def)

function runes_of :: "string \<Rightarrow> (nat \<times> nat) list" where
  "runes_of s = (if s = [] then [] else decode_rune s # runes_of (drop (snd (decode_rune s)) s))"
  by auto
termination
  by (relation "measure length") (auto simp: decode_rune_width)

declare runes_of.simps [simp del]

definition RuneCount :: "string \<Rightarrow> nat" where
  "RuneCount s = length (runes_of s)"

definition bad_rune :: "nat \<times> nat \<Rightarrow> bool" where
  "bad_rune rn \<longleftrightarrow> fst rn = RuneError \<and> snd rn \<le> 1"

definition ValidString :: "string \<Rightarrow> bool" where
  "ValidString s \<longleftrightarrow> \<not> list_ex bad_rune (runes_of s)"

section \<open>Letters\<close>

definition is_upper :: "char \<Rightarrow> bool" where
  "is_upper c \<longleftrightarrow> within 65 90 (of_char c)"

definition is_lower :: "char \<Rightarrow> bool" where
  "is_lower c \<longleftrightarrow> within 97 122 (of_char c)"

text \<open>\<open>strings.ToLower\<close> on ASCII letters.\<close>

definition to_lower :: "string \<Rightarrow> string" where
  "to_lower s = map (\<lambda>c. if is_upper c then char_of (of_char c + 32 :: nat) else c) s"

text \<open>\<open>strings.Cut\<close> at a single byte: the part before it, the part after it, and whether it occurs.\<close>

definition go_cut :: "char \<Rightarrow> string \<Rightarrow> string \<times> string \<times> bool" where
  "go_cut c s =
     (takeWhile (\<lambda>x. x \<noteq> c) s, drop 1 (dropWhile (\<lambda>x. x \<noteq> c) s), c \<in> set s)"

section \<open>Digests\<close>

fun blocks :: "nat \<Rightarrow> 'a list \<Rightarrow> 'a list list" where
  "blocks n xs = (if n = 0 \<or> xs = [] then [] else take n xs # blocks n (drop n xs))"

declare blocks.simps [simp del]

definition zeros :: "nat \<Rightarrow> string" where
  "zeros n = replicate n (char_of (0 :: nat))"

definition pad64 :: "(nat \<Rightarrow> string) \<Rightarrow> string \<Rightarrow> string" where
  "pad64 len s = s @ [char_of (128 :: nat)] @ zeros ((119 - length s mod 64) mod 64) @ len (8 * length s)"

subsection \<open>SHA-256\<close>

text \<open>The constants are the first 32 bits of the fractional parts of the roots of the first primes: cube roots
  for the rounds, square roots for the initial hash.\<close>

primrec root_bits :: "nat \<Rightarrow> int \<Rightarrow> nat \<Rightarrow> int \<Rightarrow> int" where
  "root_bits k n 0 r = r"
| "root_bits k n (Suc i) r = root_bits k n i (if (r + 2 ^ i) ^ k \<le> n then r + 2 ^ i else r)"

definition root_fraction :: "nat \<Rightarrow> nat \<Rightarrow> 32 word" where
  "root_fraction k p = word_of_int (root_bits k (int p * 2 ^ (32 * k)) 40 0)"

definition primes_below :: "nat \<Rightarrow> nat list" where
  "primes_below n = filter (\<lambda>p. list_all (\<lambda>d. p mod d \<noteq> 0) [2..<p]) [2..<n]"

definition sha_k :: "32 word list" where
  "sha_k = map (root_fraction 3) (primes_below 312)"

definition sha_h :: "32 word list" where
  "sha_h = map (root_fraction 2) [2, 3, 5, 7, 11, 13, 17, 19]"

definition sha_extend :: "32 word list \<Rightarrow> 32 word list" where
  "sha_extend ws =
     (let n = length ws; a = ws ! (n - 15); b = ws ! (n - 2);
          s0 = word_rotr 7 a XOR word_rotr 18 a XOR drop_bit 3 a;
          s1 = word_rotr 17 b XOR word_rotr 19 b XOR drop_bit 10 b
      in ws @ [ws ! (n - 16) + s0 + ws ! (n - 7) + s1])"

definition sha_schedule :: "string \<Rightarrow> 32 word list" where
  "sha_schedule blk = (sha_extend ^^ 48) (map (\<lambda>q. word_of_nat (be_val q)) (blocks 4 blk))"

fun sha_round :: "32 word \<times> 32 word \<Rightarrow> 32 word list \<Rightarrow> 32 word list" where
  "sha_round (k, x) [a, b, c, d, e, f, g, h] =
     (let s1 = word_rotr 6 e XOR word_rotr 11 e XOR word_rotr 25 e;
          ch = (e AND f) XOR (NOT e AND g);
          t1 = h + s1 + ch + k + x;
          s0 = word_rotr 2 a XOR word_rotr 13 a XOR word_rotr 22 a;
          maj = (a AND b) XOR (a AND c) XOR (b AND c)
      in [t1 + s0 + maj, a, b, c, d + t1, e, f, g])"
| "sha_round kx hs = hs"

definition sha_block :: "32 word list \<Rightarrow> string \<Rightarrow> 32 word list" where
  "sha_block hs blk = map2 (+) hs (fold sha_round (zip sha_k (sha_schedule blk)) hs)"

definition sha256 :: "string \<Rightarrow> string" where
  "sha256 s = concat (map (\<lambda>w. be_bytes 4 (unat w)) (foldl sha_block sha_h (blocks 64 (pad64 (be_bytes 8) s))))"

definition xor_byte :: "nat \<Rightarrow> char \<Rightarrow> char" where
  "xor_byte n c = char_of (n XOR of_char c)"

definition hmac_sha256 :: "string \<Rightarrow> string \<Rightarrow> string" where
  "hmac_sha256 key s =
     (let k0 = (if 64 < length key then sha256 key else key); k = k0 @ zeros (64 - length k0)
      in sha256 (map (xor_byte 0x5c) k @ sha256 (map (xor_byte 0x36) k @ s)))"

subsection \<open>MD5\<close>

definition md5_k :: "32 word list" where
  "md5_k =
    [0xd76aa478, 0xe8c7b756, 0x242070db, 0xc1bdceee, 0xf57c0faf, 0x4787c62a,
     0xa8304613, 0xfd469501, 0x698098d8, 0x8b44f7af, 0xffff5bb1, 0x895cd7be,
     0x6b901122, 0xfd987193, 0xa679438e, 0x49b40821, 0xf61e2562, 0xc040b340,
     0x265e5a51, 0xe9b6c7aa, 0xd62f105d, 0x02441453, 0xd8a1e681, 0xe7d3fbc8,
     0x21e1cde6, 0xc33707d6, 0xf4d50d87, 0x455a14ed, 0xa9e3e905, 0xfcefa3f8,
     0x676f02d9, 0x8d2a4c8a, 0xfffa3942, 0x8771f681, 0x6d9d6122, 0xfde5380c,
     0xa4beea44, 0x4bdecfa9, 0xf6bb4b60, 0xbebfbc70, 0x289b7ec6, 0xeaa127fa,
     0xd4ef3085, 0x04881d05, 0xd9d4d039, 0xe6db99e5, 0x1fa27cf8, 0xc4ac5665,
     0xf4292244, 0x432aff97, 0xab9423a7, 0xfc93a039, 0x655b59c3, 0x8f0ccc92,
     0xffeff47d, 0x85845dd1, 0x6fa87e4f, 0xfe2ce6e0, 0xa3014314, 0x4e0811a1,
     0xf7537e82, 0xbd3af235, 0x2ad7d2bb, 0xeb86d391]"

definition md5_s :: "nat list" where
  "md5_s = concat (map (\<lambda>q. concat (replicate 4 q)) [[7, 12, 17, 22], [5, 9, 14, 20], [4, 11, 16, 23], [6, 10, 15, 21]])"

definition md5_f :: "nat \<Rightarrow> 32 word \<Rightarrow> 32 word \<Rightarrow> 32 word \<Rightarrow> 32 word \<times> nat" where
  "md5_f i b c d =
     (if i < 16 then ((b AND c) OR (NOT b AND d), i)
      else if i < 32 then ((d AND b) OR (NOT d AND c), (5 * i + 1) mod 16)
      else if i < 48 then (b XOR c XOR d, (3 * i + 5) mod 16)
      else (c XOR (b OR NOT d), 7 * i mod 16))"

definition md5_round :: "32 word list \<Rightarrow> nat \<Rightarrow> 32 word \<times> 32 word \<times> 32 word \<times> 32 word \<Rightarrow>
    32 word \<times> 32 word \<times> 32 word \<times> 32 word" where
  "md5_round ms i st =
     (case st of (a, b, c, d) \<Rightarrow>
      (case md5_f i b c d of (f, g) \<Rightarrow>
        (d, b + word_rotl (md5_s ! i) (f + a + md5_k ! i + ms ! g), b, c)))"

definition md5_block :: "32 word \<times> 32 word \<times> 32 word \<times> 32 word \<Rightarrow> string \<Rightarrow>
    32 word \<times> 32 word \<times> 32 word \<times> 32 word" where
  "md5_block st blk =
     (let ms = map (\<lambda>q. word_of_nat (le_val q)) (blocks 4 blk) in
      case (st, fold (md5_round ms) [0..<64] st) of
        ((a, b, c, d), (a', b', c', d')) \<Rightarrow> (a + a', b + b', c + c', d + d'))"

definition md5 :: "string \<Rightarrow> string" where
  "md5 s =
     (case foldl md5_block (0x67452301, 0xefcdab89, 0x98badcfe, 0x10325476) (blocks 64 (pad64 (le_bytes 8) s)) of
        (a, b, c, d) \<Rightarrow> concat (map (\<lambda>w. le_bytes 4 (unat w)) [a, b, c, d]))"

lemma length_sha_round: "length (sha_round kx hs) = length hs"
  by (cases "(kx, hs)" rule: sha_round.cases) (simp_all add: Let_def)

lemma length_sha_fold: "length (fold sha_round kxs hs) = length hs"
  by (induction kxs arbitrary: hs) (simp_all add: length_sha_round)

lemma length_sha_blocks: "length (foldl sha_block hs bs) = length hs"
  by (induction bs arbitrary: hs) (simp_all add: sha_block_def length_sha_fold)

lemma length_sha256 [simp]: "length (sha256 s) = 32"
  by (simp add: sha256_def length_concat comp_def sum_list_triv length_sha_blocks sha_h_def)

lemma length_hmac [simp]: "length (hmac_sha256 k s) = 32"
  by (simp add: hmac_sha256_def Let_def)

lemma length_md5 [simp]: "length (md5 s) = 16"
  by (simp add: md5_def le_bytes_def split: prod.split)

end
