(* ===== verification/SqsStore.thy ===== *)
theory SqsStore
  imports Gobytes Kvutil
begin

text \<open>
  The message store as the queue service sees it, \<open>domains/sqs/message/store.go\<close>: namespaces,
  positions and revisions, the operations of the interface \<open>Store\<close> that the service calls, and the
  contract its comments promise. The store is an argument of the service; \<open>SqsJetstream\<close> models the
  implementation and shows that it keeps the contract.
\<close>

section \<open>Errors\<close>

definition sqs_ErrNotFound :: string where "sqs_ErrNotFound = ''message: not found''"
definition sqs_ErrRevisionMismatch :: string where "sqs_ErrRevisionMismatch = ''message: revision mismatch''"
definition sqs_ErrInvalidArgument :: string where "sqs_ErrInvalidArgument = ''message: invalid argument''"

section \<open>Namespaces\<close>

definition MaxQueueIDLen :: nat where "MaxQueueIDLen = 64"

record Namespace =
  MessageShard :: nat
  StateShard :: nat
  ns_Queue :: string

definition isQueueIDRune :: "nat \<Rightarrow> bool" where
  "isQueueIDRune r \<longleftrightarrow> within 97 122 r \<or> within 65 90 r \<or> within 48 57 r \<or> r = 95 \<or> r = 45"

definition Namespace_Validate :: "Namespace \<Rightarrow> go_error option" where
  "Namespace_Validate n =
     (let q = ns_Queue n in
      if q = [] \<or> MaxQueueIDLen < length q then
        Some (Wrapped [] [Sentinel sqs_ErrInvalidArgument]
                ('': queue ID length '' @ go_itoa (length q) @ '' outside 1..'' @ go_itoa MaxQueueIDLen))
      else if list_ex (\<lambda>rn. \<not> isQueueIDRune (fst rn)) (runes_of q) then
        Some (Wrapped [] [Sentinel sqs_ErrInvalidArgument] '': queue ID contains '')
      else None)"

section \<open>Messages and their state\<close>

type_synonym meta = "string \<rightharpoonup> string"

record AppendInput =
  ai_Body :: string
  ai_Meta :: meta
  ai_IdempotencyKey :: string

record AppendResult =
  ar_Position :: nat
  ar_Duplicate :: bool

record Message =
  m_Position :: nat
  m_Body :: string
  m_Meta :: meta

record Change =
  ch_Namespace :: Namespace
  ch_Position :: nat
  ch_Meta :: meta
  ch_Cursor :: nat

record ScanCursor =
  sc_After :: nat
  sc_Bound :: nat

record ScanPage =
  sp_Changes :: "Change list"
  sp_Next :: ScanCursor
  sp_Done :: bool

definition zero_cursor :: ScanCursor where "zero_cursor = \<lparr>sc_After = 0, sc_Bound = 0\<rparr>"

definition ValidateScan :: "ScanCursor \<Rightarrow> int \<Rightarrow> go_error option" where
  "ValidateScan from limit =
     (if limit < 1 then
        Some (Wrapped [] [Sentinel sqs_ErrInvalidArgument] ('': scan limit '' @ go_format_int limit))
      else if sc_Bound from < sc_After from then
        Some (Wrapped [] [Sentinel sqs_ErrInvalidArgument]
                ('': scan cursor after '' @ go_itoa (sc_After from) @ '' is past its bound '' @ go_itoa (sc_Bound from)))
      else None)"

text \<open>
  The store's operations. A state value is a document of type \<open>'v\<close>, an expected revision 0 creates
  the record. Everything other clients do during a call is part of its world transformer.
\<close>

record ('w, 'v) msg_store =
  st_Append :: "'w \<Rightarrow> Namespace \<Rightarrow> AppendInput \<Rightarrow> AppendResult result \<times> 'w"
  st_Get :: "'w \<Rightarrow> Namespace \<Rightarrow> nat \<Rightarrow> Message result \<times> 'w"
  st_Delete :: "'w \<Rightarrow> Namespace \<Rightarrow> nat \<Rightarrow> unit result \<times> 'w"
  st_GetState :: "'w \<Rightarrow> Namespace \<Rightarrow> nat \<Rightarrow> ('v \<times> nat) result \<times> 'w"
  st_PutState :: "'w \<Rightarrow> Namespace \<Rightarrow> nat \<Rightarrow> 'v \<Rightarrow> nat \<Rightarrow> nat result \<times> 'w"
  st_DeleteState :: "'w \<Rightarrow> Namespace \<Rightarrow> nat \<Rightarrow> nat \<Rightarrow> unit result \<times> 'w"
  st_Scan :: "'w \<Rightarrow> nat \<Rightarrow> ScanCursor \<Rightarrow> int \<Rightarrow> ScanPage result \<times> 'w"

section \<open>The contract\<close>

text \<open>
  What one namespace holds in a world: the message at each position, the last position handed out,
  the state record at each position with its revision, the value every revision had, and what other
  clients may do.
\<close>

record ('w, 'v) msg_view =
  mv_body :: "'w \<Rightarrow> nat \<Rightarrow> Message option"
  mv_last :: "'w \<Rightarrow> nat"
  mv_state :: "'w \<Rightarrow> nat \<Rightarrow> ('v \<times> nat) option"
  mv_hist :: "'w \<Rightarrow> nat \<Rightarrow> nat \<Rightarrow> 'v option"
  mv_rely :: "'w \<Rightarrow> 'w \<Rightarrow> bool"

definition msg_view_ok :: "('w, 'v) msg_view \<Rightarrow> bool" where
  "msg_view_ok V \<longleftrightarrow>
     (\<forall>w. mv_rely V w w) \<and>
     (\<forall>a b c. mv_rely V a b \<longrightarrow> mv_rely V b c \<longrightarrow> mv_rely V a c) \<and>
     (\<forall>w w' p r v. mv_rely V w w' \<longrightarrow> mv_hist V w p r = Some v \<longrightarrow> mv_hist V w' p r = Some v) \<and>
     (\<forall>w p r v. mv_state V w p = Some (v, r) \<longrightarrow> mv_hist V w p r = Some v \<and> r \<noteq> 0) \<and>
     (\<forall>w p m. mv_body V w p = Some m \<longrightarrow> p \<le> mv_last V w)"

text \<open>One instant at which a position's state changes, and one at which its body does.\<close>

definition state_step :: "('w, 'v) msg_view \<Rightarrow> nat \<Rightarrow> ('v \<times> nat) option \<Rightarrow> 'w \<Rightarrow> 'w \<Rightarrow> bool" where
  "state_step V p new w w' \<longleftrightarrow>
     mv_state V w' = (mv_state V w)(p := new) \<and> mv_body V w' = mv_body V w \<and> mv_last V w' = mv_last V w \<and>
     (\<forall>p r v. mv_hist V w p r = Some v \<longrightarrow> mv_hist V w' p r = Some v)"

definition body_step :: "('w, 'v) msg_view \<Rightarrow> nat \<Rightarrow> Message option \<Rightarrow> 'w \<Rightarrow> 'w \<Rightarrow> bool" where
  "body_step V p new w w' \<longleftrightarrow>
     mv_body V w' = (mv_body V w)(p := new) \<and> mv_state V w' = mv_state V w \<and>
     (case new of None \<Rightarrow> mv_last V w' = mv_last V w | Some m \<Rightarrow> mv_last V w < p \<and> mv_last V w' = p) \<and>
     (\<forall>p r v. mv_hist V w p r = Some v \<longrightarrow> mv_hist V w' p r = Some v)"

definition put_done :: "('w, 'v) msg_view \<Rightarrow> nat \<Rightarrow> ('v \<times> nat) option \<Rightarrow> ('v \<times> nat) option \<Rightarrow> 'w \<Rightarrow> 'w \<Rightarrow> bool" where
  "put_done V p old new w w' \<longleftrightarrow>
     (\<exists>u u'. mv_rely V w u \<and> mv_state V u p = old \<and> state_step V p new u u' \<and> mv_rely V u' w')"

definition body_gone :: "('w, 'v) msg_view \<Rightarrow> nat \<Rightarrow> 'w \<Rightarrow> 'w \<Rightarrow> bool" where
  "body_gone V p w w' \<longleftrightarrow>
     (\<exists>u u'. mv_rely V w u \<and> body_step V p None u u' \<and> mv_rely V u' w')"

text \<open>The answer was true at one instant of the call.\<close>

definition seen :: "('w, 'v) msg_view \<Rightarrow> ('w \<Rightarrow> bool) \<Rightarrow> 'w \<Rightarrow> 'w \<Rightarrow> bool" where
  "seen V P w w' \<longleftrightarrow> (\<exists>u. mv_rely V w u \<and> P u \<and> mv_rely V u w')"

text \<open>The old record a conditional write at \<open>expected\<close> replaces.\<close>

definition at_revision :: "nat \<Rightarrow> ('v \<times> nat) option \<Rightarrow> bool" where
  "at_revision expected old \<longleftrightarrow>
     (if expected = 0 then old = None else \<exists>v. old = Some (v, expected))"

definition Get_contract :: "('w, 'v) msg_store \<Rightarrow> ('w, 'v) msg_view \<Rightarrow> Namespace \<Rightarrow> bool" where
  "Get_contract st V ns \<longleftrightarrow> (\<forall>w p x w'. st_Get st w ns p = (x, w') \<longrightarrow>
     mv_rely V w w' \<and>
     (\<forall>m. x = Inr m \<longrightarrow> m_Position m = p \<and> seen V (\<lambda>u. mv_body V u p = Some m) w w') \<and>
     (\<forall>e. x = Inl e \<longrightarrow> errors_Is e sqs_ErrNotFound \<longrightarrow> seen V (\<lambda>u. mv_body V u p = None) w w'))"

definition GetState_contract :: "('w, 'v) msg_store \<Rightarrow> ('w, 'v) msg_view \<Rightarrow> Namespace \<Rightarrow> bool" where
  "GetState_contract st V ns \<longleftrightarrow> (\<forall>w p x w'. st_GetState st w ns p = (x, w') \<longrightarrow>
     mv_rely V w w' \<and>
     (\<forall>v r. x = Inr (v, r) \<longrightarrow> seen V (\<lambda>u. mv_state V u p = Some (v, r)) w w') \<and>
     (\<forall>e. x = Inl e \<longrightarrow> errors_Is e sqs_ErrNotFound \<longrightarrow> seen V (\<lambda>u. mv_state V u p = None) w w'))"

definition PutState_contract :: "('w, 'v) msg_store \<Rightarrow> ('w, 'v) msg_view \<Rightarrow> Namespace \<Rightarrow> bool" where
  "PutState_contract st V ns \<longleftrightarrow> (\<forall>w p v expected x w'. st_PutState st w ns p v expected = (x, w') \<longrightarrow>
     (case x of
        Inr r \<Rightarrow> \<exists>old. put_done V p old (Some (v, r)) w w' \<and> at_revision expected old
      | Inl e \<Rightarrow> mv_rely V w w' \<or>
          (\<not> errors_Is e sqs_ErrRevisionMismatch \<and>
           (\<exists>old r. put_done V p old (Some (v, r)) w w' \<and> at_revision expected old))))"

definition DeleteState_contract :: "('w, 'v) msg_store \<Rightarrow> ('w, 'v) msg_view \<Rightarrow> Namespace \<Rightarrow> bool" where
  "DeleteState_contract st V ns \<longleftrightarrow> (\<forall>w p expected x w'. st_DeleteState st w ns p expected = (x, w') \<longrightarrow>
     (case x of
        Inr r \<Rightarrow> \<exists>v. put_done V p (Some (v, expected)) None w w'
      | Inl e \<Rightarrow> mv_rely V w w' \<or>
          (\<not> errors_Is e sqs_ErrRevisionMismatch \<and> \<not> errors_Is e sqs_ErrNotFound \<and>
           (\<exists>v. put_done V p (Some (v, expected)) None w w'))))"

definition Delete_contract :: "('w, 'v) msg_store \<Rightarrow> ('w, 'v) msg_view \<Rightarrow> Namespace \<Rightarrow> bool" where
  "Delete_contract st V ns \<longleftrightarrow> (\<forall>w p x w'. st_Delete st w ns p = (x, w') \<longrightarrow>
     (case x of
        Inr r \<Rightarrow> seen V (\<lambda>u. mv_body V u p = None) w w' \<or> body_gone V p w w'
      | Inl e \<Rightarrow> mv_rely V w w' \<or> body_gone V p w w'))"

text \<open>An acknowledged append that is no duplicate stored the message at a position past the last one, at
  which there was no message.\<close>

definition appended :: "('w, 'v) msg_view \<Rightarrow> AppendInput \<Rightarrow> nat \<Rightarrow> 'w \<Rightarrow> 'w \<Rightarrow> bool" where
  "appended V ai p w w' \<longleftrightarrow>
     (\<exists>u u'. mv_rely V w u \<and> mv_body V u p = None \<and>
        body_step V p (Some \<lparr>m_Position = p, m_Body = ai_Body ai, m_Meta = ai_Meta ai\<rparr>) u u' \<and> mv_rely V u' w')"

definition Append_contract :: "('w, 'v) msg_store \<Rightarrow> ('w, 'v) msg_view \<Rightarrow> Namespace \<Rightarrow> bool" where
  "Append_contract st V ns \<longleftrightarrow> (\<forall>w ai x w'. st_Append st w ns ai = (x, w') \<longrightarrow>
     (case x of
        Inr res \<Rightarrow> ar_Position res \<noteq> 0 \<and>
          (if ar_Duplicate res then mv_rely V w w' else appended V ai (ar_Position res) w w')
      | Inl e \<Rightarrow> mv_rely V w w' \<or> (\<exists>p. appended V ai p w w')))"

definition Scan_contract :: "('w, 'v) msg_store \<Rightarrow> ('w, 'v) msg_view \<Rightarrow> Namespace \<Rightarrow> bool" where
  "Scan_contract st V ns \<longleftrightarrow> (\<forall>w from limit x w'. st_Scan st w (MessageShard ns) from limit = (x, w') \<longrightarrow>
     mv_rely V w w' \<and>
     (\<forall>page. x = Inr page \<longrightarrow>
        sorted_wrt (<) (sc_After from # map ch_Position (sp_Changes page)) \<and>
        list_all (\<lambda>c. ch_Cursor c = ch_Position c \<and> ch_Position c \<le> sc_After (sp_Next page)) (sp_Changes page) \<and>
        sc_After (sp_Next page) \<le> sc_Bound (sp_Next page)))"

definition store_lawful :: "('w, 'v) msg_store \<Rightarrow> ('w, 'v) msg_view \<Rightarrow> Namespace \<Rightarrow> bool" where
  "store_lawful st V ns \<longleftrightarrow>
     msg_view_ok V \<and> Get_contract st V ns \<and> GetState_contract st V ns \<and> PutState_contract st V ns \<and>
     DeleteState_contract st V ns \<and> Delete_contract st V ns \<and> Append_contract st V ns \<and> Scan_contract st V ns"

lemma mv_refl: "msg_view_ok V \<Longrightarrow> mv_rely V w w"
  by (simp add: msg_view_ok_def)

lemma mv_trans: "msg_view_ok V \<Longrightarrow> mv_rely V a b \<Longrightarrow> mv_rely V b c \<Longrightarrow> mv_rely V a c"
  unfolding msg_view_ok_def by blast

lemma mv_hist_rely: "msg_view_ok V \<Longrightarrow> mv_rely V w w' \<Longrightarrow> mv_hist V w p r = Some v \<Longrightarrow> mv_hist V w' p r = Some v"
  unfolding msg_view_ok_def by blast

lemma mv_state_hist: "msg_view_ok V \<Longrightarrow> mv_state V w p = Some (v, r) \<Longrightarrow> mv_hist V w p r = Some v \<and> r \<noteq> 0"
  unfolding msg_view_ok_def by blast

lemma mv_body_last: "msg_view_ok V \<Longrightarrow> mv_body V w p = Some m \<Longrightarrow> p \<le> mv_last V w"
  unfolding msg_view_ok_def by blast

lemma lawful_parts:
  assumes "store_lawful st V ns"
  shows "msg_view_ok V" "Get_contract st V ns" "GetState_contract st V ns" "PutState_contract st V ns"
    "DeleteState_contract st V ns" "Delete_contract st V ns" "Append_contract st V ns" "Scan_contract st V ns"
  using assms by (simp_all add: store_lawful_def)

lemma seen_rely: "msg_view_ok V \<Longrightarrow> seen V P w w' \<Longrightarrow> mv_rely V w w'"
  unfolding seen_def by (blast intro: mv_trans)

text \<open>A revision read earlier and found stored later still has the value read.\<close>

lemma revision_state:
  assumes "msg_view_ok V" and "seen V (\<lambda>u. mv_state V u p = Some (v, r)) w w1" and "mv_rely V w1 u"
    and "at_revision r (mv_state V u p)"
  shows "mv_state V u p = Some (v, r)"
proof -
  from assms(2) obtain u0 where u0: "mv_state V u0 p = Some (v, r)" "mv_rely V u0 w1" unfolding seen_def by blast
  from mv_state_hist [OF assms(1) u0(1)] have h: "mv_hist V u0 p r = Some v" "r \<noteq> 0" by simp_all
  with assms(4) obtain v' where v': "mv_state V u p = Some (v', r)" by (auto simp: at_revision_def)
  have "mv_hist V u p r = Some v"
    by (rule mv_hist_rely [OF assms(1) mv_trans [OF assms(1) u0(2) assms(3)] h(1)])
  with mv_state_hist [OF assms(1) v'] v' show ?thesis by simp
qed

section \<open>Valid queue identifiers\<close>

lemma mod_above:
  fixes lo n m :: nat
  assumes "lo \<le> n" and "n < lo + m" and "lo mod m = 0"
  shows "n mod m = n - lo"
proof -
  have "n mod m = (lo + (n - lo)) mod m" using assms(1) by simp
  also have "\<dots> = (n - lo) mod m" using assms(3) by (metis add.left_neutral mod_add_left_eq)
  also have "\<dots> = n - lo" using assms(1,2) by simp
  finally show ?thesis .
qed

lemma decode_rune_ascii:
  assumes "s \<noteq> []"
  shows "fst (decode_rune s) < 128 \<longleftrightarrow> of_char (hd s) < (128 :: nat)"
    and "fst (decode_rune s) < 128 \<Longrightarrow> decode_rune s = (of_char (hd s), 1)"
proof -
  have p: "byte_at s 0 = of_char (hd s)" using assms by (simp add: byte_at_def hd_conv_nth)
  define q where "q = (of_char (hd s) :: nat)"
  have m2: "within 0xC2 0xDF q \<Longrightarrow> 2 \<le> q mod 32"
    using mod_above [of 192 q 32] by (auto simp: within_def)
  have m3: "within 0xE0 0xEF q \<Longrightarrow> q \<noteq> 0xE0 \<Longrightarrow> 1 \<le> q mod 16"
    using mod_above [of 224 q 16] by (auto simp: within_def)
  have m4: "within 0xF0 0xF4 q \<Longrightarrow> q \<noteq> 0xF0 \<Longrightarrow> 1 \<le> q mod 8"
    using mod_above [of 240 q 8] by (auto simp: within_def)
  have b3: "within 0xA0 0xBF n \<Longrightarrow> 32 \<le> n mod 64" for n :: nat
    using mod_above [of 128 n 64] by (auto simp: within_def)
  have b4: "within 0x90 0xBF n \<Longrightarrow> 16 \<le> n mod 64" for n :: nat
    using mod_above [of 128 n 64] by (auto simp: within_def)
  have v2: "128 \<le> a * 64 + b" if "2 \<le> a" for a b :: nat using that by simp
  have v3: "128 \<le> a * 4096 + b * 64 + c" if "1 \<le> a \<or> 32 \<le> b" for a b c :: nat using that by auto
  have v4: "128 \<le> a * 262144 + b * 4096 + c * 64 + d" if "1 \<le> a \<or> 16 \<le> b" for a b c d :: nat using that by auto
  note vs = v2 [OF m2] v3 [of "q mod 16" "byte_at s 1 mod 64"] v4 [of "q mod 8" "byte_at s 1 mod 64"]
  let ?ok1 = "within (fst (second_range q)) (snd (second_range q)) (byte_at s 1)"
  have o3: "q \<noteq> 0xE0 \<or> 32 \<le> byte_at s 1 mod 64" if ?ok1
    using b3 [of "byte_at s 1"] that by (cases "q = 0xE0") (simp_all add: second_range_def)
  have o4: "q \<noteq> 0xF0 \<or> 16 \<le> byte_at s 1 mod 64" if ?ok1
    using b4 [of "byte_at s 1"] that by (cases "q = 0xF0") (simp_all add: second_range_def)
  have d: "decode_rune s =
      (if q < 0x80 then (q, 1)
       else if within 0xC2 0xDF q \<and> ?ok1 then (q mod 32 * 64 + byte_at s 1 mod 64, 2)
       else if within 0xE0 0xEF q \<and> ?ok1 \<and> within 0x80 0xBF (byte_at s 2) then
         (q mod 16 * 4096 + byte_at s 1 mod 64 * 64 + byte_at s 2 mod 64, 3)
       else if within 0xF0 0xF4 q \<and> ?ok1 \<and> within 0x80 0xBF (byte_at s 2) \<and> within 0x80 0xBF (byte_at s 3) then
         (q mod 8 * 262144 + byte_at s 1 mod 64 * 4096 + byte_at s 2 mod 64 * 64 + byte_at s 3 mod 64, 4)
       else (RuneError, 1))"
    using assms by (simp only: decode_rune_def Let_def p q_def [symmetric] if_False)
  have r: "128 \<le> RuneError" by simp
  have "128 \<le> fst (decode_rune s)" if q: "128 \<le> q"
    unfolding d using q [folded not_less] r vs(1) vs(2) [OF disjI1 [OF m3]] vs(2) [OF disjI2]
      vs(3) [OF disjI1 [OF m4]] vs(3) [OF disjI2] o3 o4
    by (simp only: fst_conv split: if_split) blast
  moreover have "decode_rune s = (q, 1)" if "q < 128"
    unfolding d using that by (simp only: if_True)
  ultimately show "fst (decode_rune s) < 128 \<longleftrightarrow> of_char (hd s) < (128 :: nat)"
    and "fst (decode_rune s) < 128 \<Longrightarrow> decode_rune s = (of_char (hd s), 1)"
    unfolding q_def by (cases "q < 128"; force simp: q_def)+
qed

lemma queue_id_bytes:
  "\<not> list_ex (\<lambda>rn. \<not> isQueueIDRune (fst rn)) (runes_of s) \<longleftrightarrow> list_all (\<lambda>c. isQueueIDRune (of_char c)) s"
proof (induction s rule: runes_of.induct)
  case (1 s)
  show ?case
  proof (cases s)
    case Nil
    then show ?thesis by (simp add: runes_of.simps)
  next
    case (Cons c t)
    show ?thesis
    proof (cases "fst (decode_rune s) < 128")
      case True
      with decode_rune_ascii(2) [of s] Cons have d: "decode_rune s = (of_char c, 1)" by simp
      with 1 Cons show ?thesis by (subst runes_of.simps) simp
    next
      case False
      then have "\<not> isQueueIDRune (fst (decode_rune s))" by (simp add: isQueueIDRune_def within_def)
      moreover have "\<not> isQueueIDRune (of_char c)"
        using False decode_rune_ascii(1) [of s] Cons by (simp add: isQueueIDRune_def within_def)
      ultimately show ?thesis using Cons by (subst runes_of.simps) simp
    qed
  qed
qed

lemma valid_namespace:
  "Namespace_Validate n = None \<longleftrightarrow>
     ns_Queue n \<noteq> [] \<and> length (ns_Queue n) \<le> MaxQueueIDLen \<and> list_all (\<lambda>c. isQueueIDRune (of_char c)) (ns_Queue n)"
  by (auto simp: Namespace_Validate_def Let_def queue_id_bytes [symmetric])

end
