(* ===== verification/SqsAttributes.thy ===== *)
theory SqsAttributes
  imports SqsStore "HOL-Library.List_Lexorder" "HOL-Library.Char_ord" "HOL-Library.Multiset"
begin

text \<open>
  Message attributes, \<open>domains/sqs/message/attributes.go\<close>: validation, the digest and its encoding beside
  a body, and the selection of attributes by a receive; with the character rules of \<open>send.go\<close> that
  they share. Error texts leave quoted input out.
\<close>

section \<open>Characters a body may have\<close>

definition ErrInvalidContents :: string where "ErrInvalidContents = ''message: invalid message contents''"
definition ErrInvalidParameter :: string where "ErrInvalidParameter = ''message: invalid parameter value''"
definition ErrUnsupported :: string where "ErrUnsupported = ''message: unsupported''"
definition sqs_ErrUnavailable :: string where "sqs_ErrUnavailable = ''message: unavailable''"
definition ErrAttributesCorrupt :: string where
  "ErrAttributesCorrupt = ''message: stored message attributes are corrupt''"

definition MaxMessageSize :: nat where "MaxMessageSize = 2 ^ 20"
definition MinMessageSize :: nat where "MinMessageSize = 1024"

definition allowedRune :: "nat \<Rightarrow> bool" where
  "allowedRune r \<longleftrightarrow> r = 0x9 \<or> r = 0xA \<or> r = 0xD \<or> within 0x20 0xD7FF r \<or> within 0xE000 0xFFFD r \<or>
     within 0x10000 0x10FFFF r"

text \<open>\<open>%04X\<close>.\<close>

fun hex_upper :: "nat \<Rightarrow> string" where
  "hex_upper n =
     (let d = n mod 16; c = (if d < 10 then char_of (48 + d) else char_of (55 + d))
      in if n < 16 then [c] else hex_upper (n div 16) @ [c])"

declare hex_upper.simps [simp del]

definition hex4 :: "nat \<Rightarrow> string" where
  "hex4 n = replicate (4 - length (hex_upper n)) (CHR ''0'') @ hex_upper n"

fun scan_contents :: "nat \<Rightarrow> (nat \<times> nat) list \<Rightarrow> go_error option" where
  "scan_contents i [] = None"
| "scan_contents i ((r, n) # rs) =
     (if r = RuneError \<and> n \<le> 1 then
        Some (Wrapped [] [Sentinel ErrInvalidContents] ('': invalid UTF-8 at byte '' @ go_itoa i))
      else if \<not> allowedRune r then
        Some (Wrapped [] [Sentinel ErrInvalidContents]
                ('': disallowed character U+'' @ hex4 r @ '' at byte '' @ go_itoa i))
      else scan_contents (i + n) rs)"

definition validateContents :: "string \<Rightarrow> go_error option" where
  "validateContents body = scan_contents 0 (runes_of body)"

section \<open>Attributes\<close>

definition MaxAttributes :: nat where "MaxAttributes = 10"
definition MaxAttributeNameLen :: nat where "MaxAttributeNameLen = 256"
definition MaxAttributeTypeLen :: nat where "MaxAttributeTypeLen = 256"
definition maxNumberDigits :: nat where "maxNumberDigits = 38"
definition minNumberExponent :: int where "minNumberExponent = - 128"
definition maxNumberExponent :: int where "maxNumberExponent = 126"
definition attributeCodecFormat :: char where "attributeCodecFormat = CHR 0x01"
definition transportString :: char where "transportString = CHR 0x01"
definition transportBinary :: char where "transportBinary = CHR 0x02"

text \<open>A member that was not supplied is \<open>None\<close>.\<close>

record AttributeValue =
  av_DataType :: string
  av_String :: "string option"
  av_Binary :: "string option"
  av_StringList :: "string list option"
  av_BinaryList :: "string list option"

record Attribute =
  at_Name :: string
  at_Value :: AttributeValue

type_synonym Attributes = "Attribute list"

abbreviation invalid_param :: "string \<Rightarrow> go_error" where
  "invalid_param s \<equiv> Wrapped [] [Sentinel ErrInvalidParameter] ('': '' @ s)"

definition isNameByte :: "char \<Rightarrow> bool" where
  "isNameByte c \<longleftrightarrow> is_upper c \<or> is_lower c \<or> is_digit c \<or> c = CHR ''_'' \<or> c = CHR ''-'' \<or> c = CHR ''.''"

definition validateAttributeName :: "string \<Rightarrow> go_error option" where
  "validateAttributeName name =
     (if name = [] then Some (invalid_param ''message attribute name must not be empty'')
      else if MaxAttributeNameLen < length name then
        Some (invalid_param (''message attribute name is longer than '' @ go_itoa MaxAttributeNameLen @ '' characters''))
      else if \<not> list_all isNameByte name then
        Some (invalid_param ''message attribute name may contain only A-Z, a-z, 0-9, underscore, hyphen and period'')
      else if go_has_prefix (to_lower name) ''aws.'' \<or> go_has_prefix (to_lower name) ''amazon.'' then
        Some (invalid_param ''message attribute name uses a reserved prefix'')
      else if hd name = CHR ''.'' \<or> last name = CHR ''.'' then
        Some (invalid_param ''message attribute name starts or ends with a period'')
      else if go_contains name ''..'' then
        Some (invalid_param ''message attribute name has consecutive periods'')
      else None)"

definition attributeBaseType :: "string \<Rightarrow> string result" where
  "attributeBaseType dataType =
     (if dataType = [] then Inl (invalid_param ''message attribute is missing its DataType'')
      else if MaxAttributeTypeLen < RuneCount dataType then
        Inl (invalid_param (''message attribute has a DataType longer than '' @ go_itoa MaxAttributeTypeLen @ '' characters''))
      else if validateContents dataType \<noteq> None then
        Inl (invalid_param ''message attribute has a DataType with a character SQS does not allow'')
      else
        (case go_cut (CHR ''.'') dataType of (base, label, custom) \<Rightarrow>
           if base \<noteq> ''String'' \<and> base \<noteq> ''Number'' \<and> base \<noteq> ''Binary'' then
             Inl (invalid_param ''message attribute has a DataType that is not String, Number or Binary'')
           else if custom \<and> label = [] then
             Inl (invalid_param ''message attribute has an empty custom DataType label'')
           else Inr base))"

section \<open>Numbers\<close>

definition has_suffix :: "string \<Rightarrow> char \<Rightarrow> bool" where
  "has_suffix s c \<longleftrightarrow> s \<noteq> [] \<and> last s = c"

definition trim_zeros :: "string \<Rightarrow> string" where
  "trim_zeros s = dropWhile (\<lambda>c. c = CHR ''0'') s"

definition is_sign :: "char \<Rightarrow> bool" where
  "is_sign c \<longleftrightarrow> c = CHR ''+'' \<or> c = CHR ''-''"

text \<open>The exponent of a number, or \<open>None\<close> if it is malformed; a text without one has exponent 0.\<close>

definition number_exponent :: "string \<Rightarrow> int option" where
  "number_exponent s =
     (let is_e = (\<lambda>c. c = CHR ''e'' \<or> c = CHR ''E'') in
      if \<not> list_ex is_e s then Some 0
      else
        let t = drop 1 (dropWhile (\<lambda>c. \<not> is_e c) s);
            neg = (t \<noteq> [] \<and> hd t = CHR ''-'');
            e = trim_zeros (if t \<noteq> [] \<and> is_sign (hd t) then drop 1 t else t)
        in if \<not> list_all is_digit e \<or> t = [] \<or> has_suffix s (CHR ''+'') \<or> has_suffix s (CHR ''-'') \<or> 6 < length e
           then None
           else Some (if neg then - int (digits_val e) else int (digits_val e)))"

definition validNumber :: "string \<Rightarrow> bool" where
  "validNumber s0 =
     (let s = (if s0 \<noteq> [] \<and> is_sign (hd s0) then drop 1 s0 else s0);
          mant = takeWhile (\<lambda>c. c \<noteq> CHR ''e'' \<and> c \<noteq> CHR ''E'') s in
      case number_exponent s of
        None \<Rightarrow> False
      | Some ex \<Rightarrow>
          (case go_cut (CHR ''.'') mant of (intPart, frac, found) \<Rightarrow>
             if (intPart = [] \<and> frac = []) \<or> \<not> list_all is_digit intPart \<or> \<not> list_all is_digit frac then False
             else
               (let digits = trim_zeros (intPart @ frac) in
                if digits = [] then True
                else
                  (let lead = ex + int (length intPart) - 1 - (int (length (intPart @ frac)) - int (length digits));
                       sig = rev (trim_zeros (rev digits))
                   in length sig \<le> maxNumberDigits \<and> minNumberExponent \<le> lead \<and>
                      (lead < maxNumberExponent \<or> (lead = maxNumberExponent \<and> sig = ''1''))))))"

section \<open>Values\<close>

definition copyValue :: "AttributeValue \<Rightarrow> AttributeValue" where
  "copyValue v = v\<lparr>av_StringList := None, av_BinaryList := None\<rparr>"

definition validateAttributeValue :: "AttributeValue \<Rightarrow> AttributeValue result" where
  "validateAttributeValue v =
     (if av_StringList v \<noteq> None \<or> av_BinaryList v \<noteq> None then
        Inl (Wrapped [] [Sentinel ErrUnsupported] '': message attribute list values'')
      else
        (case attributeBaseType (av_DataType v) of
           Inl err \<Rightarrow> Inl err
         | Inr base \<Rightarrow>
             if base = ''Binary'' then
               (if av_String v \<noteq> None then
                  Inl (invalid_param ''message attribute of type Binary must not have a StringValue'')
                else
                  (case av_Binary v of
                     None \<Rightarrow> Inl (invalid_param ''message attribute is missing its BinaryValue'')
                   | Some b \<Rightarrow>
                       if b = [] then Inl (invalid_param ''message attribute has an empty BinaryValue'')
                       else Inr (copyValue v)))
             else if av_Binary v \<noteq> None then
               Inl (invalid_param (''message attribute of type '' @ base @ '' must not have a BinaryValue''))
             else
               (case av_String v of
                  None \<Rightarrow> Inl (invalid_param ''message attribute is missing its StringValue'')
                | Some s \<Rightarrow>
                    if s = [] then Inl (invalid_param ''message attribute has an empty StringValue'')
                    else if validateContents s \<noteq> None then
                      Inl (invalid_param ''message attribute has a StringValue with a character SQS does not allow'')
                    else if base = ''Number'' \<and> \<not> validNumber s then
                      Inl (invalid_param ''message attribute is not a number within 38 digits and 10^-128 to 10^126'')
                    else Inr (copyValue v))))"

definition valueBytes :: "AttributeValue \<Rightarrow> string" where
  "valueBytes v =
     (case av_String v of Some s \<Rightarrow> s | None \<Rightarrow> (case av_Binary v of Some b \<Rightarrow> b | None \<Rightarrow> []))"

definition Attributes_Size :: "Attributes \<Rightarrow> nat" where
  "Attributes_Size as =
     sum_list (map (\<lambda>a. length (at_Name a) + length (av_DataType (at_Value a)) + length (valueBytes (at_Value a))) as)"

definition SuppliedSize :: "Attribute list \<Rightarrow> nat" where
  "SuppliedSize as =
     sum_list (map (\<lambda>a. let v = at_Value a in
       length (at_Name a) + length (av_DataType v) +
       (case av_Binary v of Some b \<Rightarrow> length b | None \<Rightarrow> 0) + (case av_String v of Some s \<Rightarrow> length s | None \<Rightarrow> 0) +
       (case av_StringList v of Some l \<Rightarrow> sum_list (map length l) | None \<Rightarrow> 0) +
       (case av_BinaryList v of Some l \<Rightarrow> sum_list (map length l) | None \<Rightarrow> 0)) as)"

fun validate_attributes :: "string list \<Rightarrow> Attribute list \<Rightarrow> Attribute list result" where
  "validate_attributes names [] = Inr []"
| "validate_attributes names (a # as) =
     (case validateAttributeName (at_Name a) of
        Some err \<Rightarrow> Inl err
      | None \<Rightarrow>
          if at_Name a \<in> set names then Inl (invalid_param ''message attribute name is repeated'')
          else
            (case validateAttributeValue (at_Value a) of
               Inl err \<Rightarrow> Inl err
             | Inr v \<Rightarrow>
                 (case validate_attributes (at_Name a # names) as of
                    Inl err \<Rightarrow> Inl err
                  | Inr out \<Rightarrow> Inr (\<lparr>at_Name = at_Name a, at_Value = v\<rparr> # out))))"

definition NewAttributes :: "Attribute list \<Rightarrow> Attributes result" where
  "NewAttributes ins =
     (if ins = [] then Inr []
      else if MaxAttributes < length ins then
        Inl (invalid_param (''a message can have at most '' @ go_itoa MaxAttributes @ '' message attributes, got '' @
               go_itoa (length ins)))
      else
        (case validate_attributes [] ins of
           Inl err \<Rightarrow> Inl err
         | Inr out \<Rightarrow>
             (let attrs = sort_key at_Name out in
              if MaxMessageSize < Attributes_Size attrs then
                Inl (invalid_param (''message attributes are '' @ go_itoa (Attributes_Size attrs) @ '' bytes, over the '' @
                       go_itoa MaxMessageSize @ '' byte maximum''))
              else Inr attrs)))"

section \<open>Digest and encoding\<close>

definition appendField :: "string \<Rightarrow> string" where
  "appendField b = be_bytes 4 (length b) @ b"

definition readField :: "string \<Rightarrow> (string \<times> string) option" where
  "readField b =
     (if length b < 4 then None
      else
        let n = be_val (take 4 b) in
        if length b - 4 < n then None else Some (take n (drop 4 b), drop (4 + n) b))"

definition attribute_bytes :: "Attribute \<Rightarrow> string" where
  "attribute_bytes a =
     appendField (at_Name a) @ appendField (av_DataType (at_Value a)) @
     [if av_String (at_Value a) \<noteq> None then transportString else transportBinary] @
     appendField (valueBytes (at_Value a))"

definition digestBuffer :: "Attributes \<Rightarrow> string" where
  "digestBuffer as = concat (map attribute_bytes as)"

definition Attributes_MD5 :: "Attributes \<Rightarrow> string" where
  "Attributes_MD5 as = (if as = [] then [] else hex_encode (md5 (digestBuffer as)))"

definition Attributes_Encode :: "Attributes \<Rightarrow> string" where
  "Attributes_Encode as = (if as = [] then [] else attributeCodecFormat # digestBuffer as)"

abbreviation corrupt :: "string \<Rightarrow> go_error" where
  "corrupt s \<equiv> Wrapped [] [Sentinel ErrAttributesCorrupt] ('': '' @ s)"

definition read_attribute :: "string \<Rightarrow> (Attribute \<times> string) result" where
  "read_attribute r =
     (case readField r of
        None \<Rightarrow> Inl (corrupt ''truncated name'')
      | Some (name, r1) \<Rightarrow>
          (case readField r1 of
             None \<Rightarrow> Inl (corrupt ''truncated data type'')
           | Some (dataType, r2) \<Rightarrow>
               if r2 = [] then Inl (corrupt ''truncated data type'')
               else
                 (case readField (tl r2) of
                    None \<Rightarrow> Inl (corrupt ''truncated value'')
                  | Some (value, r3) \<Rightarrow>
                      (let v = \<lparr>av_DataType = dataType, av_String = None, av_Binary = None, av_StringList = None,
                                av_BinaryList = None\<rparr> in
                       if hd r2 = transportString then
                         Inr (\<lparr>at_Name = name, at_Value = v\<lparr>av_String := Some value\<rparr>\<rparr>, r3)
                       else if hd r2 = transportBinary then
                         Inr (\<lparr>at_Name = name, at_Value = v\<lparr>av_Binary := Some value\<rparr>\<rparr>, r3)
                       else Inl (corrupt (''unknown transport type '' @ go_itoa (of_char (hd r2))))))))"

lemma readField_shorter: "readField b = Some (f, rest) \<Longrightarrow> length rest < length b"
  by (auto simp: readField_def Let_def split: if_splits)

lemma read_attribute_shorter: "read_attribute r = Inr (a, rest) \<Longrightarrow> length rest < length r"
  by (fastforce simp: read_attribute_def Let_def split: option.splits if_splits dest!: readField_shorter)

function read_attributes :: "string \<Rightarrow> Attribute list result" where
  "read_attributes r =
     (if r = [] then Inr []
      else
        (case read_attribute r of
           Inl err \<Rightarrow> Inl err
         | Inr (a, rest) \<Rightarrow>
             (case read_attributes rest of Inl err \<Rightarrow> Inl err | Inr as \<Rightarrow> Inr (a # as))))"
  by auto
termination
  by (relation "measure length") (auto dest: read_attribute_shorter)

declare read_attributes.simps [simp del]

definition DecodeAttributes :: "string \<Rightarrow> Attributes result" where
  "DecodeAttributes b =
     (if b = [] then Inr []
      else if hd b \<noteq> attributeCodecFormat then Inl (corrupt (''unknown format '' @ go_itoa (of_char (hd b))))
      else
        (case read_attributes (tl b) of
           Inl err \<Rightarrow> Inl err
         | Inr ins \<Rightarrow>
             (case NewAttributes ins of
                Inl err \<Rightarrow> Inl (wrap2 (Sentinel ErrAttributesCorrupt) err)
              | Inr attrs \<Rightarrow>
                  if map at_Name ins \<noteq> map at_Name attrs then Inl (corrupt ''attributes out of order'')
                  else Inr attrs)))"

definition encodePayload :: "Attributes \<Rightarrow> string \<Rightarrow> string" where
  "encodePayload attrs body = appendField (Attributes_Encode attrs) @ body"

definition decodePayload :: "string \<Rightarrow> string \<Rightarrow> (string \<times> Attributes) result" where
  "decodePayload payload md5a =
     (case readField payload of
        None \<Rightarrow> Inl (corrupt ''truncated payload'')
      | Some (enc, body) \<Rightarrow>
          (case DecodeAttributes enc of
             Inl err \<Rightarrow> Inl err
           | Inr attrs \<Rightarrow>
               if Attributes_MD5 attrs \<noteq> md5a then Inl (corrupt ''attributes do not match their recorded digest'')
               else Inr (body, attrs)))"

section \<open>Selection\<close>

record AttributeSelector =
  as_all :: bool
  as_names :: "string list"
  as_prefixes :: "string list"

fun parse_selector :: "AttributeSelector \<Rightarrow> string list \<Rightarrow> AttributeSelector result" where
  "parse_selector s [] = Inr s"
| "parse_selector s (n # ns) =
     (if n = ''All'' \<or> n = ''.*'' then parse_selector (s\<lparr>as_all := True\<rparr>) ns
      else if 2 \<le> length n \<and> drop (length n - 2) n = ''.*'' then
        (let p = take (length n - 2) n in
         case validateAttributeName p of
           Some err \<Rightarrow> Inl err
         | None \<Rightarrow> parse_selector (s\<lparr>as_prefixes := as_prefixes s @ [p @ ''.'']\<rparr>) ns)
      else
        (case validateAttributeName n of
           Some err \<Rightarrow> Inl err
         | None \<Rightarrow> parse_selector (s\<lparr>as_names := as_names s @ [n]\<rparr>) ns))"

definition ParseAttributeSelector :: "string list \<Rightarrow> AttributeSelector result" where
  "ParseAttributeSelector names = parse_selector \<lparr>as_all = False, as_names = [], as_prefixes = []\<rparr> names"

definition selects :: "AttributeSelector \<Rightarrow> string \<Rightarrow> bool" where
  "selects s name \<longleftrightarrow> as_all s \<or> name \<in> set (as_names s) \<or> list_ex (go_has_prefix name) (as_prefixes s)"

definition Attributes_Select :: "AttributeSelector \<Rightarrow> Attributes \<Rightarrow> Attributes" where
  "Attributes_Select s attrs = filter (\<lambda>a. selects s (at_Name a)) attrs"

section \<open>Encoding round trip\<close>

lemma readField_append:
  assumes "length b < 2 ^ 32"
  shows "readField (appendField b @ rest) = Some (b, rest)"
  using assms by (simp add: readField_def appendField_def Let_def be_val_bytes)

text \<open>What validation leaves: the attributes as supplied, each valid on its own, no name twice.\<close>

definition attribute_ok :: "Attribute \<Rightarrow> bool" where
  "attribute_ok a \<longleftrightarrow> validateAttributeName (at_Name a) = None \<and> validateAttributeValue (at_Value a) = Inr (at_Value a)"

lemma validateAttributeValue_id: "validateAttributeValue v = Inr v' \<Longrightarrow> v' = v"
  by (cases v) (auto simp: validateAttributeValue_def copyValue_def split: if_splits sum.splits option.splits)

lemma validate_attributes_ok:
  "validate_attributes names ins = Inr out \<longleftrightarrow>
     out = ins \<and> (\<forall>a\<in>set ins. attribute_ok a) \<and> distinct (map at_Name ins) \<and> set (map at_Name ins) \<inter> set names = {}"
proof (induction ins arbitrary: names out)
  case (Cons a ins)
  have eta: "\<lparr>at_Name = at_Name a, at_Value = at_Value a\<rparr> = a" by (cases a) simp
  show ?case
  proof (cases "attribute_ok a")
    case True
    then show ?thesis
      using Cons [of "at_Name a # names" ins] Cons [of "at_Name a # names" "tl out"]
      by (auto simp: attribute_ok_def eta split: option.splits sum.splits)
  next
    case False
    have "validate_attributes names (a # ins) \<noteq> Inr out"
    proof
      assume "validate_attributes names (a # ins) = Inr out"
      then obtain v where n: "validateAttributeName (at_Name a) = None" and v: "validateAttributeValue (at_Value a) = Inr v"
        by (simp split: option.splits if_splits sum.splits)
      from validateAttributeValue_id [OF v] False n v show False by (simp add: attribute_ok_def)
    qed
    with False show ?thesis by simp
  qed
qed auto

definition attributes_ok :: "Attributes \<Rightarrow> bool" where
  "attributes_ok as \<longleftrightarrow>
     length as \<le> MaxAttributes \<and> (\<forall>a\<in>set as. attribute_ok a) \<and> distinct (map at_Name as) \<and>
     Attributes_Size as \<le> MaxMessageSize"

lemma Size_perm: "mset as = mset bs \<Longrightarrow> Attributes_Size as = Attributes_Size bs"
  by (simp add: Attributes_Size_def sum_mset_sum_list [symmetric] del: sum_mset_sum_list)

lemma NewAttributes_iff:
  "NewAttributes ins = Inr attrs \<longleftrightarrow> attributes_ok ins \<and> attrs = sort_key at_Name ins"
proof (cases "ins = []")
  case True
  then show ?thesis by (auto simp: NewAttributes_def attributes_ok_def Attributes_Size_def MaxAttributes_def)
next
  case False
  have "Attributes_Size (sort_key at_Name ins) = Attributes_Size ins" by (rule Size_perm) simp
  with False show ?thesis
    using validate_attributes_ok [of "[]" ins ins]
  proof (cases "validate_attributes [] ins")
    case (Inr out)
    with validate_attributes_ok [of "[]" ins out] False \<open>Attributes_Size _ = _\<close> show ?thesis
      by (auto simp: NewAttributes_def attributes_ok_def Let_def)
  qed (auto simp: NewAttributes_def attributes_ok_def)
qed

lemma attributes_ok_sort: "attributes_ok (sort_key at_Name ins) = attributes_ok ins"
proof -
  have "Attributes_Size (sort_key at_Name ins) = Attributes_Size ins" by (rule Size_perm) simp
  moreover have "distinct (map at_Name (sort_key at_Name ins)) = distinct (map at_Name ins)"
    by (simp add: distinct_map)
  ultimately show ?thesis by (simp add: attributes_ok_def)
qed

text \<open>A validated set is valid, in name order, and validating it again changes nothing.\<close>

lemma NewAttributes_again: "NewAttributes ins = Inr attrs \<Longrightarrow> NewAttributes attrs = Inr attrs"
  by (simp add: NewAttributes_iff attributes_ok_sort sort_key_id_if_sorted)

lemma value_shape:
  assumes "validateAttributeValue v = Inr v"
  shows "av_StringList v = None" "av_BinaryList v = None"
    and "(\<exists>s. av_String v = Some s \<and> av_Binary v = None) \<or> (\<exists>b. av_String v = None \<and> av_Binary v = Some b)"
  using assms by (auto simp: validateAttributeValue_def split: if_splits sum.splits option.splits)

lemma read_attribute_bytes:
  assumes "attribute_ok a" and "length (at_Name a) < 2 ^ 32" "length (av_DataType (at_Value a)) < 2 ^ 32"
    "length (valueBytes (at_Value a)) < 2 ^ 32"
  shows "read_attribute (attribute_bytes a @ rest) = Inr (a, rest)"
proof -
  let ?v = "at_Value a"
  have "read_attribute (attribute_bytes a @ rest) =
    (let t = (if av_String ?v \<noteq> None then transportString else transportBinary);
         v = \<lparr>av_DataType = av_DataType ?v, av_String = None, av_Binary = None, av_StringList = None, av_BinaryList = None\<rparr>
     in if t = transportString then Inr (\<lparr>at_Name = at_Name a, at_Value = v\<lparr>av_String := Some (valueBytes ?v)\<rparr>\<rparr>, rest)
        else Inr (\<lparr>at_Name = at_Name a, at_Value = v\<lparr>av_Binary := Some (valueBytes ?v)\<rparr>\<rparr>, rest))"
    using assms(2-4)
    by (simp add: read_attribute_def attribute_bytes_def readField_append Let_def transportString_def transportBinary_def)
  moreover from assms(1) have "validateAttributeValue ?v = Inr ?v" by (simp add: attribute_ok_def)
  note value_shape [OF this]
  ultimately show ?thesis
    by (cases a; cases ?v)
      (auto simp: Let_def valueBytes_def transportString_def transportBinary_def)
qed

definition short_fields :: "Attribute \<Rightarrow> bool" where
  "short_fields a \<longleftrightarrow> length (at_Name a) < 2 ^ 32 \<and> length (av_DataType (at_Value a)) < 2 ^ 32 \<and>
     length (valueBytes (at_Value a)) < 2 ^ 32"

lemma read_attributes_digest:
  "\<forall>a\<in>set as. attribute_ok a \<and> short_fields a \<Longrightarrow> read_attributes (digestBuffer as) = Inr as"
proof (induction as)
  case Nil
  then show ?case by (simp add: digestBuffer_def read_attributes.simps)
next
  case (Cons a as)
  then have "read_attribute (attribute_bytes a @ digestBuffer as) = Inr (a, digestBuffer as)"
    by (simp add: read_attribute_bytes short_fields_def)
  moreover have "attribute_bytes a \<noteq> []" by (simp add: attribute_bytes_def)
  moreover have "digestBuffer (a # as) = attribute_bytes a @ digestBuffer as" by (simp add: digestBuffer_def)
  ultimately show ?case using Cons by (subst read_attributes.simps) simp
qed

lemma attributes_ok_short: "attributes_ok as \<Longrightarrow> a \<in> set as \<Longrightarrow> short_fields a"
proof -
  assume ok: "attributes_ok as" and a: "a \<in> set as"
  let ?f = "\<lambda>a. length (at_Name a) + length (av_DataType (at_Value a)) + length (valueBytes (at_Value a))"
  from a have "?f a \<le> sum_list (map ?f as)" by (intro member_le_sum_list) auto
  with ok show ?thesis by (simp add: attributes_ok_def Attributes_Size_def MaxMessageSize_def short_fields_def)
qed

lemma DecodeAttributes_Encode:
  assumes "NewAttributes ins = Inr attrs"
  shows "DecodeAttributes (Attributes_Encode attrs) = Inr attrs"
proof (cases "attrs = []")
  case True
  then show ?thesis by (simp add: DecodeAttributes_def Attributes_Encode_def)
next
  case False
  from NewAttributes_again [OF assms] have n: "NewAttributes attrs = Inr attrs" .
  then have ok: "attributes_ok attrs" by (simp add: NewAttributes_iff)
  then have "read_attributes (digestBuffer attrs) = Inr attrs"
    by (intro read_attributes_digest) (auto simp: attributes_ok_short, auto simp: attributes_ok_def)
  with False n show ?thesis by (simp add: DecodeAttributes_def Attributes_Encode_def)
qed

lemma length_attribute_bytes: "length (attribute_bytes a) =
    13 + (length (at_Name a) + length (av_DataType (at_Value a)) + length (valueBytes (at_Value a)))"
  by (simp add: attribute_bytes_def appendField_def)

lemma length_digestBuffer: "length (digestBuffer as) = 13 * length as + Attributes_Size as"
  by (induction as) (simp_all add: digestBuffer_def Attributes_Size_def length_attribute_bytes)

lemma length_Attributes_Encode: "attributes_ok as \<Longrightarrow> length (Attributes_Encode as) < 2 ^ 32"
  by (auto simp: Attributes_Encode_def length_digestBuffer attributes_ok_def MaxAttributes_def MaxMessageSize_def)

lemma decodePayload_encode:
  assumes "NewAttributes ins = Inr attrs"
  shows "decodePayload (encodePayload attrs body) (Attributes_MD5 attrs) = Inr (body, attrs)"
proof -
  from NewAttributes_again [OF assms] have "attributes_ok attrs" by (simp add: NewAttributes_iff)
  then have "length (Attributes_Encode attrs) < 2 ^ 32" by (rule length_Attributes_Encode)
  then show ?thesis
    by (simp add: decodePayload_def encodePayload_def readField_append DecodeAttributes_Encode [OF assms])
qed

text \<open>The size of a validated set is the size of what was supplied.\<close>

lemma SuppliedSize_valid: "NewAttributes ins = Inr attrs \<Longrightarrow> SuppliedSize ins = Attributes_Size attrs"
proof -
  assume a: "NewAttributes ins = Inr attrs"
  then have ok: "\<forall>a\<in>set ins. attribute_ok a" and m: "mset attrs = mset ins"
    by (simp_all add: NewAttributes_iff attributes_ok_def)
  have "SuppliedSize ins = Attributes_Size ins"
    unfolding SuppliedSize_def Attributes_Size_def
  proof (intro arg_cong [where f = sum_list] map_cong refl)
    fix a assume "a \<in> set ins"
    with ok have "validateAttributeValue (at_Value a) = Inr (at_Value a)" by (simp add: attribute_ok_def)
    note value_shape [OF this]
    then show "(let v = at_Value a in
       length (at_Name a) + length (av_DataType v) +
       (case av_Binary v of Some b \<Rightarrow> length b | None \<Rightarrow> 0) + (case av_String v of Some s \<Rightarrow> length s | None \<Rightarrow> 0) +
       (case av_StringList v of Some l \<Rightarrow> sum_list (map length l) | None \<Rightarrow> 0) +
       (case av_BinaryList v of Some l \<Rightarrow> sum_list (map length l) | None \<Rightarrow> 0)) =
      length (at_Name a) + length (av_DataType (at_Value a)) + length (valueBytes (at_Value a))"
      by (auto simp: Let_def valueBytes_def)
  qed
  with Size_perm [OF m] show ?thesis by simp
qed

end
