(* ===== verification/SqsSend.thy ===== *)
theory SqsSend
  imports SqsAttributes
begin

text \<open>
  \<open>SendMessage\<close>, \<open>domains/sqs/message/send.go\<close>: validation of the request, the metadata written beside
  the body, and the append. The queue owner, the clock in milliseconds and the random identifier are
  arguments.
\<close>

definition MetaVersion :: nat where "MetaVersion = 2"
definition MetaVersionPlain :: nat where "MetaVersionPlain = 1"
definition MaxDelaySeconds :: int where "MaxDelaySeconds = 900"

definition MetaV :: string where "MetaV = ''V''"
definition MetaID :: string where "MetaID = ''Id''"
definition MetaEnq :: string where "MetaEnq = ''Enq''"
definition MetaVis :: string where "MetaVis = ''Vis''"
definition MetaSender :: string where "MetaSender = ''Sender''"
definition MetaMD5 :: string where "MetaMD5 = ''Md5''"
definition MetaMD5A :: string where "MetaMD5A = ''Md5A''"
definition MetaAcct :: string where "MetaAcct = ''Acct''"
definition MetaRc :: string where "MetaRc = ''Rc''"

lemmas meta_keys = MetaV_def MetaID_def MetaEnq_def MetaVis_def MetaSender_def MetaMD5_def MetaMD5A_def
  MetaAcct_def MetaRc_def

definition sqs_ErrQueueDoesNotExist :: string where "sqs_ErrQueueDoesNotExist = ''message: queue does not exist''"
definition ErrBodyRequired :: string where "ErrBodyRequired = ''message: body is required''"

abbreviation unavailable :: "string \<Rightarrow> go_error" where
  "unavailable s \<equiv> Wrapped [] [Sentinel sqs_ErrUnavailable] ('': '' @ s)"

abbreviation unavailable2 :: "string \<Rightarrow> go_error \<Rightarrow> go_error" where
  "unavailable2 s err \<equiv> Wrapped [] [Sentinel sqs_ErrUnavailable, Wrapped s [err] []] []"

record Target =
  tg_Namespace :: Namespace
  tg_Account :: string
  tg_DelaySeconds :: int
  tg_MaximumMessageSize :: int

record SendInput =
  si_Account :: string
  si_Region :: string
  si_Queue :: string
  si_Sender :: string
  si_Body :: string
  si_DelaySeconds :: "int option"
  si_QueueID :: string
  si_MessageAttributes :: "Attribute list"
  si_SystemAttributes :: "(string \<times> AttributeValue) list"
  si_MessageGroupID :: "string option"
  si_MessageDeduplicationID :: "string option"

record SendResult =
  sr_MessageID :: string
  sr_MD5OfBody :: string
  sr_MD5OfMessageAttributes :: string
  sr_Position :: nat
  sr_EnqueuedAt :: int
  sr_VisibleAfter :: int

type_synonym 'w send_queues = "'w \<Rightarrow> string \<Rightarrow> string \<Rightarrow> string \<Rightarrow> Target result \<times> 'w"

record ('w, 'v) Sender =
  sd_Store :: "('w, 'v) msg_store option"
  sd_Queues :: "'w send_queues option"
  sd_now :: "'w \<Rightarrow> int"
  sd_newID :: "'w \<Rightarrow> string result \<times> 'w"

section \<open>Validation\<close>

definition ValidateMessage :: "SendInput \<Rightarrow> go_error option" where
  "ValidateMessage i =
     (if si_SystemAttributes i \<noteq> [] then
        Some (Wrapped [] [Sentinel ErrUnsupported] '': message system attributes'')
      else if si_MessageGroupID i \<noteq> None then
        Some (Wrapped [] [Sentinel ErrUnsupported] '': MessageGroupId on a standard queue'')
      else if si_MessageDeduplicationID i \<noteq> None then
        Some (Wrapped [] [Sentinel ErrUnsupported] '': MessageDeduplicationId on a standard queue'')
      else if si_Body i = [] then Some (Sentinel ErrBodyRequired)
      else
        (case validateContents (si_Body i) of
           Some err \<Rightarrow> Some err
         | None \<Rightarrow>
             if (case si_DelaySeconds i of None \<Rightarrow> False | Some d \<Rightarrow> d < 0 \<or> MaxDelaySeconds < d) then
               Some (invalid_param (''DelaySeconds must be an integer from 0 to '' @ go_format_int MaxDelaySeconds))
             else
               (case NewAttributes (si_MessageAttributes i) of
                  Inl err \<Rightarrow> Some err
                | Inr attrs \<Rightarrow>
                    if list_ex (\<lambda>a. fst (go_cut (CHR ''.'') (av_DataType (at_Value a))) = ''Number'') attrs then
                      Some (Wrapped [] [Sentinel ErrUnsupported] '': message attribute of type Number'')
                    else None)))"

definition validateRequest :: "SendInput \<Rightarrow> go_error option" where
  "validateRequest i =
     (case ValidateMessage i of
        Some err \<Rightarrow> Some err
      | None \<Rightarrow>
          if si_Sender i = [] \<or> list_ex (\<lambda>c. c = CHR 0x0D \<or> c = CHR 0x0A) (si_Sender i) then
            Some (unavailable ''sender ID is not recordable'')
          else None)"

section \<open>Identifiers\<close>

text \<open>A random UUID (version 4) of 16 random bytes.\<close>

definition set_byte :: "nat \<Rightarrow> nat \<Rightarrow> nat \<Rightarrow> string \<Rightarrow> string" where
  "set_byte i m k b = b[i := char_of (of_char (b ! i) mod m + k)]"

definition NewMessageID :: "string result \<Rightarrow> string result" where
  "NewMessageID random =
     (case random of
        Inl err \<Rightarrow> Inl err
      | Inr b \<Rightarrow>
          (let h = hex_encode (set_byte 8 64 128 (set_byte 6 16 64 b))
           in Inr (take 8 h @ ''-'' @ take 4 (drop 8 h) @ ''-'' @ take 4 (drop 12 h) @ ''-'' @ take 4 (drop 16 h) @ ''-'' @
                   drop 20 h)))"

section \<open>The append\<close>

definition send_meta :: "SendInput \<Rightarrow> Target \<Rightarrow> Attributes \<Rightarrow> string \<Rightarrow> int \<Rightarrow> int \<Rightarrow> meta" where
  "send_meta i t attrs mid enq vis =
     (let m = [MetaV \<mapsto> go_itoa MetaVersionPlain, MetaID \<mapsto> mid, MetaEnq \<mapsto> go_format_int enq,
               MetaVis \<mapsto> go_format_int vis, MetaSender \<mapsto> si_Sender i, MetaMD5 \<mapsto> hex_encode (md5 (si_Body i)),
               MetaAcct \<mapsto> tg_Account t]
      in if attrs \<noteq> [] then m(MetaV \<mapsto> go_itoa MetaVersion, MetaMD5A \<mapsto> Attributes_MD5 attrs) else m)"

text \<open>What the target and the request must satisfy before an identifier is minted.\<close>

definition check_target :: "SendInput \<Rightarrow> Target \<Rightarrow> Attributes result" where
  "check_target i t =
     (if tg_Account t \<noteq> si_Account i then Inl (unavailable ''resolved queue belongs to another account'')
      else if si_QueueID i \<noteq> [] \<and> ns_Queue (tg_Namespace t) \<noteq> si_QueueID i then
        Inl (Wrapped [] [Sentinel sqs_ErrQueueDoesNotExist] '': the queue name now resolves to another queue'')
      else if tg_MaximumMessageSize t < int MinMessageSize \<or> int MaxMessageSize < tg_MaximumMessageSize t then
        Inl (unavailable (''queue size limit '' @ go_format_int (tg_MaximumMessageSize t) @ '' outside '' @
               go_itoa MinMessageSize @ ''..'' @ go_itoa MaxMessageSize))
      else if tg_DelaySeconds t < 0 \<or> MaxDelaySeconds < tg_DelaySeconds t then
        Inl (unavailable (''queue delay '' @ go_format_int (tg_DelaySeconds t) @ '' outside 0..'' @
               go_format_int MaxDelaySeconds))
      else
        (case Namespace_Validate (tg_Namespace t) of
           Some err \<Rightarrow> Inl (wrap2 (Sentinel sqs_ErrUnavailable) err)
         | None \<Rightarrow>
             (case NewAttributes (si_MessageAttributes i) of
                Inl err \<Rightarrow> Inl err
              | Inr attrs \<Rightarrow>
                  if tg_MaximumMessageSize t < int (length (si_Body i) + Attributes_Size attrs) then
                    Inl (invalid_param (''message body and attributes must be shorter than '' @
                           go_format_int (tg_MaximumMessageSize t + 1) @ '' bytes''))
                  else Inr attrs)))"

definition Send :: "('w, 'v) Sender \<Rightarrow> SendInput \<Rightarrow> 'w \<Rightarrow> SendResult result \<times> 'w" where
  "Send s i w =
     (case (sd_Store s, sd_Queues s) of
        (Some st, Some queues) \<Rightarrow>
          (case validateRequest i of
             Some err \<Rightarrow> (Inl err, w)
           | None \<Rightarrow>
               (case queues w (si_Account i) (si_Region i) (si_Queue i) of
                  (Inl err, w1) \<Rightarrow> (Inl err, w1)
                | (Inr t, w1) \<Rightarrow>
                    (case check_target i t of
                       Inl err \<Rightarrow> (Inl err, w1)
                     | Inr attrs \<Rightarrow>
                         (let delay = (case si_DelaySeconds i of Some d \<Rightarrow> d | None \<Rightarrow> tg_DelaySeconds t) in
                          case sd_newID s w1 of
                            (Inl err, w2) \<Rightarrow> (Inl (unavailable2 ''message ID: '' err), w2)
                          | (Inr mid, w2) \<Rightarrow>
                              (let enq = sd_now s w2; vis = int64_of (enq + delay * 1000);
                                   payload = (if attrs \<noteq> [] then encodePayload attrs (si_Body i) else si_Body i) in
                               case st_Append st w2 (tg_Namespace t)
                                      \<lparr>ai_Body = payload, ai_Meta = send_meta i t attrs mid enq vis, ai_IdempotencyKey = []\<rparr> of
                                 (Inl err, w3) \<Rightarrow> (Inl (wrap2 (Sentinel sqs_ErrUnavailable) err), w3)
                               | (Inr res, w3) \<Rightarrow>
                                   if ar_Position res = 0 \<or> ar_Duplicate res then
                                     (Inl (unavailable ''append returned no new position''), w3)
                                   else
                                     (Inr \<lparr>sr_MessageID = mid, sr_MD5OfBody = hex_encode (md5 (si_Body i)),
                                           sr_MD5OfMessageAttributes = Attributes_MD5 attrs,
                                           sr_Position = ar_Position res, sr_EnqueuedAt = enq,
                                           sr_VisibleAfter = vis\<rparr>, w3))))))
      | _ \<Rightarrow> (Inl (unavailable ''sender is not configured''), w))"

end
