(* ===== verification/SqsReceipt.thy ===== *)
theory SqsReceipt
  imports SqsStore
begin

text \<open>
  Receipt handles, \<open>domains/sqs/message/receipt.go\<close>: what a handle binds, the key ring that signs and
  verifies handles, and their layout.
\<close>

definition ErrReceiptInvalid :: string where "ErrReceiptInvalid = ''message: receipt handle is invalid''"

definition ReceiptVersion :: nat where "ReceiptVersion = 1"
definition MinReceiptKeyLen :: nat where "MinReceiptKeyLen = 32"
definition MaxReceiptHandleLen :: nat where "MaxReceiptHandleLen = 1024"
definition receiptMACLen :: nat where "receiptMACLen = 32"
definition receiptFixedLen :: nat where "receiptFixedLen = 1 + 4 + 1 + 8 + 8"

lemmas receipt_sizes = ReceiptVersion_def MinReceiptKeyLen_def MaxReceiptHandleLen_def receiptMACLen_def
  receiptFixedLen_def

record Receipt =
  rc_Queue :: string
  rc_Position :: nat
  rc_Generation :: nat

record ReceiptKeys =
  rk_signing :: nat
  rk_keys :: "nat \<rightharpoonup> string"

text \<open>The keys are given in the order the map is iterated; the first short one is reported.\<close>

definition NewReceiptKeys :: "nat \<Rightarrow> (nat \<times> string) list \<Rightarrow> ReceiptKeys result" where
  "NewReceiptKeys signing ks =
     (if map_of ks signing = None then
        Inl (Wrapped [] [Sentinel sqs_ErrInvalidArgument] ('': signing key '' @ go_itoa signing @ '' not in ring''))
      else
        case find (\<lambda>(i, k). length k < MinReceiptKeyLen) ks of
          Some (i, k) \<Rightarrow>
            Inl (Wrapped [] [Sentinel sqs_ErrInvalidArgument]
                   ('': receipt key '' @ go_itoa i @ '' shorter than '' @ go_itoa MinReceiptKeyLen @ '' bytes''))
        | None \<Rightarrow> Inr \<lparr>rk_signing = signing, rk_keys = map_of ks\<rparr>)"

definition ReceiptKeys_Check :: "ReceiptKeys option \<Rightarrow> go_error option" where
  "ReceiptKeys_Check ring =
     (case ring of
        None \<Rightarrow> Some (Wrapped [] [Sentinel sqs_ErrInvalidArgument] '': receipt ring has no usable signing key'')
      | Some r \<Rightarrow>
          (case rk_keys r (rk_signing r) of
             None \<Rightarrow> Some (Wrapped [] [Sentinel sqs_ErrInvalidArgument] '': receipt ring has no usable signing key'')
           | Some k \<Rightarrow>
               if length k < MinReceiptKeyLen
               then Some (Wrapped [] [Sentinel sqs_ErrInvalidArgument] '': receipt ring has no usable signing key'')
               else None))"

definition receiptMAC :: "string \<Rightarrow> string \<Rightarrow> string" where
  "receiptMAC key body = hmac_sha256 key (take 1 body @ drop 5 body)"

text \<open>The bytes of a handle before its code is appended.\<close>

definition receipt_body :: "nat \<Rightarrow> Receipt \<Rightarrow> string" where
  "receipt_body signing rc =
     [char_of ReceiptVersion] @ be_bytes 4 signing @ [char_of (length (rc_Queue rc))] @ rc_Queue rc @
     be_bytes 8 (rc_Position rc) @ be_bytes 8 (rc_Generation rc)"

definition Receipt_Encode :: "ReceiptKeys option \<Rightarrow> Receipt \<Rightarrow> string result" where
  "Receipt_Encode ring rc =
     (case ReceiptKeys_Check ring of
        Some err \<Rightarrow> Inl err
      | None \<Rightarrow>
          (case Namespace_Validate \<lparr>MessageShard = 0, StateShard = 0, ns_Queue = rc_Queue rc\<rparr> of
             Some err \<Rightarrow> Inl err
           | None \<Rightarrow>
               if rc_Position rc = 0 \<or> rc_Generation rc = 0 then
                 Inl (Wrapped [] [Sentinel sqs_ErrInvalidArgument] '': receipt needs a position and a generation'')
               else if 255 < length (rc_Queue rc) then
                 Inl (Wrapped [] [Sentinel sqs_ErrInvalidArgument] '': queue ID too long for a receipt'')
               else
                 (let r = the ring; body = receipt_body (rk_signing r) rc
                  in Inr (b64_encode (body @ receiptMAC (the (rk_keys r (rk_signing r))) body)))))"

definition Receipt_Decode :: "ReceiptKeys \<Rightarrow> string \<Rightarrow> string \<Rightarrow> Receipt result" where
  "Receipt_Decode r handle queue =
     (if MaxReceiptHandleLen < length handle then Inl (Sentinel ErrReceiptInvalid)
      else
        (case b64_decode handle of
           None \<Rightarrow> Inl (Sentinel ErrReceiptInvalid)
         | Some b \<Rightarrow>
             if length b < receiptFixedLen + 1 + receiptMACLen \<or> hd b \<noteq> char_of ReceiptVersion
             then Inl (Sentinel ErrReceiptInvalid)
             else
               (let qlen = of_char (b ! 5) in
                (case rk_keys r (be_val (take 4 (drop 1 b))) of
                   None \<Rightarrow> Inl (Sentinel ErrReceiptInvalid)
                 | Some key \<Rightarrow>
                     if length b \<noteq> receiptFixedLen + qlen + receiptMACLen then Inl (Sentinel ErrReceiptInvalid)
                     else
                       (let body = take (length b - receiptMACLen) b; mac = drop (length b - receiptMACLen) b in
                        if mac \<noteq> receiptMAC key body then Inl (Sentinel ErrReceiptInvalid)
                        else
                          (let rc = \<lparr>rc_Queue = take qlen (drop 6 b),
                                     rc_Position = be_val (take 8 (drop (6 + qlen) b)),
                                     rc_Generation = be_val (take 8 (drop (14 + qlen) b))\<rparr>
                           in if rc_Queue rc \<noteq> queue \<or> rc_Position rc = 0 \<or> rc_Generation rc = 0
                              then Inl (Sentinel ErrReceiptInvalid) else Inr rc))))))"

section \<open>The layout of a handle\<close>

definition receipt_handle :: "nat \<Rightarrow> string \<Rightarrow> Receipt \<Rightarrow> string" where
  "receipt_handle keyid key rc = b64_encode (receipt_body keyid rc @ receiptMAC key (receipt_body keyid rc))"

text \<open>Receipts a handle can carry: 64-bit numbers that are not zero, and a queue of 1 to 255 bytes.\<close>

definition receipt_ok :: "Receipt \<Rightarrow> bool" where
  "receipt_ok rc \<longleftrightarrow>
     within 1 255 (length (rc_Queue rc)) \<and> within 1 (2 ^ 64 - 1) (rc_Position rc) \<and>
     within 1 (2 ^ 64 - 1) (rc_Generation rc)"

lemma length_receipt_body: "length (receipt_body k rc) = receiptFixedLen + length (rc_Queue rc)"
  by (simp add: receipt_body_def receiptFixedLen_def)

lemma length_receiptMAC [simp]: "length (receiptMAC key s) = receiptMACLen"
  by (simp add: receiptMAC_def receiptMACLen_def)

lemma of_char_byte: "n < 256 \<Longrightarrow> (of_char (char_of n :: char) :: nat) = n"
  by (simp add: of_char_of)

lemma receipt_body_parts:
  assumes "length (rc_Queue rc) < 256"
  shows "hd (receipt_body k rc @ m) = char_of ReceiptVersion"
    and "take 4 (drop 1 (receipt_body k rc @ m)) = be_bytes 4 k"
    and "of_char ((receipt_body k rc @ m) ! 5) = length (rc_Queue rc)"
    and "take (length (rc_Queue rc)) (drop 6 (receipt_body k rc @ m)) = rc_Queue rc"
  using assms by (simp_all add: receipt_body_def nth_append of_char_byte)

lemma receipt_body_numbers:
  "take 8 (drop (6 + length (rc_Queue rc)) (receipt_body k rc @ m)) = be_bytes 8 (rc_Position rc)"
  "take 8 (drop (14 + length (rc_Queue rc)) (receipt_body k rc @ m)) = be_bytes 8 (rc_Generation rc)"
proof -
  let ?pre = "[char_of ReceiptVersion] @ be_bytes 4 k @ [char_of (length (rc_Queue rc))] @ rc_Queue rc"
  let ?p = "be_bytes 8 (rc_Position rc)" and ?g = "be_bytes 8 (rc_Generation rc)"
  have "take 8 (drop (length ?pre) (?pre @ ?p @ ?g @ m)) = ?p"
    and "take 8 (drop (length (?pre @ ?p)) ((?pre @ ?p) @ ?g @ m)) = ?g"
    by (simp_all only: append_eq_conv_conj drop_append diff_self_eq_0 drop_all order_refl append_Nil drop_0) simp_all
  then show "take 8 (drop (6 + length (rc_Queue rc)) (receipt_body k rc @ m)) = ?p"
    and "take 8 (drop (14 + length (rc_Queue rc)) (receipt_body k rc @ m)) = ?g"
    by (simp_all add: receipt_body_def)
qed

lemma be_val_word: "n < 256 ^ k \<Longrightarrow> be_val (be_bytes k n) = n"
  by (simp add: be_val_bytes)

lemma bytes_cut: "n + k \<le> length b \<Longrightarrow> be_bytes k (be_val (take k (drop n b))) = take k (drop n b)"
  using be_bytes_val [of "take k (drop n b)"] by simp

lemma cut_drop: "drop n b = take k (drop n b) @ drop (n + k) b"
  by (metis add.commute append_take_drop_id drop_drop)

lemma take_one_drop: "n < length b \<Longrightarrow> take 1 (drop n b) = [b ! n]"
  by (simp add: Cons_nth_drop_Suc [symmetric])

text \<open>Bytes of the right length whose parts are read back are the layout of what is read.\<close>

lemma receipt_body_of:
  assumes "length b = receiptFixedLen + q" and "hd b = char_of ReceiptVersion" and "of_char (b ! 5) = q"
  shows "receipt_body (be_val (take 4 (drop 1 b)))
     \<lparr>rc_Queue = take q (drop 6 b), rc_Position = be_val (take 8 (drop (6 + q) b)),
      rc_Generation = be_val (take 8 (drop (14 + q) b))\<rparr> = b"
proof -
  have l: "length b = 22 + q" using assms(1) by (simp add: receiptFixedLen_def)
  have "b = take 1 b @ take 4 (drop 1 b) @ take 1 (drop 5 b) @ take q (drop 6 b) @ take 8 (drop (6 + q) b) @
      take 8 (drop (14 + q) b)"
    using cut_drop [of 0 b 1] cut_drop [of 1 b 4] cut_drop [of 5 b 1] cut_drop [of 6 b q] cut_drop [of "6 + q" b 8] l
    by (simp add: add.assoc [symmetric])
  moreover have "take 1 b = [char_of ReceiptVersion]" using assms(2) l by (cases b) auto
  moreover have "take 1 (drop 5 b) = [char_of q]"
  proof -
    have "b ! 5 = char_of q" using assms(3) by auto
    then show ?thesis using take_one_drop [of 5 b] l by simp
  qed
  ultimately show ?thesis
    using l bytes_cut [of 1 4 b] bytes_cut [of "6 + q" 8 b] bytes_cut [of "14 + q" 8 b]
    by (simp add: receipt_body_def)
qed

lemma Decode_bytes:
  assumes "length b = receiptFixedLen + q + receiptMACLen" and "hd b = char_of ReceiptVersion" and "of_char (b ! 5) = q"
  shows "receipt_body (be_val (take 4 (drop 1 b)))
     \<lparr>rc_Queue = take q (drop 6 b), rc_Position = be_val (take 8 (drop (6 + q) b)),
      rc_Generation = be_val (take 8 (drop (14 + q) b))\<rparr> = take (length b - receiptMACLen) b"
proof -
  let ?t = "take (length b - receiptMACLen) b"
  have l: "length b - receiptMACLen = 22 + q" using assms(1) by (simp add: receiptFixedLen_def)
  then have "length ?t = receiptFixedLen + q" using assms(1) by (simp add: receiptFixedLen_def)
  moreover have "hd ?t = char_of ReceiptVersion" using assms(2) l by simp
  moreover have "of_char (?t ! 5) = q" using assms(3) l by simp
  moreover have "take k (drop n ?t) = take k (drop n b)" if "n + k \<le> 22 + q" for n k
    using that by (simp add: l take_drop min_def)
  ultimately show ?thesis using receipt_body_of [of ?t q] by simp
qed

lemma take_word: "be_val (take 8 xs) < 2 ^ 64" "be_val (take 4 xs) < 2 ^ 32"
proof -
  have p: "(256 :: nat) ^ length (take k xs) \<le> 256 ^ k" for k by (rule power_increasing) simp_all
  show "be_val (take 8 xs) < 2 ^ 64" "be_val (take 4 xs) < 2 ^ 32"
    using less_le_trans [OF be_val_bound [of "take 8 xs"] p [of 8]]
      less_le_trans [OF be_val_bound [of "take 4 xs"] p [of 4]] by simp_all
qed

text \<open>The handles a ring accepts for a queue are, apart from newlines, those one of its keys signed for
  that queue.\<close>

lemma Decode_accepts:
  assumes "Receipt_Decode r h q = Inr rc"
  shows "\<exists>keyid key. keyid < 2 ^ 32 \<and> rk_keys r keyid = Some key \<and> filter not_newline h = receipt_handle keyid key rc"
    and "rc_Queue rc = q" and "receipt_ok rc" and "length h \<le> MaxReceiptHandleLen"
proof -
  from assms obtain b where b: "b64_decode h = Some b" and len: "length h \<le> MaxReceiptHandleLen"
    and long: "receiptFixedLen + 1 + receiptMACLen \<le> length b" and v: "hd b = char_of ReceiptVersion"
    by (auto simp: Receipt_Decode_def split: if_splits option.splits)
  let ?q = "of_char (b ! 5) :: nat" and ?id = "be_val (take 4 (drop 1 b))"
  let ?rc = "\<lparr>rc_Queue = take ?q (drop 6 b), rc_Position = be_val (take 8 (drop (6 + ?q) b)),
      rc_Generation = be_val (take 8 (drop (14 + ?q) b))\<rparr>"
  from assms b long v obtain key where k: "rk_keys r ?id = Some key"
    and l: "length b = receiptFixedLen + ?q + receiptMACLen"
    and mac: "drop (length b - receiptMACLen) b = receiptMAC key (take (length b - receiptMACLen) b)"
    and rc: "rc = ?rc" and ok: "rc_Queue ?rc = q" "rc_Position ?rc \<noteq> 0" "rc_Generation ?rc \<noteq> 0"
    by (auto simp: Receipt_Decode_def Let_def split: if_splits option.splits)
  have body: "receipt_body ?id rc = take (length b - receiptMACLen) b"
    unfolding rc by (rule Decode_bytes [OF l v refl])
  then have "receipt_body ?id rc @ receiptMAC key (receipt_body ?id rc) = b"
    using mac by (metis append_take_drop_id)
  then have "filter not_newline h = receipt_handle ?id key rc"
    using b by (simp add: b64_decode_spelling receipt_handle_def)
  with k take_word(2) show "\<exists>keyid key. keyid < 2 ^ 32 \<and> rk_keys r keyid = Some key \<and>
      filter not_newline h = receipt_handle keyid key rc" by blast
  show "rc_Queue rc = q" using rc ok(1) by simp
  have "length (rc_Queue rc) = ?q" using rc l by (simp add: receiptFixedLen_def)
  moreover have "1 \<le> ?q" using long l by simp
  moreover have "?q \<le> 255" using of_char_less [of "b ! 5"] by linarith
  ultimately show "receipt_ok rc"
    using rc ok(2,3) take_word(1) [of "drop (6 + ?q) b"] take_word(1) [of "drop (14 + ?q) b"]
    by (simp add: receipt_ok_def within_def)
  show "length h \<le> MaxReceiptHandleLen" by (rule len)
qed

lemma Decode_handle:
  assumes "receipt_ok rc" and "keyid < 2 ^ 32" and "rk_keys r keyid = Some key"
    and "filter not_newline h = receipt_handle keyid key rc" and "length h \<le> MaxReceiptHandleLen"
  shows "Receipt_Decode r h (rc_Queue rc) = Inr rc"
proof -
  let ?body = "receipt_body keyid rc" and ?m = "receiptMAC key (receipt_body keyid rc)"
  from assms(4) have b: "b64_decode h = Some (?body @ ?m)" by (simp add: b64_decode_spelling receipt_handle_def)
  from assms(1) have q: "length (rc_Queue rc) < 256" "rc_Queue rc \<noteq> []" by (auto simp: receipt_ok_def within_def)
  have n: "be_val (be_bytes 4 keyid) = keyid" "be_val (be_bytes 8 (rc_Position rc)) = rc_Position rc"
    "be_val (be_bytes 8 (rc_Generation rc)) = rc_Generation rc"
    using assms(1,2) by (simp_all add: be_val_word receipt_ok_def within_def)
  define b where "b = ?body @ ?m"
  have l: "length b = receiptFixedLen + length (rc_Queue rc) + receiptMACLen"
    by (simp add: b_def length_receipt_body)
  then have t: "length b - receiptMACLen = length ?body" by (simp add: length_receipt_body)
  have "hd b = char_of ReceiptVersion" "be_val (take 4 (drop 1 b)) = keyid" "of_char (b ! 5) = length (rc_Queue rc)"
    "take (length (rc_Queue rc)) (drop 6 b) = rc_Queue rc"
    "be_val (take 8 (drop (6 + length (rc_Queue rc)) b)) = rc_Position rc"
    "be_val (take 8 (drop (14 + length (rc_Queue rc)) b)) = rc_Generation rc"
    by (simp_all only: b_def receipt_body_parts [OF q(1)] receipt_body_numbers n)
  moreover have "take (length b - receiptMACLen) b = ?body" "drop (length b - receiptMACLen) b = ?m"
    unfolding t by (simp_all add: b_def)
  ultimately show ?thesis
    using assms(1,3,5) q l b
    by (simp only: Receipt_Decode_def b_def [symmetric] Let_def option.case) (simp add: receipt_ok_def within_def)
qed

lemma length_b64_encode: "length (b64_encode s) \<le> 2 * length s"
  unfolding b64_encode_def length_map by (induction s rule: b64_digits.induct) (simp_all add: Let_def)

lemma Encode_handle:
  assumes "Receipt_Encode (Some r) rc = Inr h"
  shows "\<exists>key. rk_keys r (rk_signing r) = Some key \<and> h = receipt_handle (rk_signing r) key rc"
    and "length h \<le> MaxReceiptHandleLen" and "filter not_newline h = h"
    and "rc_Position rc < 2 ^ 64 \<Longrightarrow> rc_Generation rc < 2 ^ 64 \<Longrightarrow> receipt_ok rc"
proof -
  from assms obtain key where k: "rk_keys r (rk_signing r) = Some key" "h = receipt_handle (rk_signing r) key rc"
    and v: "Namespace_Validate \<lparr>MessageShard = 0, StateShard = 0, ns_Queue = rc_Queue rc\<rparr> = None"
    and z: "rc_Position rc \<noteq> 0" "rc_Generation rc \<noteq> 0"
    by (auto simp: Receipt_Encode_def ReceiptKeys_Check_def receipt_handle_def Let_def split: if_splits option.splits)
  from v have q: "rc_Queue rc \<noteq> []" "length (rc_Queue rc) \<le> 64" by (simp_all add: valid_namespace MaxQueueIDLen_def)
  then have q': "1 \<le> length (rc_Queue rc)" by (cases "rc_Queue rc") simp_all
  show "\<exists>key. rk_keys r (rk_signing r) = Some key \<and> h = receipt_handle (rk_signing r) key rc" using k by blast
  have "length h \<le> 2 * (receiptFixedLen + length (rc_Queue rc) + receiptMACLen)"
    using length_b64_encode [of "receipt_body (rk_signing r) rc @ receiptMAC key (receipt_body (rk_signing r) rc)"] k(2)
    by (simp add: receipt_handle_def length_receipt_body)
  with q(2) show "length h \<le> MaxReceiptHandleLen" by (simp add: receipt_sizes)
  show "filter not_newline h = h" using k(2) by (simp add: receipt_handle_def b64_encode_clean)
  show "rc_Position rc < 2 ^ 64 \<Longrightarrow> rc_Generation rc < 2 ^ 64 \<Longrightarrow> receipt_ok rc"
    using q q' z by (simp add: receipt_ok_def within_def)
qed

text \<open>A handle is accepted by every ring that still holds the key that signed it.\<close>

lemma Decode_Encode:
  assumes "Receipt_Encode (Some r) rc = Inr h" and "rk_keys r' (rk_signing r) = rk_keys r (rk_signing r)"
    and "rk_signing r < 2 ^ 32" and "rc_Position rc < 2 ^ 64" and "rc_Generation rc < 2 ^ 64"
  shows "Receipt_Decode r' h (rc_Queue rc) = Inr rc"
proof -
  from Encode_handle(1) [OF assms(1)] obtain key
    where "rk_keys r (rk_signing r) = Some key" "h = receipt_handle (rk_signing r) key rc" by blast
  with Encode_handle(2-4) [OF assms(1)] assms show ?thesis
    by (intro Decode_handle [of rc "rk_signing r" r' key]) simp_all
qed


end
