(* ===== verification/SqsClaim.thy ===== *)
theory SqsClaim
  imports SqsSend SqsReceipt
begin

text \<open>
  The life of a stored message: the receive claim (\<open>domains/sqs/message/claim.go\<close>), deletion
  (\<open>delete.go\<close>), the change of visibility (\<open>visibility.go\<close>) and the sweeper (\<open>sweep.go\<close>). A state
  record is a JSON object, here a map from field names to raw values. Its writers write the exact
  field names, and the match of other spellings that \<open>encoding/json\<close> allows is left out.
\<close>

section \<open>Errors and constants\<close>

definition StateVersion :: int where "StateVersion = 1"
definition MaxVisibilitySeconds :: int where "MaxVisibilitySeconds = 43200"

text \<open>Durations are in nanoseconds, \<open>Milliseconds()\<close> truncates.\<close>

abbreviation Second :: int where "Second \<equiv> 1000000000"

definition MaxVisibilityTimeout :: int where "MaxVisibilityTimeout = 43200 * Second"

definition Milliseconds :: "int \<Rightarrow> int" where
  "Milliseconds d = (if d < 0 then - (- d div 1000000) else d div 1000000)"

definition StatusInflight :: string where "StatusInflight = ''inflight''"
definition StatusMoving :: string where "StatusMoving = ''moving''"
definition StatusDeleted :: string where "StatusDeleted = ''deleted''"
definition StatusExpired :: string where "StatusExpired = ''expired''"
definition StatusMoved :: string where "StatusMoved = ''moved''"

lemmas statuses = StatusInflight_def StatusMoving_def StatusDeleted_def StatusExpired_def StatusMoved_def

definition ErrNotVisible :: string where "ErrNotVisible = ''message: not visible''"
definition ErrGone :: string where "ErrGone = ''message: gone''"
definition ErrClaimLost :: string where "ErrClaimLost = ''message: claim lost to another receiver''"
definition ErrLeaseExpired :: string where "ErrLeaseExpired = ''message: claim acknowledged after its deadline''"
definition ErrNotOurs :: string where "ErrNotOurs = ''message: record is not this release's to act on''"
definition ErrNotInflight :: string where "ErrNotInflight = ''message: not in flight''"
definition ErrVisibilityCap :: string where "ErrVisibilityCap = ''message: visibility beyond the 12-hour limit''"

section \<open>Metadata\<close>

record headers =
  h_v :: int
  h_id :: string
  h_enq :: int
  h_vis :: int
  h_rc :: nat
  h_md5a :: string

definition md5Hex :: "string \<Rightarrow> bool" where
  "md5Hex s \<longleftrightarrow> length s = 32 \<and> list_all is_hex s"

definition meta_get :: "meta \<Rightarrow> string \<Rightarrow> string" where
  "meta_get m k = (case m k of Some s \<Rightarrow> s | None \<Rightarrow> [])"

definition readHeaders :: "meta \<Rightarrow> headers result" where
  "readHeaders m =
     (case go_atoi (meta_get m MetaV) of
        None \<Rightarrow> Inl (unavailable ''message schema version'')
      | Some v \<Rightarrow>
          if v < 1 then Inl (unavailable ''message schema version'')
          else if int MetaVersion < v then Inl (Sentinel ErrNotOurs)
          else if meta_get m MetaID = [] then Inl (unavailable ''message has no ID'')
          else
            (case go_atoi (meta_get m MetaEnq) of
               None \<Rightarrow> Inl (unavailable ''message enqueue time'')
             | Some enq \<Rightarrow>
                 if enq \<le> 0 then Inl (unavailable ''message enqueue time'')
                 else
                   (case go_atoi (meta_get m MetaVis) of
                      None \<Rightarrow> Inl (unavailable ''message delay-until'')
                    | Some vis \<Rightarrow>
                        if vis < enq then Inl (unavailable ''message delay-until'')
                        else if meta_get m MetaSender = [] then Inl (unavailable ''message has no sender'')
                        else if \<not> md5Hex (meta_get m MetaMD5) then Inl (unavailable ''message body MD5'')
                        else if int MetaVersionPlain < v \<and> \<not> md5Hex (meta_get m MetaMD5A) then
                          Inl (unavailable ''message attributes MD5'')
                        else if v = int MetaVersionPlain \<and> m MetaMD5A \<noteq> None then
                          Inl (unavailable (''schema '' @ go_format_int v @ '' message carries an attributes MD5''))
                        else
                          (let h = \<lparr>h_v = v, h_id = meta_get m MetaID, h_enq = enq, h_vis = vis, h_rc = 0,
                                    h_md5a = meta_get m MetaMD5A\<rparr> in
                           case m MetaRc of
                             None \<Rightarrow> Inr h
                           | Some raw \<Rightarrow>
                               (case go_parse_uint raw of
                                  None \<Rightarrow> Inl (unavailable ''carried receive count'')
                                | Some rc \<Rightarrow> Inr (h\<lparr>h_rc := rc\<rparr>))))))"

section \<open>State records\<close>

text \<open>A raw JSON value: an integer, a string, null, or anything else by its text.\<close>

datatype json_raw = RInt int | RStr string | RNull | ROther string

text \<open>A stored value, \<open>None\<close> if it is no JSON object.\<close>

type_synonym doc = "(string \<rightharpoonup> json_raw) option"

record stateRecord =
  sr_v :: int
  sr_s :: string
  sr_c :: nat
  sr_g :: nat
  sr_d :: int
  sr_r :: int
  sr_f :: int
  sr_raw :: "string \<rightharpoonup> json_raw"

definition zero_state :: stateRecord where
  "zero_state = \<lparr>sr_v = 0, sr_s = [], sr_c = 0, sr_g = 0, sr_d = 0, sr_r = 0, sr_f = 0, sr_raw = Map.empty\<rparr>"

definition stateKnown :: "string \<Rightarrow> bool" where
  "stateKnown k \<longleftrightarrow> k \<in> {''v'', ''s'', ''c'', ''g'', ''d'', ''r'', ''f''}"

text \<open>Unmarshalling a field: \<open>None\<close> is a type error; an absent or null field leaves the zero value, or
  nil where the field is a pointer.\<close>

definition int_field :: "json_raw option \<Rightarrow> int option option" where
  "int_field x =
     (case x of
        None \<Rightarrow> Some None
      | Some RNull \<Rightarrow> Some None
      | Some (RInt i) \<Rightarrow> if - (2 ^ 63) \<le> i \<and> i < 2 ^ 63 then Some (Some i) else None
      | _ \<Rightarrow> None)"

definition uint_field :: "json_raw option \<Rightarrow> nat option" where
  "uint_field x =
     (case x of
        None \<Rightarrow> Some 0
      | Some RNull \<Rightarrow> Some 0
      | Some (RInt i) \<Rightarrow> if 0 \<le> i \<and> i < 2 ^ 64 then Some (nat i) else None
      | _ \<Rightarrow> None)"

definition string_field :: "json_raw option \<Rightarrow> string option option" where
  "string_field x =
     (case x of None \<Rightarrow> Some None | Some RNull \<Rightarrow> Some None | Some (RStr s) \<Rightarrow> Some (Some s) | _ \<Rightarrow> None)"

definition or_zero :: "int option \<Rightarrow> int" where
  "or_zero x = (case x of Some i \<Rightarrow> i | None \<Rightarrow> 0)"

definition inflight_complete :: "stateRecord \<Rightarrow> bool" where
  "inflight_complete rec \<longleftrightarrow> sr_c rec \<noteq> 0 \<and> sr_g rec \<noteq> 0 \<and> 0 < sr_d rec \<and> 0 < sr_r rec \<and> 0 < sr_f rec \<and>
     sr_f rec \<le> sr_r rec"

definition decodeState :: "doc \<Rightarrow> stateRecord result" where
  "decodeState b =
     (case b of
        None \<Rightarrow> Inl (unavailable ''state record is not a JSON object'')
      | Some raw \<Rightarrow>
          (case (int_field (raw ''v''), string_field (raw ''s''), uint_field (raw ''c''), uint_field (raw ''g''),
                 int_field (raw ''d''), int_field (raw ''r''), int_field (raw ''f'')) of
             (Some v, Some s, Some c, Some g, Some d, Some r, Some f) \<Rightarrow>
               if v = None \<or> the v < 1 then Inl (unavailable ''state record has no valid version'')
               else if StateVersion < the v then Inl (Sentinel ErrNotOurs)
               else if s = None then Inl (unavailable ''state record has no state'')
               else
                 (let rec = \<lparr>sr_v = the v, sr_s = the s, sr_c = c, sr_g = g, sr_d = or_zero d, sr_r = or_zero r,
                             sr_f = or_zero f, sr_raw = raw\<rparr> in
                  if sr_s rec = StatusInflight then
                    (if inflight_complete rec then Inr rec
                     else Inl (unavailable ''in-flight state record is incomplete''))
                  else if sr_s rec \<in> {StatusMoving, StatusDeleted, StatusExpired, StatusMoved} then Inr rec
                  else Inl (Sentinel ErrNotOurs))
           | _ \<Rightarrow> Inl (unavailable ''state record field'')))"

definition encodeState :: "stateRecord \<Rightarrow> doc" where
  "encodeState rec =
     Some (\<lambda>k. if k = ''v'' then Some (RInt (sr_v rec)) else if k = ''s'' then Some (RStr (sr_s rec))
               else if k = ''c'' then Some (RInt (int (sr_c rec))) else if k = ''g'' then Some (RInt (int (sr_g rec)))
               else if k = ''d'' then Some (RInt (sr_d rec)) else if k = ''r'' then Some (RInt (sr_r rec))
               else if k = ''f'' then Some (RInt (sr_f rec)) else sr_raw rec k)"

section \<open>The receive claim\<close>

record ClaimInput =
  ci_Namespace :: Namespace
  ci_Position :: nat
  ci_Visibility :: int
  ci_Retention :: int

record MessageClaim =
  cl_Message :: Message
  cl_Attributes :: Attributes
  cl_MessageID :: string
  cl_ReceiveCount :: nat
  cl_Generation :: nat
  cl_Deadline :: int
  cl_ReceivedAt :: int
  cl_FirstReceive :: int
  cl_Revision :: nat

definition MaxUint64 :: nat where "MaxUint64 = 2 ^ 64 - 1"

definition check_claim :: "ClaimInput \<Rightarrow> go_error option" where
  "check_claim i =
     (case Namespace_Validate (ci_Namespace i) of
        Some err \<Rightarrow> Some err
      | None \<Rightarrow>
          if ci_Position i = 0 then Some (Wrapped [] [Sentinel sqs_ErrInvalidArgument] '': position 0'')
          else if ci_Visibility i < 0 \<or> MaxVisibilityTimeout < ci_Visibility i \<or> ci_Visibility i mod Second \<noteq> 0 then
            Some (invalid_param ''visibility timeout must be whole seconds from 0 to 43200'')
          else if ci_Retention i \<le> 0 then Some (unavailable ''queue retention is not positive'')
          else None)"

text \<open>The message's body and attributes, split from the stored payload.\<close>

definition split_payload :: "headers \<Rightarrow> Message \<Rightarrow> (Message \<times> Attributes) result" where
  "split_payload h msg =
     (if int MetaVersionPlain < h_v h then
        (case decodePayload (m_Body msg) (h_md5a h) of
           Inl err \<Rightarrow> Inl (wrap2 (Sentinel sqs_ErrUnavailable) err)
         | Inr (body, attrs) \<Rightarrow> Inr (msg\<lparr>m_Body := body\<rparr>, attrs))
      else Inr (msg, []))"

text \<open>What a claim may take, given the headers, the state read and the time: the record to advance and
  the revision it was read at.\<close>

definition claim_state :: "headers \<Rightarrow> (doc \<times> nat) result \<Rightarrow> int \<Rightarrow> (stateRecord \<times> nat) result" where
  "claim_state h cur t =
     (case cur of
        Inl err \<Rightarrow>
          if errors_Is err sqs_ErrNotFound then
            (if t < h_vis h then Inl (Sentinel ErrNotVisible) else Inr (zero_state\<lparr>sr_c := h_rc h\<rparr>, 0))
          else Inl (unavailable2 ''read state: '' err)
      | Inr (val, r) \<Rightarrow>
          (case decodeState val of
             Inl err \<Rightarrow> Inl err
           | Inr rec \<Rightarrow>
               if (sr_s rec = StatusInflight \<and> t < sr_d rec) \<or> sr_s rec = StatusMoving then
                 Inl (Sentinel ErrNotVisible)
               else if sr_s rec \<noteq> StatusInflight then Inl (Sentinel ErrGone)
               else Inr (rec, r)))"

definition advance :: "stateRecord \<Rightarrow> int \<Rightarrow> int \<Rightarrow> stateRecord" where
  "advance rec t vis =
     rec\<lparr>sr_v := StateVersion, sr_s := StatusInflight, sr_c := sr_c rec + 1, sr_g := sr_g rec + 1,
         sr_d := int64_of (t + Milliseconds vis), sr_r := t, sr_f := (if sr_f rec = 0 then t else sr_f rec)\<rparr>"

definition recheckBody :: "('w, doc) msg_store \<Rightarrow> ClaimInput \<Rightarrow> nat \<Rightarrow> 'w \<Rightarrow> go_error option \<times> 'w" where
  "recheckBody st i r w =
     (case st_Get st w (ci_Namespace i) (ci_Position i) of
        (Inr m, w1) \<Rightarrow> (None, w1)
      | (Inl err, w1) \<Rightarrow>
          if errors_Is err sqs_ErrNotFound then
            (case st_DeleteState st w1 (ci_Namespace i) (ci_Position i) r of
               (Inl derr, w2) \<Rightarrow>
                 (Some (Wrapped [] [Sentinel ErrGone, Wrapped ''withdraw claim on removed message: '' [derr] []] []), w2)
             | (Inr u, w2) \<Rightarrow> (Some (Sentinel ErrGone), w2))
          else (Some (unavailable2 ''confirm message after claim: '' err), w1))"

definition claim_write ::
  "('w, doc) msg_store \<Rightarrow> ('w \<Rightarrow> int) \<Rightarrow> ClaimInput \<Rightarrow> headers \<Rightarrow> Message \<Rightarrow> Attributes \<Rightarrow> int \<Rightarrow> stateRecord \<Rightarrow> nat \<Rightarrow>
   'w \<Rightarrow> MessageClaim result \<times> 'w" where
  "claim_write st now i h msg attrs t rec0 revision w =
     (if sr_c rec0 = MaxUint64 \<or> sr_g rec0 = MaxUint64 then
        (Inl (unavailable ''receive count or generation exhausted''), w)
      else
        (let rec = advance rec0 t (ci_Visibility i) in
         case st_PutState st w (ci_Namespace i) (ci_Position i) (encodeState rec) revision of
           (Inl err, w1) \<Rightarrow>
             (if errors_Is err sqs_ErrRevisionMismatch then Inl (Sentinel ErrClaimLost)
              else Inl (unavailable2 ''claim outcome unknown: '' err), w1)
         | (Inr r, w1) \<Rightarrow>
             (case recheckBody st i r w1 of
                (Some err, w2) \<Rightarrow> (Inl err, w2)
              | (None, w2) \<Rightarrow>
                  if 0 < ci_Visibility i \<and> sr_d rec \<le> now w2 then (Inl (Sentinel ErrLeaseExpired), w2)
                  else
                    (Inr \<lparr>cl_Message = msg, cl_Attributes = attrs, cl_MessageID = h_id h, cl_ReceiveCount = sr_c rec,
                          cl_Generation = sr_g rec, cl_Deadline = sr_d rec, cl_ReceivedAt = sr_r rec,
                          cl_FirstReceive = sr_f rec, cl_Revision = r\<rparr>, w2))))"

definition Claimer_Claim ::
  "('w, doc) msg_store option \<Rightarrow> ('w \<Rightarrow> int) \<Rightarrow> ClaimInput \<Rightarrow> 'w \<Rightarrow> MessageClaim result \<times> 'w" where
  "Claimer_Claim store now i w =
     (case store of
        None \<Rightarrow> (Inl (unavailable ''claimer is not configured''), w)
      | Some st \<Rightarrow>
          (case check_claim i of
             Some err \<Rightarrow> (Inl err, w)
           | None \<Rightarrow>
               (case st_Get st w (ci_Namespace i) (ci_Position i) of
                  (Inl err, w1) \<Rightarrow>
                    (if errors_Is err sqs_ErrNotFound then Inl (Sentinel ErrGone)
                     else Inl (unavailable2 ''read message: '' err), w1)
                | (Inr msg0, w1) \<Rightarrow>
                    (case readHeaders (m_Meta msg0) of
                       Inl err \<Rightarrow> (Inl err, w1)
                     | Inr h \<Rightarrow>
                         (case split_payload h msg0 of
                            Inl err \<Rightarrow> (Inl err, w1)
                          | Inr (msg, attrs) \<Rightarrow>
                              (case st_GetState st w1 (ci_Namespace i) (ci_Position i) of (cur, w2) \<Rightarrow>
                                 (let t = now w2 in
                                  if int64_of (h_enq h + Milliseconds (ci_Retention i)) \<le> t then
                                    (Inl (Sentinel ErrGone), w2)
                                  else
                                    (case claim_state h cur t of
                                       Inl err \<Rightarrow> (Inl err, w2)
                                     | Inr (rec, r) \<Rightarrow> claim_write st now i h msg attrs t rec r w2))))))))"

section \<open>Deletion\<close>

record ReceiveTarget =
  rt_Namespace :: Namespace
  rt_Account :: string
  rt_VisibilityTimeout :: int
  rt_MessageRetentionPeriod :: int
  rt_ReceiveWaitTime :: int

type_synonym 'w receive_queues = "'w \<Rightarrow> string \<Rightarrow> string \<Rightarrow> string \<Rightarrow> ReceiveTarget result \<times> 'w"

text \<open>What the operations of a queue's consumers have in common: the store, the queue owner, the key ring
  and the clock.\<close>

record 'w consumer =
  co_Store :: "('w, doc) msg_store option"
  co_Queues :: "'w receive_queues option"
  co_Keys :: "ReceiptKeys option"
  co_now :: "'w \<Rightarrow> int"

record DeleteInput =
  di_Account :: string
  di_Region :: string
  di_Queue :: string
  di_ReceiptHandle :: string

definition deleteAttempts :: nat where "deleteAttempts = 5"

definition terminal_status :: "string \<Rightarrow> bool" where
  "terminal_status s \<longleftrightarrow> s = StatusDeleted \<or> s = StatusExpired \<or> s = StatusMoved"

text \<open>The state a handle names: an outcome that needs no write (an error or success), or the record to
  tombstone and its revision.\<close>

definition Deleter_current ::
  "('w, doc) msg_store \<Rightarrow> Namespace \<Rightarrow> Receipt \<Rightarrow> 'w \<Rightarrow> (go_error option + stateRecord \<times> nat) \<times> 'w" where
  "Deleter_current st ns rc w =
     (case st_GetState st w ns (rc_Position rc) of
        (Inl err, w1) \<Rightarrow>
          (if errors_Is err sqs_ErrNotFound then Inl None else Inl (Some (unavailable2 ''read state: '' err)), w1)
      | (Inr (val, r), w1) \<Rightarrow>
          ((case decodeState val of
              Inl err \<Rightarrow> Inl (Some err)
            | Inr rec \<Rightarrow>
                if terminal_status (sr_s rec) then Inl None
                else if rc_Generation rc < sr_g rec then Inl None
                else if sr_g rec < rc_Generation rc then Inl (Some (unavailable ''state is older than the handle''))
                else if sr_s rec = StatusMoving then Inl (Some (unavailable ''message is being moved''))
                else Inr (rec, r)), w1))"

definition Deleter_settle ::
  "('w, doc) msg_store \<Rightarrow> Namespace \<Rightarrow> Receipt \<Rightarrow> go_error \<Rightarrow> 'w \<Rightarrow> go_error option \<times> 'w" where
  "Deleter_settle st ns rc cause w =
     (case Deleter_current st ns rc w of
        (Inl None, w1) \<Rightarrow> (None, w1)
      | (_, w1) \<Rightarrow> (Some (unavailable2 ''delete outcome unknown: '' cause), w1))"

fun delete_attempts ::
  "('w, doc) msg_store \<Rightarrow> Namespace \<Rightarrow> Receipt \<Rightarrow> nat \<Rightarrow> 'w \<Rightarrow> go_error option \<times> 'w" where
  "delete_attempts st ns rc 0 w = (Some (unavailable ''delete kept conflicting''), w)"
| "delete_attempts st ns rc (Suc n) w =
     (case Deleter_current st ns rc w of
        (Inl e, w1) \<Rightarrow> (e, w1)
      | (Inr (rec, r), w1) \<Rightarrow>
          (case st_PutState st w1 ns (rc_Position rc) (encodeState (rec\<lparr>sr_s := StatusDeleted\<rparr>)) r of
             (Inr r', w2) \<Rightarrow> (None, w2)
           | (Inl err, w2) \<Rightarrow>
               if errors_Is err sqs_ErrRevisionMismatch then delete_attempts st ns rc n w2
               else Deleter_settle st ns rc err w2))"

text \<open>The steps that deletion and the change of visibility share: resolve the queue and open the handle.\<close>

definition open_handle ::
  "'w receive_queues \<Rightarrow> ReceiptKeys \<Rightarrow> string \<Rightarrow> string \<Rightarrow> string \<Rightarrow> string \<Rightarrow> 'w \<Rightarrow> (Namespace \<times> Receipt) result \<times> 'w" where
  "open_handle queues ring account region queue handle w =
     (case queues w account region queue of
        (Inl err, w1) \<Rightarrow> (Inl err, w1)
      | (Inr t, w1) \<Rightarrow>
          (if rt_Account t \<noteq> account then Inl (unavailable ''resolved queue belongs to another account'')
           else
             (case Namespace_Validate (rt_Namespace t) of
                Some err \<Rightarrow> Inl (wrap2 (Sentinel sqs_ErrUnavailable) err)
              | None \<Rightarrow>
                  (case Receipt_Decode ring handle (ns_Queue (rt_Namespace t)) of
                     Inl err \<Rightarrow> Inl err
                   | Inr rc \<Rightarrow> Inr (rt_Namespace t, rc))), w1))"

definition Deleter_Delete :: "'w consumer \<Rightarrow> DeleteInput \<Rightarrow> 'w \<Rightarrow> go_error option \<times> 'w" where
  "Deleter_Delete d i w =
     (case (co_Store d, co_Queues d) of
        (Some st, Some queues) \<Rightarrow>
          (case ReceiptKeys_Check (co_Keys d) of
             Some err \<Rightarrow> (Some (wrap2 (Sentinel sqs_ErrUnavailable) err), w)
           | None \<Rightarrow>
               (case open_handle queues (the (co_Keys d)) (di_Account i) (di_Region i) (di_Queue i) (di_ReceiptHandle i) w of
                  (Inl err, w1) \<Rightarrow> (Some err, w1)
                | (Inr (ns, rc), w1) \<Rightarrow> delete_attempts st ns rc deleteAttempts w1))
      | _ \<Rightarrow> (Some (unavailable ''deleter is not configured''), w))"

section \<open>Visibility\<close>

record ChangeVisibilityInput =
  vi_Account :: string
  vi_Region :: string
  vi_Queue :: string
  vi_ReceiptHandle :: string
  vi_VisibilityTimeout :: int

definition visibilityAttempts :: nat where "visibilityAttempts = 5"

definition new_deadline :: "stateRecord \<Rightarrow> Receipt \<Rightarrow> int \<Rightarrow> int \<Rightarrow> stateRecord result" where
  "new_deadline rec rc now timeout =
     (if terminal_status (sr_s rec) then Inl (Sentinel ErrNotInflight)
      else if sr_s rec = StatusMoving then Inl (unavailable ''message is being moved'')
      else if rc_Generation rc < sr_g rec then Inl (Sentinel ErrNotInflight)
      else if sr_g rec < rc_Generation rc then Inl (unavailable ''state is older than the handle'')
      else if sr_d rec \<le> now then Inl (Sentinel ErrNotInflight)
      else
        (let d = int64_of (now + timeout * 1000) in
         if int64_of (sr_r rec + Milliseconds MaxVisibilityTimeout) < d then Inl (Sentinel ErrVisibilityCap)
         else Inr (rec\<lparr>sr_d := d\<rparr>)))"

fun visibility_attempts ::
  "('w, doc) msg_store \<Rightarrow> ('w \<Rightarrow> int) \<Rightarrow> Namespace \<Rightarrow> Receipt \<Rightarrow> int \<Rightarrow> nat \<Rightarrow> 'w \<Rightarrow> go_error option \<times> 'w" where
  "visibility_attempts st now ns rc timeout 0 w = (Some (unavailable ''visibility change kept conflicting''), w)"
| "visibility_attempts st now ns rc timeout (Suc n) w =
     (case st_GetState st w ns (rc_Position rc) of
        (Inl err, w1) \<Rightarrow>
          (if errors_Is err sqs_ErrNotFound then Some (Sentinel ErrNotInflight)
           else Some (unavailable2 ''read state: '' err), w1)
      | (Inr (val, r), w1) \<Rightarrow>
          (case decodeState val of
             Inl err \<Rightarrow> (Some err, w1)
           | Inr rec0 \<Rightarrow>
               (case new_deadline rec0 rc (now w1) timeout of
                  Inl err \<Rightarrow> (Some err, w1)
                | Inr rec \<Rightarrow>
                    (case st_PutState st w1 ns (rc_Position rc) (encodeState rec) r of
                       (Inr r', w2) \<Rightarrow> (None, w2)
                     | (Inl err, w2) \<Rightarrow>
                         if errors_Is err sqs_ErrRevisionMismatch then visibility_attempts st now ns rc timeout n w2
                         else (Some (unavailable2 ''visibility change outcome unknown: '' err), w2)))))"

definition ChangeVisibility :: "'w consumer \<Rightarrow> ChangeVisibilityInput \<Rightarrow> 'w \<Rightarrow> go_error option \<times> 'w" where
  "ChangeVisibility v i w =
     (case (co_Store v, co_Queues v) of
        (Some st, Some queues) \<Rightarrow>
          (case ReceiptKeys_Check (co_Keys v) of
             Some err \<Rightarrow> (Some (wrap2 (Sentinel sqs_ErrUnavailable) err), w)
           | None \<Rightarrow>
               if vi_VisibilityTimeout i < 0 \<or> MaxVisibilitySeconds < vi_VisibilityTimeout i then
                 (Some (invalid_param (''VisibilityTimeout must be between 0 and '' @ go_format_int MaxVisibilitySeconds)), w)
               else
                 (case open_handle queues (the (co_Keys v)) (vi_Account i) (vi_Region i) (vi_Queue i) (vi_ReceiptHandle i) w of
                    (Inl err, w1) \<Rightarrow> (Some err, w1)
                  | (Inr (ns, rc), w1) \<Rightarrow>
                      visibility_attempts st (co_now v) ns rc (vi_VisibilityTimeout i) visibilityAttempts w1))
      | _ \<Rightarrow> (Some (unavailable ''visibility changer is not configured''), w))"

section \<open>The sweeper\<close>

definition sweepOne ::
  "('w, doc) msg_store \<Rightarrow> Change \<Rightarrow> (doc \<times> nat \<Rightarrow> bool) \<Rightarrow> 'w \<Rightarrow> bool result \<times> 'w" where
  "sweepOne st c is_terminal w =
     (let at = ''sweep '' @ ns_Queue (ch_Namespace c) @ ''/'' @ go_itoa (ch_Position c) in
      case st_GetState st w (ch_Namespace c) (ch_Position c) of
        (Inl err, w1) \<Rightarrow>
          (if errors_Is err sqs_ErrNotFound then Inr False else Inl (Wrapped (at @ '': read state: '') [err] []), w1)
      | (Inr (val, r), w1) \<Rightarrow>
          if \<not> is_terminal (val, r) then (Inr False, w1)
          else
            (case st_Delete st w1 (ch_Namespace c) (ch_Position c) of
               (Inl err, w2) \<Rightarrow> (Inl (Wrapped (at @ '': delete body: '') [err] []), w2)
             | (Inr u, w2) \<Rightarrow>
                 (case st_DeleteState st w2 (ch_Namespace c) (ch_Position c) r of
                    (Inr u', w3) \<Rightarrow> (Inr True, w3)
                  | (Inl err, w3) \<Rightarrow>
                      (if errors_Is err sqs_ErrNotFound then Inr True
                       else Inl (Wrapped (at @ '': delete state: '') [err] []), w3))))"

record SweepResult =
  sw_Scanned :: nat
  sw_Swept :: nat

fun sweep_page ::
  "('w, doc) msg_store \<Rightarrow> (doc \<times> nat \<Rightarrow> bool) \<Rightarrow> Change list \<Rightarrow> SweepResult \<Rightarrow> 'w \<Rightarrow>
   (SweepResult \<times> go_error option) \<times> 'w" where
  "sweep_page st is_terminal [] res w = ((res, None), w)"
| "sweep_page st is_terminal (c # cs) res w =
     (case sweepOne st c is_terminal w of
        (Inl err, w1) \<Rightarrow> ((res\<lparr>sw_Scanned := sw_Scanned res + 1\<rparr>, Some err), w1)
      | (Inr swept, w1) \<Rightarrow>
          sweep_page st is_terminal cs
            \<lparr>sw_Scanned = sw_Scanned res + 1, sw_Swept = sw_Swept res + (if swept then 1 else 0)\<rparr> w1)"

text \<open>A pass may meet ever more pages, so it is a partial function.\<close>

partial_function (option) sweep_from ::
  "('w, doc) msg_store \<Rightarrow> nat \<Rightarrow> (doc \<times> nat \<Rightarrow> bool) \<Rightarrow> int \<Rightarrow> ScanCursor \<Rightarrow> SweepResult \<Rightarrow> 'w \<Rightarrow>
   ((SweepResult \<times> go_error option) \<times> 'w) option" where
  "sweep_from st shard is_terminal pageSize from res w =
     (case st_Scan st w shard from pageSize of
        (Inl err, w1) \<Rightarrow> Some ((res, Some (Wrapped (''sweep shard '' @ go_itoa shard @ '': '') [err] [])), w1)
      | (Inr page, w1) \<Rightarrow>
          (case sweep_page st is_terminal (sp_Changes page) res w1 of
             ((res1, Some err), w2) \<Rightarrow> Some ((res1, Some err), w2)
           | ((res1, None), w2) \<Rightarrow>
               if sp_Done page then Some ((res1, None), w2)
               else sweep_from st shard is_terminal pageSize (sp_Next page) res1 w2))"

definition Sweep ::
  "('w, doc) msg_store \<Rightarrow> nat \<Rightarrow> (doc \<times> nat \<Rightarrow> bool) \<Rightarrow> int \<Rightarrow> 'w \<Rightarrow> ((SweepResult \<times> go_error option) \<times> 'w) option" where
  "Sweep st shard is_terminal pageSize w =
     sweep_from st shard is_terminal pageSize zero_cursor \<lparr>sw_Scanned = 0, sw_Swept = 0\<rparr> w"

end
