(* ===== verification/SqsMemstore.thy ===== *)
theory SqsMemstore
  imports SqsClaim
begin

text \<open>
  A message store in memory that meets the store's contract: a list of slots, one per position handed
  out, each with its namespace, its message until it is removed, and the history of its state record.
  It is the concrete store on which the examples of the queue's theorems run.
\<close>

record slot =
  sl_ns :: Namespace
  sl_msg :: "(string \<times> meta) option"
  sl_hist :: "doc list"
  sl_live :: bool

record msg_mem =
  mm_slots :: "slot list"
  mm_time :: int

definition slot_at :: "msg_mem \<Rightarrow> Namespace \<Rightarrow> nat \<Rightarrow> slot option" where
  "slot_at w ns p =
     (if 0 < p \<and> p \<le> length (mm_slots w) \<and> sl_ns (mm_slots w ! (p - 1)) = ns then Some (mm_slots w ! (p - 1)) else None)"

definition set_slot :: "nat \<Rightarrow> slot \<Rightarrow> msg_mem \<Rightarrow> msg_mem" where
  "set_slot p s w = w\<lparr>mm_slots := (mm_slots w)[p - 1 := s]\<rparr>"

definition slot_state :: "slot \<Rightarrow> (doc \<times> nat) option" where
  "slot_state s = (if sl_live s \<and> sl_hist s \<noteq> [] then Some (last (sl_hist s), length (sl_hist s)) else None)"

definition slot_body :: "nat \<Rightarrow> slot \<Rightarrow> Message option" where
  "slot_body p s = map_option (\<lambda>(b, m). \<lparr>m_Position = p, m_Body = b, m_Meta = m\<rparr>) (sl_msg s)"

abbreviation no_slot :: "'a result" where "no_slot \<equiv> Inl (Sentinel sqs_ErrNotFound)"

definition mem_Append :: "msg_mem \<Rightarrow> Namespace \<Rightarrow> AppendInput \<Rightarrow> AppendResult result \<times> msg_mem" where
  "mem_Append w ns ai =
     (Inr \<lparr>ar_Position = length (mm_slots w) + 1, ar_Duplicate = False\<rparr>,
      w\<lparr>mm_slots := mm_slots w @ [\<lparr>sl_ns = ns, sl_msg = Some (ai_Body ai, ai_Meta ai), sl_hist = [], sl_live = False\<rparr>]\<rparr>)"

definition mem_Get :: "msg_mem \<Rightarrow> Namespace \<Rightarrow> nat \<Rightarrow> Message result \<times> msg_mem" where
  "mem_Get w ns p =
     (case Option.bind (slot_at w ns p) (slot_body p) of None \<Rightarrow> no_slot | Some m \<Rightarrow> Inr m, w)"

definition mem_Delete :: "msg_mem \<Rightarrow> Namespace \<Rightarrow> nat \<Rightarrow> unit result \<times> msg_mem" where
  "mem_Delete w ns p =
     (case slot_at w ns p of None \<Rightarrow> (Inr (), w) | Some s \<Rightarrow> (Inr (), set_slot p (s\<lparr>sl_msg := None\<rparr>) w))"

definition mem_GetState :: "msg_mem \<Rightarrow> Namespace \<Rightarrow> nat \<Rightarrow> (doc \<times> nat) result \<times> msg_mem" where
  "mem_GetState w ns p =
     (case Option.bind (slot_at w ns p) slot_state of None \<Rightarrow> no_slot | Some x \<Rightarrow> Inr x, w)"

definition mem_PutState :: "msg_mem \<Rightarrow> Namespace \<Rightarrow> nat \<Rightarrow> doc \<Rightarrow> nat \<Rightarrow> nat result \<times> msg_mem" where
  "mem_PutState w ns p v expected =
     (case slot_at w ns p of
        None \<Rightarrow> (Inl (Sentinel sqs_ErrUnavailable), w)
      | Some s \<Rightarrow>
          if expected = (case slot_state s of None \<Rightarrow> 0 | Some (_, r) \<Rightarrow> r) then
            (Inr (length (sl_hist s) + 1), set_slot p (s\<lparr>sl_hist := sl_hist s @ [v], sl_live := True\<rparr>) w)
          else (Inl (Sentinel sqs_ErrRevisionMismatch), w))"

definition mem_DeleteState :: "msg_mem \<Rightarrow> Namespace \<Rightarrow> nat \<Rightarrow> nat \<Rightarrow> unit result \<times> msg_mem" where
  "mem_DeleteState w ns p expected =
     (case slot_at w ns p of
        None \<Rightarrow> (no_slot, w)
      | Some s \<Rightarrow>
          (case slot_state s of
             None \<Rightarrow> (no_slot, w)
           | Some (v, r) \<Rightarrow>
               if r = expected then (Inr (), set_slot p (s\<lparr>sl_live := False\<rparr>) w)
               else (Inl (Sentinel sqs_ErrRevisionMismatch), w)))"

definition mem_has :: "msg_mem \<Rightarrow> nat \<Rightarrow> nat \<Rightarrow> bool" where
  "mem_has w shard p \<longleftrightarrow> sl_msg (mm_slots w ! (p - 1)) \<noteq> None \<and> MessageShard (sl_ns (mm_slots w ! (p - 1))) = shard"

definition mem_change :: "msg_mem \<Rightarrow> nat \<Rightarrow> Change" where
  "mem_change w p =
     (let s = mm_slots w ! (p - 1) in
      \<lparr>ch_Namespace = sl_ns s, ch_Position = p, ch_Meta = snd (the (sl_msg s)), ch_Cursor = p\<rparr>)"

definition mem_changes :: "msg_mem \<Rightarrow> nat \<Rightarrow> nat \<Rightarrow> nat \<Rightarrow> Change list" where
  "mem_changes w shard after bound =
     map (mem_change w) (filter (mem_has w shard) [after + 1..<min bound (length (mm_slots w)) + 1])"

definition mem_Scan :: "msg_mem \<Rightarrow> nat \<Rightarrow> ScanCursor \<Rightarrow> int \<Rightarrow> ScanPage result \<times> msg_mem" where
  "mem_Scan w shard from limit =
     (case ValidateScan from limit of
        Some err \<Rightarrow> (Inl err, w)
      | None \<Rightarrow>
          (let bound = (if from = zero_cursor then length (mm_slots w) else sc_Bound from);
               all = mem_changes w shard (sc_After from) bound;
               page = take (nat limit) all; fits = length all \<le> nat limit in
           (Inr \<lparr>sp_Changes = page,
                 sp_Next = \<lparr>sc_After = (if fits then bound else ch_Cursor (last page)), sc_Bound = bound\<rparr>,
                 sp_Done = fits\<rparr>, w)))"

definition mem_store :: "(msg_mem, doc) msg_store" where
  "mem_store = \<lparr>st_Append = mem_Append, st_Get = mem_Get, st_Delete = mem_Delete, st_GetState = mem_GetState,
     st_PutState = mem_PutState, st_DeleteState = mem_DeleteState, st_Scan = mem_Scan\<rparr>"

definition mem_queue :: "Namespace \<Rightarrow> (msg_mem, doc) msg_view" where
  "mem_queue ns =
     \<lparr>mv_body = \<lambda>w p. Option.bind (slot_at w ns p) (slot_body p), mv_last = \<lambda>w. length (mm_slots w),
      mv_state = \<lambda>w p. Option.bind (slot_at w ns p) slot_state,
      mv_hist = \<lambda>w p r. case slot_at w ns p of
          None \<Rightarrow> None | Some s \<Rightarrow> if 0 < r \<and> r \<le> length (sl_hist s) then Some (sl_hist s ! (r - 1)) else None,
      mv_rely = (=)\<rparr>"

section \<open>It meets the contract\<close>

lemma mem_store_sel [simp]:
  "st_Append mem_store = mem_Append" "st_Get mem_store = mem_Get" "st_Delete mem_store = mem_Delete"
  "st_GetState mem_store = mem_GetState" "st_PutState mem_store = mem_PutState"
  "st_DeleteState mem_store = mem_DeleteState" "st_Scan mem_store = mem_Scan"
  by (simp_all add: mem_store_def)

lemma mem_queue_rely [simp]: "mv_rely (mem_queue ns) = (=)"
  by (simp add: mem_queue_def)

lemma slot_at_set:
  assumes "slot_at w ns p = Some s" and "sl_ns s' = ns"
  shows "slot_at (set_slot p s' w) ns q = (if q = p then Some s' else slot_at w ns q)"
  using assms by (auto simp: slot_at_def set_slot_def nth_list_update split: if_splits)

lemma slot_at_ns: "slot_at w ns p = Some s \<Longrightarrow> sl_ns s = ns"
  by (auto simp: slot_at_def split: if_splits)

lemma set_slot_length [simp]: "length (mm_slots (set_slot p s w)) = length (mm_slots w)"
  by (simp add: set_slot_def)

lemma mem_queue_ok: "msg_view_ok (mem_queue ns)"
  by (auto simp: msg_view_ok_def mem_queue_def slot_state_def last_conv_nth slot_at_def split: if_splits bind_splits)

lemma mem_state_step:
  assumes "slot_at w ns p = Some s" and "sl_ns s' = sl_ns s" and "sl_msg s' = sl_msg s" and "\<exists>xs. sl_hist s' = sl_hist s @ xs"
  shows "state_step (mem_queue ns) p (slot_state s') w (set_slot p s' w)"
proof -
  have ns: "sl_ns s' = ns" using assms(1,2) slot_at_ns by simp
  show ?thesis
    using assms by (auto simp: state_step_def mem_queue_def slot_at_set [OF assms(1) ns] fun_eq_iff slot_body_def nth_append)
qed

lemma mem_body_step:
  assumes "slot_at w ns p = Some s"
  shows "body_step (mem_queue ns) p None w (set_slot p (s\<lparr>sl_msg := None\<rparr>) w)"
proof -
  have ns: "sl_ns (s\<lparr>sl_msg := None\<rparr>) = ns" using assms slot_at_ns by simp
  show ?thesis
    using assms by (auto simp: body_step_def mem_queue_def slot_at_set [OF assms ns] fun_eq_iff slot_body_def slot_state_def)
qed

lemma mem_queue_body: "mv_body (mem_queue ns) w p = Option.bind (slot_at w ns p) (slot_body p)"
  by (simp add: mem_queue_def)

lemma mem_changes_sorted: "sorted_wrt (<) (map ch_Position (mem_changes w shard after bound))"
proof -
  have "map ch_Position (mem_changes w shard after bound) =
      filter (mem_has w shard) [after + 1..<min bound (length (mm_slots w)) + 1]"
    by (simp add: mem_changes_def mem_change_def Let_def comp_def del: upt_Suc)
  then show ?thesis by (simp add: sorted_wrt_filter del: upt_Suc)
qed

lemma mem_changes_range:
  "c \<in> set (mem_changes w shard after bound) \<Longrightarrow> after < ch_Position c \<and> ch_Position c \<le> bound \<and> ch_Cursor c = ch_Position c"
  by (auto simp: mem_changes_def mem_change_def Let_def)

lemma sorted_last:
  assumes "sorted_wrt (<) (map f xs)" and "x \<in> set xs"
  shows "f x \<le> (f (last xs) :: nat)"
  using assms by (induction xs) (auto intro: less_imp_le)

lemma mem_Scan_contract: "Scan_contract mem_store (mem_queue ns) ns"
  unfolding Scan_contract_def
proof (intro allI impI)
  fix w fr limit x w'
  assume "st_Scan mem_store w (MessageShard ns) fr limit = (x, w')"
  then have run: "mem_Scan w (MessageShard ns) fr limit = (x, w')" by simp
  show "mv_rely (mem_queue ns) w w' \<and>
    (\<forall>page. x = Inr page \<longrightarrow>
       sorted_wrt (<) (sc_After fr # map ch_Position (sp_Changes page)) \<and>
       list_all (\<lambda>c. ch_Cursor c = ch_Position c \<and> ch_Position c \<le> sc_After (sp_Next page)) (sp_Changes page) \<and>
       sc_After (sp_Next page) \<le> sc_Bound (sp_Next page))"
  proof (cases "ValidateScan fr limit")
    case (Some err)
    with run show ?thesis by (auto simp: mem_Scan_def)
  next
    case None
    define bound where "bound = (if fr = zero_cursor then length (mm_slots w) else sc_Bound fr)"
    define cs where "cs = mem_changes w (MessageShard ns) (sc_After fr) bound"
    from None have lim: "0 < nat limit" by (simp add: ValidateScan_def split: if_splits)
    have x: "x = Inr \<lparr>sp_Changes = take (nat limit) cs,
        sp_Next = \<lparr>sc_After = (if length cs \<le> nat limit then bound else ch_Cursor (last (take (nat limit) cs))), sc_Bound = bound\<rparr>,
        sp_Done = length cs \<le> nat limit\<rparr>" "w' = w"
      using run [symmetric] unfolding mem_Scan_def None bound_def cs_def option.case Let_def prod.inject by blast+
    have s: "sorted_wrt (<) (map ch_Position cs)" by (simp add: cs_def mem_changes_sorted)
    have r: "sc_After fr < ch_Position c \<and> ch_Position c \<le> bound \<and> ch_Cursor c = ch_Position c" if "c \<in> set cs" for c
      using that mem_changes_range unfolding cs_def by blast
    have st: "sorted_wrt (<) (map ch_Position (take (nat limit) cs))" using s by (simp add: take_map [symmetric] sorted_wrt_take)
    note last = sorted_last [OF st]
    have ne: "take (nat limit) cs \<noteq> []" if "\<not> length cs \<le> nat limit" using that lim by auto
    have lastin: "last (take (nat limit) cs) \<in> set cs" if "\<not> length cs \<le> nat limit"
      using last_in_set [OF ne [OF that]] by (rule in_set_takeD)
    show ?thesis
      using st r last lastin x(2) by (auto simp: x(1) list_all_iff dest: in_set_takeD)
  qed
qed

lemma mem_Get_contract: "Get_contract mem_store (mem_queue ns) ns"
  by (auto simp: Get_contract_def seen_def put_done_def body_gone_def mem_Get_def mem_queue_def slot_body_def split: option.splits bind_splits)

lemma mem_GetState_contract: "GetState_contract mem_store (mem_queue ns) ns"
  by (auto simp: GetState_contract_def seen_def put_done_def body_gone_def mem_GetState_def mem_queue_def split: option.splits)

lemma mem_Delete_contract: "Delete_contract mem_store (mem_queue ns) ns"
  unfolding Delete_contract_def
proof (intro allI impI)
  fix w p x w' assume "st_Delete mem_store w ns p = (x, w')"
  then show "case x of Inr r \<Rightarrow> seen (mem_queue ns) (\<lambda>u. mv_body (mem_queue ns) u p = None) w w' \<or> body_gone (mem_queue ns) p w w'
      | Inl e \<Rightarrow> mv_rely (mem_queue ns) w w' \<or> body_gone (mem_queue ns) p w w'"
    by (cases "slot_at w ns p") (auto simp: mem_Delete_def seen_def put_done_def body_gone_def mem_queue_body intro: mem_body_step)
qed

lemma mem_PutState_contract: "PutState_contract mem_store (mem_queue ns) ns"
  unfolding PutState_contract_def
proof (intro allI impI)
  fix w p v expected x w' assume "st_PutState mem_store w ns p v expected = (x, w')"
  then have run: "mem_PutState w ns p v expected = (x, w')" by simp
  show "case x of Inr r \<Rightarrow> \<exists>old. put_done (mem_queue ns) p old (Some (v, r)) w w' \<and> at_revision expected old
    | Inl e \<Rightarrow> mv_rely (mem_queue ns) w w' \<or> \<not> errors_Is e sqs_ErrRevisionMismatch \<and>
        (\<exists>old r. put_done (mem_queue ns) p old (Some (v, r)) w w' \<and> at_revision expected old)"
  proof (cases "slot_at w ns p")
    case None
    with run show ?thesis by (auto simp: mem_PutState_def)
  next
    case (Some s)
    let ?s = "s\<lparr>sl_hist := sl_hist s @ [v], sl_live := True\<rparr>"
    have st: "state_step (mem_queue ns) p (slot_state ?s) w (set_slot p ?s w)" by (rule mem_state_step [OF Some]) auto
    have "mv_state (mem_queue ns) w p = slot_state s" by (simp add: mem_queue_def Some)
    moreover have "at_revision expected (slot_state s)" if "expected = (case slot_state s of None \<Rightarrow> 0 | Some (_, r) \<Rightarrow> r)"
      using that by (auto simp: at_revision_def slot_state_def)
    moreover have "slot_state ?s = Some (v, length (sl_hist s) + 1)" by (simp add: slot_state_def)
    ultimately show ?thesis
      using run Some st by (auto simp: mem_PutState_def seen_def put_done_def body_gone_def split: if_splits)
  qed
qed

lemma mem_DeleteState_contract: "DeleteState_contract mem_store (mem_queue ns) ns"
  unfolding DeleteState_contract_def
proof (intro allI impI)
  fix w p expected x w' assume "st_DeleteState mem_store w ns p expected = (x, w')"
  then have run: "mem_DeleteState w ns p expected = (x, w')" by simp
  show "case x of Inr r \<Rightarrow> \<exists>v. put_done (mem_queue ns) p (Some (v, expected)) None w w'
    | Inl e \<Rightarrow> mv_rely (mem_queue ns) w w' \<or> \<not> errors_Is e sqs_ErrRevisionMismatch \<and> \<not> errors_Is e sqs_ErrNotFound \<and>
        (\<exists>v. put_done (mem_queue ns) p (Some (v, expected)) None w w')"
  proof (cases "slot_at w ns p")
    case None
    with run show ?thesis by (auto simp: mem_DeleteState_def)
  next
    case (Some s)
    have "state_step (mem_queue ns) p (slot_state (s\<lparr>sl_live := False\<rparr>)) w (set_slot p (s\<lparr>sl_live := False\<rparr>) w)"
      by (rule mem_state_step [OF Some]) auto
    moreover have "slot_state (s\<lparr>sl_live := False\<rparr>) = None" by (simp add: slot_state_def)
    moreover have "mv_state (mem_queue ns) w p = slot_state s" by (simp add: mem_queue_def Some)
    ultimately show ?thesis
      using run Some by (auto simp: mem_DeleteState_def seen_def put_done_def body_gone_def split: if_splits option.splits)
  qed
qed

lemma slot_at_append:
  "slot_at (w\<lparr>mm_slots := mm_slots w @ [s]\<rparr>) ns q =
     (if q = Suc (length (mm_slots w)) then if sl_ns s = ns then Some s else None else slot_at w ns q)"
  by (auto simp: slot_at_def nth_append)

lemma slot_at_end: "slot_at w ns (Suc (length (mm_slots w))) = None"
  by (simp add: slot_at_def)

lemma mem_Append_contract: "Append_contract mem_store (mem_queue ns) ns"
proof -
  have "appended (mem_queue ns) ai (Suc (length (mm_slots w))) w (snd (mem_Append w ns ai))" for w ai
    unfolding appended_def
    by (rule exI [of _ w], rule exI [of _ "snd (mem_Append w ns ai)"])
      (simp add: body_step_def mem_Append_def mem_queue_def slot_at_append slot_at_end fun_eq_iff slot_body_def slot_state_def)
  then show ?thesis by (auto simp: Append_contract_def mem_Append_def)
qed

lemma mem_lawful: "store_lawful mem_store (mem_queue ns) ns"
  using mem_queue_ok mem_Get_contract mem_GetState_contract mem_PutState_contract mem_DeleteState_contract
    mem_Delete_contract mem_Append_contract mem_Scan_contract
  by (simp add: store_lawful_def)

end
