(* ===== verification/SqsReceive.thy ===== *)
theory SqsReceive
  imports SqsClaim
begin

text \<open>
  \<open>ReceiveMessage\<close>, \<open>domains/sqs/message/receive.go\<close>: one bounded poll that scans the shard and claims,
  the scan positions kept between receives, and the long poll. What a long poll waits for (the wake
  feed, timers, the contexts' ends) is an argument of it. Times are in milliseconds, durations in
  nanoseconds.
\<close>

definition MaxReceiveMessages :: int where "MaxReceiveMessages = 10"
definition ReceiveScanPage :: int where "ReceiveScanPage = 100"
definition ReceiveScanPages :: nat where "ReceiveScanPages = 4"
definition MaxWaitSeconds :: int where "MaxWaitSeconds = 20"
definition LongPollRecheck :: int where "LongPollRecheck = Second"

definition errScanCut :: string where "errScanCut = ''scan queue''"
definition DeadlineExceeded :: string where "DeadlineExceeded = ''context deadline exceeded''"

record ReceiveInput =
  ri_Account :: string
  ri_Region :: string
  ri_Queue :: string
  ri_MaxNumberOfMessages :: "int option"
  ri_VisibilityTimeout :: "int option"
  ri_WaitTimeSeconds :: "int option"

record Received =
  re_MessageID :: string
  re_ReceiptHandle :: string
  re_Body :: string
  re_MD5OfBody :: string
  re_Attributes :: Attributes
  re_MD5OfMessageAttributes :: string
  re_SenderID :: string
  re_SentAt :: int
  re_ReceiveCount :: nat
  re_FirstReceive :: int
  re_Deadline :: int

section \<open>Validation\<close>

definition validateReceive :: "ReceiveInput \<Rightarrow> (int \<times> int option) result" where
  "validateReceive i =
     (let want = (case ri_MaxNumberOfMessages i of None \<Rightarrow> 1 | Some n \<Rightarrow> n) in
      if want < 1 \<or> MaxReceiveMessages < want then
        Inl (invalid_param (''MaxNumberOfMessages must be between 1 and '' @ go_format_int MaxReceiveMessages))
      else if (case ri_VisibilityTimeout i of None \<Rightarrow> False | Some v \<Rightarrow> v < 0 \<or> MaxVisibilitySeconds < v) then
        Inl (invalid_param (''VisibilityTimeout must be between 0 and '' @ go_format_int MaxVisibilitySeconds))
      else if (case ri_WaitTimeSeconds i of None \<Rightarrow> False | Some w \<Rightarrow> w < 0 \<or> MaxWaitSeconds < w) then
        Inl (invalid_param (''WaitTimeSeconds must be between 0 and '' @ go_format_int MaxWaitSeconds))
      else Inr (want, ri_VisibilityTimeout i))"

definition ValidateReceive :: "ReceiveInput \<Rightarrow> go_error option" where
  "ValidateReceive i = (case validateReceive i of Inl err \<Rightarrow> Some err | Inr x \<Rightarrow> None)"

text \<open>The visibility, the retention and the wait of a receive.\<close>

definition receiveTiming :: "string \<Rightarrow> ReceiveTarget \<Rightarrow> int option \<Rightarrow> int option \<Rightarrow> (int \<times> int \<times> int) result" where
  "receiveTiming account t override wait =
     (if rt_Account t \<noteq> account then Inl (unavailable ''resolved queue belongs to another account'')
      else if rt_VisibilityTimeout t < 0 \<or> MaxVisibilitySeconds < rt_VisibilityTimeout t then
        Inl (unavailable (''queue visibility timeout '' @ go_format_int (rt_VisibilityTimeout t) @ '' outside 0..'' @
               go_format_int MaxVisibilitySeconds))
      else if rt_MessageRetentionPeriod t < 60 \<or> 1209600 < rt_MessageRetentionPeriod t then
        Inl (unavailable (''queue retention '' @ go_format_int (rt_MessageRetentionPeriod t) @ '' outside 60..1209600''))
      else if rt_ReceiveWaitTime t < 0 \<or> MaxWaitSeconds < rt_ReceiveWaitTime t then
        Inl (unavailable (''queue receive wait '' @ go_format_int (rt_ReceiveWaitTime t) @ '' outside 0..'' @
               go_format_int MaxWaitSeconds))
      else
        (case Namespace_Validate (rt_Namespace t) of
           Some err \<Rightarrow> Inl (wrap2 (Sentinel sqs_ErrUnavailable) err)
         | None \<Rightarrow>
             Inr ((case override of Some v \<Rightarrow> v | None \<Rightarrow> rt_VisibilityTimeout t) * Second,
                  rt_MessageRetentionPeriod t * Second,
                  (case wait of Some v \<Rightarrow> v | None \<Rightarrow> rt_ReceiveWaitTime t) * Second)))"

section \<open>One poll\<close>

text \<open>\<open>delayedUntil\<close>: the time a still delayed message becomes visible.\<close>

definition delayedUntil :: "int \<Rightarrow> Change \<Rightarrow> int option" where
  "delayedUntil now ch =
     (case readHeaders (ch_Meta ch) of
        Inl err \<Rightarrow> None
      | Inr h \<Rightarrow> if h_vis h \<le> now then None else Some (h_vis h))"

text \<open>The value \<open>strconv.ParseInt\<close> returns even with an error: 0, or the nearest representable number.\<close>

definition parse_int_value :: "string \<Rightarrow> int" where
  "parse_int_value s =
     (case go_atoi s of
        Some v \<Rightarrow> v
      | None \<Rightarrow>
          (let ds = (if s \<noteq> [] \<and> (hd s = CHR ''-'' \<or> hd s = CHR ''+'') then tl s else s) in
           if ds = [] \<or> \<not> list_all is_digit ds then 0
           else if hd s = CHR ''-'' then - (2 ^ 63) else 2 ^ 63 - 1))"

definition Receiver_received :: "ReceiptKeys option \<Rightarrow> string \<Rightarrow> MessageClaim \<Rightarrow> Received result" where
  "Receiver_received keys q c =
     (case Receipt_Encode keys \<lparr>rc_Queue = q, rc_Position = m_Position (cl_Message c), rc_Generation = cl_Generation c\<rparr> of
        Inl err \<Rightarrow> Inl (unavailable2 ''sign receipt: '' err)
      | Inr h \<Rightarrow>
          Inr \<lparr>re_MessageID = cl_MessageID c, re_ReceiptHandle = h, re_Body = m_Body (cl_Message c),
               re_MD5OfBody = meta_get (m_Meta (cl_Message c)) MetaMD5, re_Attributes = cl_Attributes c,
               re_MD5OfMessageAttributes = Attributes_MD5 (cl_Attributes c),
               re_SenderID = meta_get (m_Meta (cl_Message c)) MetaSender,
               re_SentAt = parse_int_value (meta_get (m_Meta (cl_Message c)) MetaEnq),
               re_ReceiveCount = cl_ReceiveCount c, re_FirstReceive = cl_FirstReceive c, re_Deadline = cl_Deadline c\<rparr>)"

type_synonym passes = "string \<rightharpoonup> ScanCursor"

definition Receiver_resume :: "passes \<Rightarrow> string \<Rightarrow> ScanCursor" where
  "Receiver_resume ps q = (case ps q of None \<Rightarrow> zero_cursor | Some c \<Rightarrow> c)"

definition Receiver_save :: "passes \<Rightarrow> string \<Rightarrow> ScanCursor \<Rightarrow> passes" where
  "Receiver_save ps q c = (if c = zero_cursor then ps(q := None) else ps(q \<mapsto> c))"

text \<open>What a poll gathers: the messages claimed, the first failure it could not settle and the earliest
  end of a delay it saw.\<close>

record poll_state =
  po_out :: "Received list"
  po_unsettled :: "go_error option"
  po_next :: "int option"

definition unsettle :: "go_error \<Rightarrow> poll_state \<Rightarrow> poll_state" where
  "unsettle err s = (if po_unsettled s = None then s\<lparr>po_unsettled := Some err\<rparr> else s)"

definition see_delay :: "int \<Rightarrow> poll_state \<Rightarrow> poll_state" where
  "see_delay t s =
     (case po_next s of
        None \<Rightarrow> s\<lparr>po_next := Some t\<rparr>
      | Some n \<Rightarrow> if t < n then s\<lparr>po_next := Some t\<rparr> else s)"

definition claim_refused :: "go_error \<Rightarrow> bool" where
  "claim_refused err \<longleftrightarrow> errors_Is err ErrNotVisible \<or> errors_Is err ErrGone \<or> errors_Is err ErrClaimLost \<or>
     errors_Is err ErrLeaseExpired"

record poll_input =
  pi_ns :: Namespace
  pi_want :: nat
  pi_vis :: int
  pi_retention :: int

text \<open>The changes of one page. The cursor returned, if any, is where a full poll stopped.\<close>

fun poll_page ::
  "'w consumer \<Rightarrow> poll_input \<Rightarrow> nat \<Rightarrow> Change list \<Rightarrow> poll_state \<Rightarrow> 'w \<Rightarrow>
   (go_error + poll_state \<times> ScanCursor option) \<times> 'w" where
  "poll_page d i bound [] s w = (Inr (s, None), w)"
| "poll_page d i bound (ch # chs) s w =
     (if length (po_out s) = pi_want i then
        (Inr (s, Some \<lparr>sc_After = (ch_Cursor ch + (2 ^ 64 - 1)) mod 2 ^ 64, sc_Bound = bound\<rparr>), w)
      else if ch_Namespace ch \<noteq> pi_ns i then poll_page d i bound chs s w
      else
        (case delayedUntil (co_now d w) ch of
           Some t \<Rightarrow> poll_page d i bound chs (see_delay t s) w
         | None \<Rightarrow>
             (case Claimer_Claim (co_Store d) (co_now d)
                     \<lparr>ci_Namespace = pi_ns i, ci_Position = ch_Position ch, ci_Visibility = pi_vis i,
                      ci_Retention = pi_retention i\<rparr> w of
                (Inl err, w1) \<Rightarrow>
                  poll_page d i bound chs (if claim_refused err then s else unsettle err s) w1
              | (Inr c, w1) \<Rightarrow>
                  (case Receiver_received (co_Keys d) (ns_Queue (pi_ns i)) c of
                     Inl err \<Rightarrow> (Inl err, w1)
                   | Inr rc \<Rightarrow> poll_page d i bound chs (s\<lparr>po_out := po_out s @ [rc]\<rparr>) w1))))"

fun poll_pages ::
  "('w, doc) msg_store \<Rightarrow> 'w consumer \<Rightarrow> poll_input \<Rightarrow> nat \<Rightarrow> ScanCursor \<Rightarrow> bool \<Rightarrow> poll_state \<Rightarrow> 'w \<Rightarrow>
   (go_error + poll_state \<times> ScanCursor) \<times> 'w" where
  "poll_pages st d i 0 cur fresh s w = (Inr (s, cur), w)"
| "poll_pages st d i (Suc n) cur fresh s w =
     (if pi_want i \<le> length (po_out s) then (Inr (s, cur), w)
      else
        (case st_Scan st w (MessageShard (pi_ns i)) cur ReceiveScanPage of
           (Inl err, w1) \<Rightarrow>
             (Inr (unsettle (Wrapped [] [Sentinel sqs_ErrUnavailable, Sentinel errScanCut, err] []) s, cur), w1)
         | (Inr page, w1) \<Rightarrow>
             (case poll_page d i (sc_Bound (sp_Next page)) (sp_Changes page) s w1 of
                (Inl err, w2) \<Rightarrow> (Inl err, w2)
              | (Inr (s', Some cur'), w2) \<Rightarrow> (Inr (s', cur'), w2)
              | (Inr (s', None), w2) \<Rightarrow>
                  if sp_Done page then
                    (if fresh then (Inr (s', zero_cursor), w2)
                     else poll_pages st d i n zero_cursor True s' w2)
                  else poll_pages st d i n (sp_Next page) fresh s' w2)))"

definition Receiver_poll ::
  "('w, doc) msg_store \<Rightarrow> 'w consumer \<Rightarrow> poll_input \<Rightarrow> passes \<Rightarrow> 'w \<Rightarrow>
   (Received list \<times> int option) result \<times> passes \<times> 'w" where
  "Receiver_poll st d i ps w =
     (let q = ns_Queue (pi_ns i); cur = Receiver_resume ps q in
      case poll_pages st d i ReceiveScanPages cur (cur = zero_cursor)
             \<lparr>po_out = [], po_unsettled = None, po_next = None\<rparr> w of
        (Inl err, w1) \<Rightarrow> (Inl err, ps, w1)
      | (Inr (s, cur'), w1) \<Rightarrow>
          ((case po_unsettled s of
              Some err \<Rightarrow> if po_out s = [] then Inl err else Inr (po_out s, po_next s)
            | None \<Rightarrow> Inr (po_out s, po_next s)),
           Receiver_save ps q cur', w1))"

section \<open>The long poll\<close>

text \<open>
  The environment of a long poll: opening the wake feed under the wait's deadline, the caller's
  cancellation, the end of the wait, a nap that ends with a wake-up or a timer (true) or with the end of
  the wait or of the feed (false), and closing the feed, which tells the failure it saw before.
\<close>

record 'w wait_env =
  we_open :: "nat \<Rightarrow> int \<Rightarrow> 'w \<Rightarrow> unit result \<times> 'w"
  we_caller :: "'w \<Rightarrow> go_error option"
  we_over :: "'w \<Rightarrow> bool"
  we_nap :: "int \<Rightarrow> 'w \<Rightarrow> bool \<times> 'w"
  we_close :: "'w \<Rightarrow> go_error option \<times> 'w"

definition stop_feed :: "'w wait_env \<Rightarrow> 'w \<Rightarrow> go_error option \<times> 'w" where
  "stop_feed e w = (case we_close e w of (x, w1) \<Rightarrow> (map_option (unavailable2 ''wake feed: '') x, w1))"

definition Receiver_endErr :: "'w wait_env \<Rightarrow> go_error \<Rightarrow> bool \<Rightarrow> 'w \<Rightarrow> go_error option \<times> 'w" where
  "Receiver_endErr e err checked w =
     (case we_caller e w of
        Some cerr \<Rightarrow> (Some cerr, w)
      | None \<Rightarrow>
          if we_over e w \<and> checked \<and> errors_Is err errScanCut \<and> errors_Is err DeadlineExceeded then stop_feed e w
          else (Some err, w))"

definition Receiver_recheck :: "int \<Rightarrow> int" where
  "Receiver_recheck recheck = (if 0 < recheck then recheck else LongPollRecheck)"

definition nap_length :: "int \<Rightarrow> int option \<Rightarrow> int \<Rightarrow> int" where
  "nap_length recheck nxt now =
     (case nxt of
        None \<Rightarrow> Receiver_recheck recheck
      | Some t \<Rightarrow> min (Receiver_recheck recheck) (max ((t - now) * 1000000) 0))"

definition none_or_error :: "go_error option \<Rightarrow> Received list result" where
  "none_or_error x = (case x of Some err \<Rightarrow> Inl err | None \<Rightarrow> Inr [])"

partial_function (option) longPoll_from ::
  "'w wait_env \<Rightarrow> int \<Rightarrow> ('w, doc) msg_store \<Rightarrow> 'w consumer \<Rightarrow> poll_input \<Rightarrow> bool \<Rightarrow> passes \<Rightarrow> 'w \<Rightarrow>
   (Received list result \<times> passes \<times> 'w) option" where
  "longPoll_from e recheck st d i checked ps w =
     (case Receiver_poll st d i ps w of
        (Inl err, ps1, w1) \<Rightarrow>
          (case Receiver_endErr e err checked w1 of (x, w2) \<Rightarrow> Some (none_or_error x, ps1, w2))
      | (Inr (out, nxt), ps1, w1) \<Rightarrow>
          if out \<noteq> [] then Some (Inr out, ps1, w1)
          else
            (case we_nap e (nap_length recheck nxt (co_now d w1)) w1 of
               (woken, w2) \<Rightarrow>
                 if woken then longPoll_from e recheck st d i True ps1 w2
                 else (case we_caller e w2 of
                    Some cerr \<Rightarrow> Some (Inl cerr, ps1, w2)
                  | None \<Rightarrow> (case stop_feed e w2 of (x, w3) \<Rightarrow> Some (none_or_error x, ps1, w3)))))"

definition Receiver_longPoll ::
  "'w wait_env \<Rightarrow> int \<Rightarrow> ('w, doc) msg_store \<Rightarrow> 'w consumer \<Rightarrow> poll_input \<Rightarrow> int \<Rightarrow> passes \<Rightarrow> 'w \<Rightarrow>
   (Received list result \<times> passes \<times> 'w) option" where
  "Receiver_longPoll e recheck st d i wait ps w =
     (case we_open e (MessageShard (pi_ns i)) wait w of
        (Inl err, w1) \<Rightarrow>
          Some ((case we_caller e w1 of
                   Some cerr \<Rightarrow> Inl cerr
                 | None \<Rightarrow> Inl (unavailable2 ''open wake feed: '' err)), ps, w1)
      | (Inr u, w1) \<Rightarrow> longPoll_from e recheck st d i False ps w1)"

definition Receiver_Receive ::
  "'w wait_env \<Rightarrow> int \<Rightarrow> 'w consumer \<Rightarrow> ReceiveInput \<Rightarrow> passes \<Rightarrow> 'w \<Rightarrow>
   (Received list result \<times> passes \<times> 'w) option" where
  "Receiver_Receive e recheck d i ps w =
     (case (co_Store d, co_Queues d) of
        (Some st, Some queues) \<Rightarrow>
          (case ReceiptKeys_Check (co_Keys d) of
             Some err \<Rightarrow> Some (Inl (wrap2 (Sentinel sqs_ErrUnavailable) err), ps, w)
           | None \<Rightarrow>
               (case validateReceive i of
                  Inl err \<Rightarrow> Some (Inl err, ps, w)
                | Inr (want, override) \<Rightarrow>
                    (case queues w (ri_Account i) (ri_Region i) (ri_Queue i) of
                       (Inl err, w1) \<Rightarrow> Some (Inl err, ps, w1)
                     | (Inr t, w1) \<Rightarrow>
                         (case receiveTiming (ri_Account i) t override (ri_WaitTimeSeconds i) of
                            Inl err \<Rightarrow> Some (Inl err, ps, w1)
                          | Inr (vis, retention, wait) \<Rightarrow>
                              (let pin = \<lparr>pi_ns = rt_Namespace t, pi_want = nat want, pi_vis = vis, pi_retention = retention\<rparr> in
                               if wait = 0 then
                                 (case Receiver_poll st d pin ps w1 of
                                    (x, ps1, w2) \<Rightarrow>
                                      Some ((case x of Inl err \<Rightarrow> Inl err | Inr (out, nxt) \<Rightarrow> Inr out), ps1, w2))
                               else Receiver_longPoll e recheck st d pin wait ps w1)))))
      | _ \<Rightarrow> Some (Inl (unavailable ''receiver is not configured''), ps, w))"

end
