(* ===== verification/SqsProtocol.thy ===== *)
theory SqsProtocol
  imports SqsMemstore SqsReceive
begin

text \<open>
  What the life of a message guarantees, whatever the other consumers do as long as they keep the same
  protocol: a message is never altered, its generation only grows and its tombstone stays while the
  message exists. From this follow exclusive receives and final deletions.
\<close>

section \<open>The protocol\<close>

text \<open>The generation and the tombstone of a stored record, read off its raw fields.\<close>

definition gen_of :: "(doc \<times> nat) option \<Rightarrow> nat" where
  "gen_of x =
     (case x of Some (Some raw, r) \<Rightarrow> (case raw ''g'' of Some (RInt i) \<Rightarrow> nat i | _ \<Rightarrow> 0) | _ \<Rightarrow> 0)"

definition tomb :: "(doc \<times> nat) option \<Rightarrow> bool" where
  "tomb x \<longleftrightarrow>
     (case x of Some (Some raw, r) \<Rightarrow> (case raw ''s'' of Some (RStr s) \<Rightarrow> terminal_status s | _ \<Rightarrow> False) | _ \<Rightarrow> False)"

definition progress :: "('w, doc) msg_view \<Rightarrow> nat \<Rightarrow> 'w \<Rightarrow> 'w \<Rightarrow> bool" where
  "progress V p w w' \<longleftrightarrow>
     (p \<le> mv_last V w \<longrightarrow>
        p \<le> mv_last V w' \<and> (mv_body V w' p = None \<or> mv_body V w' p = mv_body V w p) \<and>
        (mv_body V w' p \<noteq> None \<longrightarrow>
           gen_of (mv_state V w p) \<le> gen_of (mv_state V w' p) \<and>
           (tomb (mv_state V w p) \<longrightarrow> tomb (mv_state V w' p))))"

definition rely_progress :: "('w, doc) msg_view \<Rightarrow> nat \<Rightarrow> bool" where
  "rely_progress V p \<longleftrightarrow> (\<forall>w w'. mv_rely V w w' \<longrightarrow> progress V p w w')"

lemma progress_refl: "progress V p w w"
  by (simp add: progress_def)

lemma progress_trans: "progress V p a b \<Longrightarrow> progress V p b c \<Longrightarrow> progress V p a c"
  unfolding progress_def by fastforce

lemma rely_progressD: "rely_progress V p \<Longrightarrow> mv_rely V w w' \<Longrightarrow> progress V p w w'"
  by (simp add: rely_progress_def)

text \<open>What a record that decodes is made of.\<close>

lemma decodeState_fields:
  assumes "decodeState val = Inr rec"
  obtains raw v s d r f where "val = Some raw" "int_field (raw ''v'') = Some v" "string_field (raw ''s'') = Some (Some s)"
    "uint_field (raw ''c'') = Some (sr_c rec)" "uint_field (raw ''g'') = Some (sr_g rec)"
    "int_field (raw ''d'') = Some d" "int_field (raw ''r'') = Some r" "int_field (raw ''f'') = Some f"
    "sr_s rec = s" "sr_raw rec = raw" "sr_s rec = StatusInflight \<Longrightarrow> inflight_complete rec"
proof -
  obtain raw where raw: "val = Some raw" using assms by (cases val) (simp_all add: decodeState_def)
  obtain v1 where v: "int_field (raw ''v'') = Some v1"
    using assms by (cases "int_field (raw ''v'')") (simp_all add: decodeState_def raw split: option.splits)
  obtain s1 where s: "string_field (raw ''s'') = Some s1"
    using assms by (cases "string_field (raw ''s'')") (simp_all add: decodeState_def raw v split: option.splits)
  obtain c1 where c: "uint_field (raw ''c'') = Some c1"
    using assms by (cases "uint_field (raw ''c'')") (simp_all add: decodeState_def raw v s split: option.splits)
  obtain g1 where g: "uint_field (raw ''g'') = Some g1"
    using assms by (cases "uint_field (raw ''g'')") (simp_all add: decodeState_def raw v s c split: option.splits)
  obtain d1 where d: "int_field (raw ''d'') = Some d1"
    using assms by (cases "int_field (raw ''d'')") (simp_all add: decodeState_def raw v s c g split: option.splits)
  obtain r1 where r: "int_field (raw ''r'') = Some r1"
    using assms by (cases "int_field (raw ''r'')") (simp_all add: decodeState_def raw v s c g d split: option.splits)
  obtain f1 where f: "int_field (raw ''f'') = Some f1"
    using assms by (cases "int_field (raw ''f'')") (simp_all add: decodeState_def raw v s c g d r split: option.splits)
  note fields = raw v s c g d r f
  from assms have "sr_c rec = c1 \<and> sr_g rec = g1 \<and> s1 = Some (sr_s rec) \<and> sr_raw rec = raw \<and>
      (sr_s rec = StatusInflight \<longrightarrow> inflight_complete rec)"
    by (auto simp: decodeState_def fields Let_def split: if_splits)
  with fields show ?thesis by (intro that) auto
qed

lemma decode_gen:
  assumes "decodeState val = Inr rec"
  shows "gen_of (Some (val, r)) = sr_g rec" and "tomb (Some (val, r)) = terminal_status (sr_s rec)"
proof -
  from assms obtain raw s where raw: "val = Some raw" "string_field (raw ''s'') = Some (Some s)"
    "uint_field (raw ''g'') = Some (sr_g rec)" "sr_s rec = s" by (rule decodeState_fields)
  show "gen_of (Some (val, r)) = sr_g rec"
    using raw by (auto simp: gen_of_def uint_field_def split: option.splits json_raw.splits if_splits)
  show "tomb (Some (val, r)) = terminal_status (sr_s rec)"
    using raw by (auto simp: tomb_def string_field_def split: option.splits json_raw.splits)
qed

lemma encode_gen:
  "gen_of (Some (encodeState rec, r)) = sr_g rec" "tomb (Some (encodeState rec, r)) = terminal_status (sr_s rec)"
  by (simp_all add: gen_of_def tomb_def encodeState_def)

lemma gen_None [simp]: "gen_of None = 0" "tomb None = False"
  by (simp_all add: gen_of_def tomb_def)

lemma inflight_not_terminal [simp]: "\<not> terminal_status StatusInflight"
  by (simp add: terminal_status_def statuses)

text \<open>A change of a record keeps the protocol if it keeps the order, or if the message is gone.\<close>

lemma state_step_progress:
  assumes "state_step V q new u u'"
    and "q = p \<Longrightarrow> mv_body V u p = None \<or>
      (gen_of (mv_state V u p) \<le> gen_of new \<and> (tomb (mv_state V u p) \<longrightarrow> tomb new))"
  shows "progress V p u u'"
  using assms by (cases "q = p") (auto simp: progress_def state_step_def)

lemma put_progress:
  assumes "rely_progress V p" and "put_done V q old new w w'"
    and "q = p \<Longrightarrow> mv_body V w p = None \<or> (gen_of old \<le> gen_of new \<and> (tomb old \<longrightarrow> tomb new))"
  shows "progress V p w w'"
proof (cases "p \<le> mv_last V w")
  case True
  from assms(2) obtain u u' where u: "mv_rely V w u" "mv_state V u q = old" "state_step V q new u u'" "mv_rely V u' w'"
    unfolding put_done_def by blast
  note 1 = rely_progressD [OF assms(1) u(1)] and 3 = rely_progressD [OF assms(1) u(4)]
  have "progress V p u u'"
    by (rule state_step_progress [OF u(3)]) (use assms(3) 1 True u(2) in \<open>auto simp: progress_def\<close>)
  with 1 3 show ?thesis by (blast intro: progress_trans)
qed (simp add: progress_def)

lemma body_gone_progress:
  assumes "rely_progress V p" and "body_gone V q w w'"
  shows "progress V p w w'"
proof -
  from assms(2) obtain u u' where u: "mv_rely V w u" "body_step V q None u u'" "mv_rely V u' w'"
    unfolding body_gone_def by blast
  have "progress V p u u'" using u(2) by (auto simp: progress_def body_step_def)
  with rely_progressD [OF assms(1) u(1)] rely_progressD [OF assms(1) u(3)] show ?thesis
    by (blast intro: progress_trans)
qed

section \<open>The store's operations\<close>

lemma Get_read:
  assumes "store_lawful st V ns" and "st_Get st w ns p = (x, w')"
  shows "mv_rely V w w'"
    and "x = Inr m \<Longrightarrow> seen V (\<lambda>u. mv_body V u p = Some m) w w'"
    and "x = Inl e \<Longrightarrow> errors_Is e sqs_ErrNotFound \<Longrightarrow> seen V (\<lambda>u. mv_body V u p = None) w w'"
    and "x = Inr m \<Longrightarrow> m_Position m = p"
  using lawful_parts(2) [OF assms(1)] assms(2) unfolding Get_contract_def by blast+

lemma GetState_read:
  assumes "store_lawful st V ns" and "st_GetState st w ns p = (x, w')"
  shows "mv_rely V w w'"
    and "x = Inr (v, r) \<Longrightarrow> seen V (\<lambda>u. mv_state V u p = Some (v, r)) w w'"
    and "x = Inl e \<Longrightarrow> errors_Is e sqs_ErrNotFound \<Longrightarrow> seen V (\<lambda>u. mv_state V u p = None) w w'"
  using lawful_parts(3) [OF assms(1)] assms(2) unfolding GetState_contract_def by blast+

lemma PutState_outcome:
  assumes "store_lawful st V ns" and "st_PutState st w ns p v expected = (x, w')"
  shows "x = Inr r \<Longrightarrow> \<exists>old. put_done V p old (Some (v, r)) w w' \<and> at_revision expected old"
    and "x = Inl e \<Longrightarrow> mv_rely V w w' \<or> (\<exists>old r. put_done V p old (Some (v, r)) w w' \<and> at_revision expected old)"
    and "x = Inl e \<Longrightarrow> errors_Is e sqs_ErrRevisionMismatch \<Longrightarrow> mv_rely V w w'"
  using lawful_parts(4) [OF assms(1)] assms(2) unfolding PutState_contract_def by fastforce+

lemma DeleteState_outcome:
  assumes "store_lawful st V ns" and "st_DeleteState st w ns p expected = (x, w')"
  shows "mv_rely V w w' \<or> (\<exists>v. put_done V p (Some (v, expected)) None w w')"
  using lawful_parts(5) [OF assms(1)] assms(2) unfolding DeleteState_contract_def by (cases x) fastforce+

lemma Delete_outcome:
  assumes "store_lawful st V ns" and "st_Delete st w ns p = (x, w')"
  shows "mv_rely V w w' \<or> body_gone V p w w'"
    and "x = Inr u \<Longrightarrow> seen V (\<lambda>u. mv_body V u p = None) w w' \<or> body_gone V p w w'"
proof -
  note c = lawful_parts(6) [OF assms(1), unfolded Delete_contract_def, rule_format, OF assms(2)]
  from c show "x = Inr u \<Longrightarrow> seen V (\<lambda>u. mv_body V u p = None) w w' \<or> body_gone V p w w'" by simp
  from c show "mv_rely V w w' \<or> body_gone V p w w'"
    using seen_rely [OF lawful_parts(1) [OF assms(1)]] by (cases x) auto
qed

text \<open>Once a message was seen gone it stays gone.\<close>

lemma seen_gone:
  assumes "rely_progress V p" and "p \<le> mv_last V w" and "seen V (\<lambda>u. mv_body V u p = None) w w'"
  shows "mv_body V w' p = None"
proof -
  from assms(3) obtain u where u: "mv_rely V w u" "mv_body V u p = None" "mv_rely V u w'" unfolding seen_def by blast
  from rely_progressD [OF assms(1) u(1)] rely_progressD [OF assms(1) u(3)] u(2) assms(2)
  show ?thesis by (simp add: progress_def)
qed

lemma body_gone_gone:
  assumes "rely_progress V p" and "p \<le> mv_last V w" and "body_gone V p w w'"
  shows "mv_body V w' p = None"
proof -
  from assms(3) obtain u u' where u: "mv_rely V w u" "body_step V p None u u'" "mv_rely V u' w'"
    unfolding body_gone_def by blast
  from rely_progressD [OF assms(1) u(1)] assms(2) have "p \<le> mv_last V u" by (simp add: progress_def)
  with u(2) have "p \<le> mv_last V u'" "mv_body V u' p = None" by (simp_all add: body_step_def)
  with rely_progressD [OF assms(1) u(3)] show ?thesis by (simp add: progress_def)
qed

text \<open>A conditional write at a revision read before replaces what was read.\<close>

lemma put_replaces:
  assumes "msg_view_ok V" and "seen V (\<lambda>u. mv_state V u p = Some (v, r)) w w1"
    and "put_done V p old new w1 w'" and "at_revision r old"
  shows "old = Some (v, r)"
  using assms(3,4) revision_state [OF assms(1,2)] unfolding put_done_def by blast

section \<open>Claims\<close>

text \<open>
  What a successful claim did: the message was stored; at one instant its record, absent or in flight
  with a deadline not after the claim's time, was replaced by one with the next generation; and the
  message was still stored afterwards.
\<close>

definition claimed :: "('w, doc) msg_view \<Rightarrow> ClaimInput \<Rightarrow> MessageClaim \<Rightarrow> 'w \<Rightarrow> 'w \<Rightarrow> bool" where
  "claimed V i c w w' \<longleftrightarrow>
     (\<exists>m h a b old rec.
        seen V (\<lambda>u. mv_body V u (ci_Position i) = Some m) w a \<and>
        readHeaders (m_Meta m) = Inr h \<and> split_payload h m = Inr (cl_Message c, cl_Attributes c) \<and> cl_MessageID c = h_id h \<and>
        m_Position m = ci_Position i \<and>
        cl_ReceivedAt c < int64_of (h_enq h + Milliseconds (ci_Retention i)) \<and>
        put_done V (ci_Position i) old (Some (encodeState rec, cl_Revision c)) a b \<and>
        (\<exists>m. seen V (\<lambda>u. mv_body V u (ci_Position i) = Some m) b w') \<and>
        (old = None \<and> h_vis h \<le> cl_ReceivedAt c \<or>
         (\<exists>val r rec0. old = Some (val, r) \<and> decodeState val = Inr rec0 \<and> sr_s rec0 = StatusInflight \<and>
            sr_d rec0 \<le> cl_ReceivedAt c)) \<and>
        sr_s rec = StatusInflight \<and> sr_g rec = cl_Generation c \<and> sr_d rec = cl_Deadline c \<and>
        cl_Generation c = gen_of old + 1 \<and>
        cl_Deadline c = int64_of (cl_ReceivedAt c + Milliseconds (ci_Visibility i)))"

lemma claim_state_cases:
  assumes "claim_state h cur t = Inr (rec, r)"
  shows "(\<exists>e. cur = Inl e \<and> errors_Is e sqs_ErrNotFound \<and> r = 0 \<and> rec = zero_state\<lparr>sr_c := h_rc h\<rparr> \<and> h_vis h \<le> t) \<or>
    (\<exists>val. cur = Inr (val, r) \<and> decodeState val = Inr rec \<and> sr_s rec = StatusInflight \<and> sr_d rec \<le> t)"
  using assms by (auto simp: claim_state_def split: sum.splits if_splits)

lemma recheckBody_progress:
  assumes L: "store_lawful st V (ci_Namespace i)" and P: "rely_progress V p" and run: "recheckBody st i r w = (x, w')"
  shows "progress V p w w'" and "x = None \<Longrightarrow> \<exists>m. seen V (\<lambda>u. mv_body V u (ci_Position i) = Some m) w w'"
proof -
  obtain y w1 where y: "st_Get st w (ci_Namespace i) (ci_Position i) = (y, w1)" by fastforce
  note g = Get_read [OF L y]
  show "x = None \<Longrightarrow> \<exists>m. seen V (\<lambda>u. mv_body V u (ci_Position i) = Some m) w w'"
    using run y g(2) by (auto simp: recheckBody_def split: sum.splits if_splits prod.splits)
  show "progress V p w w'"
  proof (cases "\<exists>e. y = Inl e \<and> errors_Is e sqs_ErrNotFound")
    case True
    then obtain e where e: "y = Inl e" "errors_Is e sqs_ErrNotFound" by blast
    obtain z w2 where z: "st_DeleteState st w1 (ci_Namespace i) (ci_Position i) r = (z, w2)" by fastforce
    with run y e have w': "w' = w2" by (auto simp: recheckBody_def split: sum.splits)
    have gone: "mv_body V w1 p = None" if "ci_Position i = p" "p \<le> mv_last V w"
      using seen_gone [OF P that(2)] g(3) [OF e] that(1) by simp
    have "progress V p w1 w2" if "p \<le> mv_last V w"
      using DeleteState_outcome [OF L z] rely_progressD [OF P] put_progress [OF P] gone that by blast
    with rely_progressD [OF P g(1)] w' show ?thesis
      by (cases "p \<le> mv_last V w") (auto intro: progress_trans, simp add: progress_def)
  next
    case False
    with run y have "w' = w1" by (auto simp: recheckBody_def split: sum.splits if_splits)
    with rely_progressD [OF P g(1)] show ?thesis by simp
  qed
qed

text \<open>The write of a claim replaces exactly the record it was decided on.\<close>

lemma claim_put:
  assumes L: "store_lawful st V ns" and cur: "st_GetState st w ns p = (cur, w1)"
    and c: "claim_state h cur t = Inr (rec0, r0)" and put: "put_done V p old new w1 w'" and at: "at_revision r0 old"
  shows "gen_of old = sr_g rec0" and "\<not> tomb old"
    and "old = None \<and> h_vis h \<le> t \<or>
      (\<exists>val r. old = Some (val, r) \<and> decodeState val = Inr rec0 \<and> sr_s rec0 = StatusInflight \<and> sr_d rec0 \<le> t)"
proof -
  note V = lawful_parts(1) [OF L]
  consider (absent) "r0 = 0" "rec0 = zero_state\<lparr>sr_c := h_rc h\<rparr>" "h_vis h \<le> t"
    | (held) val where "cur = Inr (val, r0)" "decodeState val = Inr rec0" "sr_s rec0 = StatusInflight" "sr_d rec0 \<le> t"
    using claim_state_cases [OF c] by blast
  then have "gen_of old = sr_g rec0 \<and> \<not> tomb old \<and>
    (old = None \<and> h_vis h \<le> t \<or>
     (\<exists>val r. old = Some (val, r) \<and> decodeState val = Inr rec0 \<and> sr_s rec0 = StatusInflight \<and> sr_d rec0 \<le> t))"
  proof cases
    case absent
    with at have "old = None" by (simp add: at_revision_def)
    with absent show ?thesis by (simp add: zero_state_def)
  next
    case held
    have "old = Some (val, r0)" by (rule put_replaces [OF V GetState_read(2) [OF L cur held(1)] put at])
    with decode_gen [OF held(2), of r0] held show ?thesis by auto
  qed
  then show "gen_of old = sr_g rec0" and "\<not> tomb old"
    and "old = None \<and> h_vis h \<le> t \<or>
      (\<exists>val r. old = Some (val, r) \<and> decodeState val = Inr rec0 \<and> sr_s rec0 = StatusInflight \<and> sr_d rec0 \<le> t)"
    by blast+
qed

lemma advance_fields [simp]:
  "sr_g (advance rec t vis) = sr_g rec + 1" "sr_s (advance rec t vis) = StatusInflight"
  "sr_r (advance rec t vis) = t" "sr_c (advance rec t vis) = sr_c rec + 1"
  "sr_d (advance rec t vis) = int64_of (t + Milliseconds vis)"
  by (simp_all add: advance_def)

lemma claim_write_run:
  assumes L: "store_lawful st V (ci_Namespace i)" and P: "rely_progress V p"
    and cur: "st_GetState st w (ci_Namespace i) (ci_Position i) = (cur, w1)"
    and c: "claim_state h cur t = Inr (rec0, r0)"
    and run: "claim_write st now i h msg attrs t rec0 r0 w1 = (x, w')"
  shows "progress V p w1 w'"
    and "x = Inr c' \<Longrightarrow> seen V (\<lambda>u. mv_body V u (ci_Position i) = Some m) v w1 \<Longrightarrow> readHeaders (m_Meta m) = Inr h \<Longrightarrow>
      split_payload h m = Inr (msg, attrs) \<Longrightarrow> m_Position m = ci_Position i \<Longrightarrow> t < int64_of (h_enq h + Milliseconds (ci_Retention i)) \<Longrightarrow>
      claimed V i c' v w'"
proof -
  let ?rec = "advance rec0 t (ci_Visibility i)" and ?q = "ci_Position i"
  obtain y w2 where y: "st_PutState st w1 (ci_Namespace i) ?q (encodeState ?rec) r0 = (y, w2)" by fastforce
  have put: "progress V p w1 w2" if "put_done V ?q old (Some (encodeState ?rec, r)) w1 w2" "at_revision r0 old" for old r
    by (rule put_progress [OF P that(1)]) (simp add: encode_gen claim_put [OF L cur c that])
  have p2: "progress V p w1 w2"
    using PutState_outcome(1,2) [OF L y] put rely_progressD [OF P] by (cases y) blast+
  obtain z w3 where z: "recheckBody st i (case y of Inr r \<Rightarrow> r | Inl e \<Rightarrow> 0) w2 = (z, w3)" by fastforce
  note rb = recheckBody_progress [OF L P z]
  have "w' = w1 \<or> w' = w2 \<or> w' = w3"
    using run y z by (auto simp: claim_write_def Let_def split: if_splits sum.splits option.splits prod.splits)
  with p2 rb(1) show "progress V p w1 w'" by (auto intro: progress_refl progress_trans)
  assume x: "x = Inr c'" and b: "seen V (\<lambda>u. mv_body V u ?q = Some m) v w1"
    and m: "readHeaders (m_Meta m) = Inr h" "split_payload h m = Inr (msg, attrs)"
      "m_Position m = ci_Position i" "t < int64_of (h_enq h + Milliseconds (ci_Retention i))"
  from run x y z obtain r where r: "y = Inr r" "z = None" "w' = w3" and c':
    "cl_Generation c' = sr_g ?rec" "cl_Deadline c' = sr_d ?rec" "cl_ReceivedAt c' = sr_r ?rec" "cl_Revision c' = r"
    "cl_Message c' = msg" "cl_Attributes c' = attrs" "cl_MessageID c' = h_id h"
    by (auto simp: claim_write_def Let_def split: if_splits sum.splits option.splits prod.splits)
  from PutState_outcome(1) [OF L y r(1)] obtain old
    where old: "put_done V ?q old (Some (encodeState ?rec, r)) w1 w2" "at_revision r0 old" by blast
  note o = claim_put [OF L cur c old]
  show "claimed V i c' v w'"
    unfolding claimed_def using b m old(1) rb(2) [OF r(2)] r(3) c' o(1,3)
    by (intro exI [of _ m] exI [of _ h] exI [of _ w1] exI [of _ w2] exI [of _ old] exI [of _ ?rec]) auto
qed

lemma Claim_run:
  assumes L: "store_lawful st V (ci_Namespace i)" and P: "rely_progress V p"
    and run: "Claimer_Claim (Some st) now i w = (x, w')"
  shows "progress V p w w'" and "x = Inr c \<Longrightarrow> claimed V i c w w'"
proof -
  note V = lawful_parts(1) [OF L]
  let ?q = "ci_Position i"
  obtain y w1 where y: "st_Get st w (ci_Namespace i) ?q = (y, w1)" by fastforce
  obtain cur w2 where cur: "st_GetState st w1 (ci_Namespace i) ?q = (cur, w2)" by fastforce
  note r1 = Get_read(1) [OF L y] and r2 = GetState_read(1) [OF L cur]
  consider (quiet) "w' = w \<or> w' = w1 \<or> w' = w2" "\<forall>c. x \<noteq> Inr c"
    | (wrote) h msg attrs t rec r m where "y = Inr m" "readHeaders (m_Meta m) = Inr h"
        "split_payload h m = Inr (msg, attrs)" "t < int64_of (h_enq h + Milliseconds (ci_Retention i))" "claim_state h cur t = Inr (rec, r)"
        "claim_write st now i h msg attrs t rec r w2 = (x, w')"
    using run y cur
    by (auto simp: Claimer_Claim_def Let_def not_le split: option.splits sum.splits prod.splits if_splits)
  then have "progress V p w w' \<and> (x = Inr c \<longrightarrow> claimed V i c w w')"
  proof cases
    case quiet
    then show ?thesis
      using rely_progressD [OF P r1] rely_progressD [OF P r2] by (auto intro: progress_refl progress_trans)
  next
    case wrote
    note cw = claim_write_run [OF L P cur wrote(5,6)]
    have "seen V (\<lambda>u. mv_body V u ?q = Some m) w w2"
      using Get_read(2) [OF L y wrote(1)] r2 unfolding seen_def by (blast intro: mv_trans [OF V])
    with cw(1) cw(2) [OF _ _ wrote(2,3) Get_read(4) [OF L y wrote(1)] wrote(4)] rely_progressD [OF P r1] rely_progressD [OF P r2] show ?thesis
      by (blast intro: progress_trans)
  qed
  then show "progress V p w w'" and "x = Inr c \<Longrightarrow> claimed V i c w w'" by blast+
qed

text \<open>The instant of a claim: the message read before it was still stored.\<close>

lemma put_stored:
  assumes V: "msg_view_ok V" and P: "rely_progress V p" and a: "seen V (\<lambda>u. mv_body V u p = Some m) w a"
    and put: "put_done V p old new a b" and b: "seen V (\<lambda>u. mv_body V u p = Some m') b w'"
  shows "\<exists>u u'. progress V p w u \<and> mv_body V u p = Some m \<and> mv_state V u p = old \<and> state_step V p new u u' \<and> progress V p u' w'"
proof -
  from put obtain u u' where u: "mv_rely V a u" "mv_state V u p = old" "state_step V p new u u'" "mv_rely V u' b"
    unfolding put_done_def by blast
  from a obtain a1 where a1: "mv_rely V w a1" "mv_body V a1 p = Some m" "mv_rely V a1 a" unfolding seen_def by blast
  from b obtain b1 where b1: "mv_rely V b b1" "mv_body V b1 p = Some m'" "mv_rely V b1 w'" unfolding seen_def by blast
  have 1: "progress V p a1 u" using rely_progressD [OF P a1(3)] rely_progressD [OF P u(1)] by (rule progress_trans)
  have 2: "progress V p u' b1" using rely_progressD [OF P u(4)] rely_progressD [OF P b1(1)] by (rule progress_trans)
  from mv_body_last [OF V a1(2)] 1 have l: "p \<le> mv_last V u" "mv_body V u p = None \<or> mv_body V u p = Some m"
    using a1(2) by (simp_all add: progress_def)
  have "mv_body V u' p \<noteq> None" using 2 l(1) u(3) b1(2) unfolding progress_def state_step_def by (metis option.discI)
  with u(3) l(2) have "mv_body V u p = Some m" by (auto simp: state_step_def)
  with u(2,3) 1 2 rely_progressD [OF P a1(1)] rely_progressD [OF P b1(3)] show ?thesis by (blast intro: progress_trans)
qed

text \<open>What a claim says of the worlds before and after it.\<close>

lemma claimed_gen:
  assumes V: "msg_view_ok V" and P: "rely_progress V p" and c: "claimed V i c w w'" and p: "p = ci_Position i"
  shows "p \<le> mv_last V w'" and "mv_body V w' p \<noteq> None \<Longrightarrow> cl_Generation c \<le> gen_of (mv_state V w' p)"
    and "p \<le> mv_last V w \<Longrightarrow> mv_body V w p \<noteq> None \<and> \<not> tomb (mv_state V w p) \<and> gen_of (mv_state V w p) < cl_Generation c"
proof -
  from c obtain m a b old rec m' where
    a: "seen V (\<lambda>u. mv_body V u p = Some m) w a" and
    put: "put_done V p old (Some (encodeState rec, cl_Revision c)) a b" and
    b: "seen V (\<lambda>u. mv_body V u p = Some m') b w'" and
    o: "old = None \<or> (\<exists>val r rec0. old = Some (val, r) \<and> decodeState val = Inr rec0 \<and> sr_s rec0 = StatusInflight)" and
    g: "sr_g rec = cl_Generation c" "cl_Generation c = gen_of old + 1"
    unfolding claimed_def p by blast
  from put_stored [OF V P a put b] obtain u u' where u: "progress V p w u" "mv_body V u p = Some m" "mv_state V u p = old"
    "state_step V p (Some (encodeState rec, cl_Revision c)) u u'" "progress V p u' w'" by blast
  have lu': "p \<le> mv_last V u'" using mv_body_last [OF V u(2)] u(4) by (simp add: state_step_def)
  have nt: "\<not> tomb old" using o decode_gen(2) by fastforce
  show "p \<le> mv_last V w'" using u(5) lu' by (simp add: progress_def)
  show "cl_Generation c \<le> gen_of (mv_state V w' p)" if "mv_body V w' p \<noteq> None"
    using u(4,5) lu' that g(1) encode_gen(1) [of rec "cl_Revision c"] by (simp add: progress_def state_step_def)
  show "mv_body V w p \<noteq> None \<and> \<not> tomb (mv_state V w p) \<and> gen_of (mv_state V w p) < cl_Generation c" if "p \<le> mv_last V w"
    using u(1-3) that nt g(2) unfolding progress_def by (metis Suc_eq_plus1 le_imp_less_Suc option.discI)
qed

section \<open>Deletion\<close>

text \<open>A handle's receive is over: there is no record, it is a tombstone, or the message was received again.\<close>

definition settled :: "('w, doc) msg_view \<Rightarrow> Receipt \<Rightarrow> 'w \<Rightarrow> bool" where
  "settled V rc u \<longleftrightarrow>
     mv_state V u (rc_Position rc) = None \<or> tomb (mv_state V u (rc_Position rc)) \<or>
     rc_Generation rc < gen_of (mv_state V u (rc_Position rc))"

lemma Deleter_current_run:
  assumes L: "store_lawful st V ns" and run: "Deleter_current st ns rc w = (x, w')"
  shows "mv_rely V w w'" and "x = Inl None \<Longrightarrow> seen V (settled V rc) w w'"
    and "x = Inr (rec, r) \<Longrightarrow> \<exists>val. seen V (\<lambda>u. mv_state V u (rc_Position rc) = Some (val, r)) w w' \<and>
      decodeState val = Inr rec \<and> \<not> terminal_status (sr_s rec) \<and> sr_s rec \<noteq> StatusMoving \<and> sr_g rec = rc_Generation rc"
proof -
  let ?p = "rc_Position rc"
  obtain cur w1 where cur: "st_GetState st w ns ?p = (cur, w1)" by fastforce
  note g = GetState_read [OF L cur]
  have w': "w' = w1" using run cur by (auto simp: Deleter_current_def split: sum.splits prod.splits)
  with g(1) show "mv_rely V w w'" by simp
  show "seen V (settled V rc) w w'" if x: "x = Inl None"
  proof (cases cur)
    case (Inl e)
    with run cur x have "errors_Is e sqs_ErrNotFound" by (auto simp: Deleter_current_def split: if_splits)
    with g(3) [OF Inl] w' show ?thesis unfolding seen_def settled_def by blast
  next
    case (Inr c)
    obtain val r where c: "c = (val, r)" by fastforce
    with run cur x Inr obtain rec where rec: "decodeState val = Inr rec"
      "terminal_status (sr_s rec) \<or> rc_Generation rc < sr_g rec"
      by (auto simp: Deleter_current_def split: sum.splits if_splits)
    then have "settled V rc u" if "mv_state V u ?p = Some (val, r)" for u
      using that decode_gen [OF rec(1), of r] by (auto simp: settled_def)
    with g(2) Inr c w' show ?thesis unfolding seen_def by blast
  qed
  show "\<exists>val. seen V (\<lambda>u. mv_state V u ?p = Some (val, r)) w w' \<and> decodeState val = Inr rec \<and>
      \<not> terminal_status (sr_s rec) \<and> sr_s rec \<noteq> StatusMoving \<and> sr_g rec = rc_Generation rc" if "x = Inr (rec, r)"
    using run cur that g(2) w' by (auto simp: Deleter_current_def split: sum.splits if_splits prod.splits)
qed

text \<open>The writes a deletion makes, each a tombstone over the record read.\<close>

lemma tombstone_put:
  assumes L: "store_lawful st V ns" and P: "rely_progress V p"
    and cur: "Deleter_current st ns rc w = (Inr (rec, r), w1)"
    and put: "put_done V (rc_Position rc) old (Some (encodeState (rec\<lparr>sr_s := StatusDeleted\<rparr>), r')) w1 w2" and at: "at_revision r old"
  shows "progress V p w1 w2" and "\<exists>u. settled V rc u \<and> mv_rely V u w2 \<and> progress V p w1 u"
proof -
  note V = lawful_parts(1) [OF L]
  let ?new = "Some (encodeState (rec\<lparr>sr_s := StatusDeleted\<rparr>), r')"
  from Deleter_current_run(3) [OF L cur] obtain val where val:
    "seen V (\<lambda>u. mv_state V u (rc_Position rc) = Some (val, r)) w w1" "decodeState val = Inr rec" by blast
  have old: "old = Some (val, r)" by (rule put_replaces [OF V val(1) put at])
  have new: "gen_of ?new = sr_g rec" "tomb ?new" by (simp_all add: encode_gen terminal_status_def)
  have ge: "gen_of old \<le> gen_of ?new" using decode_gen(1) [OF val(2)] by (simp add: old new)
  show "progress V p w1 w2" by (rule put_progress [OF P put]) (use ge new(2) in simp)
  from put obtain u u' where u: "mv_rely V w1 u" "mv_state V u (rc_Position rc) = old"
    "state_step V (rc_Position rc) ?new u u'" "mv_rely V u' w2" unfolding put_done_def by blast
  have "settled V rc u'" using u(3) new(2) by (simp add: settled_def state_step_def)
  moreover have "progress V p u u'" by (rule state_step_progress [OF u(3)]) (use ge u(2) new(2) in auto)
  ultimately show "\<exists>u. settled V rc u \<and> mv_rely V u w2 \<and> progress V p w1 u"
    using u(4) rely_progressD [OF P u(1)] by (blast intro: progress_trans)
qed

lemma delete_attempts_run:
  assumes L: "store_lawful st V ns" and P: "rely_progress V p" and "delete_attempts st ns rc n w = (x, w')"
  shows "progress V p w w' \<and> (x = None \<longrightarrow> (\<exists>u. progress V p w u \<and> settled V rc u \<and> progress V p u w'))"
  using assms(3)
proof (induction n arbitrary: w)
  case 0
  then show ?case by (auto intro: progress_refl)
next
  case (Suc n)
  have quick: "progress V p a b \<and> (\<exists>u. progress V p a u \<and> settled V rc u \<and> progress V p u b)"
    if "Deleter_current st ns rc a = (Inl None, b)" for a b
    using Deleter_current_run(1,2) [OF L that] rely_progressD [OF P] unfolding seen_def by blast
  have rely: "progress V p a b" if "Deleter_current st ns rc a = (y, b)" for a y b
    using Deleter_current_run(1) [OF L that] by (rule rely_progressD [OF P])
  obtain y w1 where y: "Deleter_current st ns rc w = (y, w1)" by fastforce
  show ?case
  proof (cases y)
    case (Inl e)
    with Suc.prems y quick rely show ?thesis by (cases e) auto
  next
    case (Inr c)
    obtain rec r where c: "c = (rec, r)" by fastforce
    note cur = y [unfolded Inr c]
    obtain z w2 where z: "st_PutState st w1 ns (rc_Position rc) (encodeState (rec\<lparr>sr_s := StatusDeleted\<rparr>)) r = (z, w2)"
      by fastforce
    note o = PutState_outcome [OF L z] and tp = tombstone_put [OF L P cur]
    have p2: "progress V p w w2"
      using o(1,2) tp(1) rely_progressD [OF P] rely [OF cur] by (cases z) (blast intro: progress_trans)+
    show ?thesis
    proof (cases z)
      case zr: (Inr r')
      from o(1) [OF zr] tp(2) obtain u where "settled V rc u" "mv_rely V u w2" "progress V p w1 u" by blast
      with Suc.prems cur z zr p2 rely [OF cur] show ?thesis
        by (auto intro: progress_trans rely_progressD [OF P])
    next
      case (Inl err)
      show ?thesis
      proof (cases "errors_Is err sqs_ErrRevisionMismatch")
        case True
        with Suc.prems cur z Inl have "delete_attempts st ns rc n w2 = (x, w')" by simp
        from Suc.IH [OF this] p2 show ?thesis by (blast intro: progress_trans)
      next
        case False
        obtain d w3 where d: "Deleter_current st ns rc w2 = (d, w3)" by fastforce
        from Suc.prems cur z Inl False d have w3: "w' = w3" "x = None \<longrightarrow> d = Inl None"
          by (auto simp: Deleter_settle_def split: sum.splits option.splits)
        with rely [OF d] quick d p2 show ?thesis by (blast intro: progress_trans)
      qed
    qed
  qed
qed

section \<open>Visibility\<close>

lemma new_deadline_cases:
  assumes "new_deadline rec0 rc t timeout = Inr rec"
  shows "\<not> terminal_status (sr_s rec0)" "sr_s rec0 \<noteq> StatusMoving" "sr_g rec0 = rc_Generation rc" "t < sr_d rec0"
    "rec = rec0\<lparr>sr_d := int64_of (t + timeout * 1000)\<rparr>"
    "sr_d rec \<le> int64_of (sr_r rec0 + Milliseconds MaxVisibilityTimeout)"
  using assms by (auto simp: new_deadline_def Let_def split: if_splits)

text \<open>What a change of visibility may write: over the live record of the handle's own receive, whose
  deadline is ahead, the same record with another deadline.\<close>

definition redated :: "('w, doc) msg_view \<Rightarrow> ('w \<Rightarrow> int) \<Rightarrow> Receipt \<Rightarrow> int \<Rightarrow> 'w \<Rightarrow> 'w \<Rightarrow> bool" where
  "redated V now rc timeout w w' \<longleftrightarrow>
     (\<exists>val r rec0 rec r'.
        put_done V (rc_Position rc) (Some (val, r)) (Some (encodeState rec, r')) w w' \<and>
        decodeState val = Inr rec0 \<and> new_deadline rec0 rc (now w) timeout = Inr rec)"

lemma redated_progress:
  assumes "rely_progress V p" and "redated V now rc timeout w w'"
  shows "progress V p w w'"
proof -
  from assms(2) obtain val r rec0 rec r' where
    put: "put_done V (rc_Position rc) (Some (val, r)) (Some (encodeState rec, r')) w w'" and
    dec: "decodeState val = Inr rec0" and n: "new_deadline rec0 rc (now w) timeout = Inr rec"
    unfolding redated_def by blast
  show ?thesis
    by (rule put_progress [OF assms(1) put])
      (simp add: decode_gen [OF dec] encode_gen new_deadline_cases(5) [OF n])
qed

lemma visibility_attempts_run:
  assumes L: "store_lawful st V ns" and P: "rely_progress V p" and "visibility_attempts st now ns rc timeout n w = (x, w')"
  shows "progress V p w w' \<and>
    (x = None \<longrightarrow> (\<exists>a. progress V p w a \<and> redated V now rc timeout a w'))"
  using assms(3)
proof (induction n arbitrary: w)
  case 0
  then show ?case by (auto intro: progress_refl)
next
  case (Suc n)
  let ?p = "rc_Position rc"
  obtain cur w1 where cur: "st_GetState st w ns ?p = (cur, w1)" by fastforce
  have p1: "progress V p w w1" by (rule rely_progressD [OF P GetState_read(1) [OF L cur]])
  show ?case
  proof (cases "\<exists>val r rec0 rec. cur = Inr (val, r) \<and> decodeState val = Inr rec0 \<and> new_deadline rec0 rc (now w1) timeout = Inr rec")
    case False
    with Suc.prems cur have "w' = w1 \<and> x \<noteq> None" by (auto split: sum.splits prod.splits)
    with p1 show ?thesis by auto
  next
    case True
    then obtain val r rec0 rec where c: "cur = Inr (val, r)" "decodeState val = Inr rec0"
      "new_deadline rec0 rc (now w1) timeout = Inr rec" by blast
    obtain z w2 where z: "st_PutState st w1 ns ?p (encodeState rec) r = (z, w2)" by fastforce
    note o = PutState_outcome [OF L z]
    have rd: "redated V now rc timeout w1 w2"
      if "put_done V ?p old (Some (encodeState rec, r')) w1 w2" "at_revision r old" for old r'
      using put_replaces [OF lawful_parts(1) [OF L] GetState_read(2) [OF L cur c(1)] that] that(1) c(2,3)
      unfolding redated_def by blast
    have p2: "progress V p w1 w2"
      using o(1,2) rd redated_progress [OF P] rely_progressD [OF P] by (cases z) blast+
    show ?thesis
    proof (cases z)
      case (Inr r')
      with Suc.prems cur c z have "x = None" "w' = w2" by auto
      with o(1) [OF Inr] rd p1 p2 show ?thesis by (blast intro: progress_trans)
    next
      case (Inl err)
      show ?thesis
      proof (cases "errors_Is err sqs_ErrRevisionMismatch")
        case True
        with Suc.prems cur c z Inl have "visibility_attempts st now ns rc timeout n w2 = (x, w')" by simp
        from Suc.IH [OF this] p1 p2 show ?thesis by (blast intro: progress_trans)
      next
        case False
        with Suc.prems cur c z Inl have "x \<noteq> None" "w' = w2" by auto
        with p1 p2 show ?thesis by (blast intro: progress_trans)
      qed
    qed
  qed
qed

section \<open>The sweeper\<close>

text \<open>
  What a pass may do to a namespace: nothing beyond what others do, remove the message of a tombstone,
  or remove the record of a message that is gone.
\<close>

inductive sweep_step :: "('w, doc) msg_view \<Rightarrow> 'w \<Rightarrow> 'w \<Rightarrow> bool" for V where
  others: "mv_rely V w w' \<Longrightarrow> sweep_step V w w'"
| body: "mv_body V w p = None \<or> tomb (mv_state V w p) \<Longrightarrow> body_step V p None w w' \<Longrightarrow> sweep_step V w w'"
| state: "mv_body V w p = None \<Longrightarrow> state_step V p None w w' \<Longrightarrow> sweep_step V w w'"

lemma body_gone_steps:
  assumes P: "rely_progress V p" and l: "p \<le> mv_last V w" and t: "mv_body V w p = None \<or> tomb (mv_state V w p)"
    and g: "body_gone V p w w'"
  shows "(sweep_step V)\<^sup>*\<^sup>* w w'"
proof -
  from g obtain u u' where u: "mv_rely V w u" "body_step V p None u u'" "mv_rely V u' w'" unfolding body_gone_def by blast
  have "mv_body V u p = None \<or> tomb (mv_state V u p)" using rely_progressD [OF P u(1)] l t by (auto simp: progress_def)
  then have "sweep_step V u u'" using u(2) by (rule sweep_step.body)
  with sweep_step.others [OF u(1)] sweep_step.others [OF u(3)] show ?thesis
    by (meson converse_rtranclp_into_rtranclp rtranclp.rtrancl_refl)
qed

lemma state_gone_steps:
  assumes P: "rely_progress V p" and l: "p \<le> mv_last V w" and b: "mv_body V w p = None" and d: "put_done V p old None w w'"
  shows "(sweep_step V)\<^sup>*\<^sup>* w w'"
proof -
  from d obtain u u' where u: "mv_rely V w u" "state_step V p None u u'" "mv_rely V u' w'" unfolding put_done_def by blast
  have "mv_body V u p = None" using rely_progressD [OF P u(1)] l b by (auto simp: progress_def)
  then have "sweep_step V u u'" using u(2) by (rule sweep_step.state)
  with sweep_step.others [OF u(1)] sweep_step.others [OF u(3)] show ?thesis
    by (meson converse_rtranclp_into_rtranclp rtranclp.rtrancl_refl)
qed

text \<open>A record belongs to a message that was appended.\<close>

definition states_appended :: "('w, 'v) msg_view \<Rightarrow> bool" where
  "states_appended V \<longleftrightarrow> (\<forall>w p. mv_state V w p \<noteq> None \<longrightarrow> p \<le> mv_last V w)"

lemma sweepOne_run:
  assumes L: "store_lawful st V (ch_Namespace c)" and P: "rely_progress V (ch_Position c)" and S: "states_appended V"
    and T: "\<And>x. is_terminal x \<Longrightarrow> tomb (Some x)" and run: "sweepOne st c is_terminal w = (y, w')"
  shows "(sweep_step V)\<^sup>*\<^sup>* w w'"
proof -
  let ?p = "ch_Position c"
  obtain cur w1 where cur: "st_GetState st w (ch_Namespace c) ?p = (cur, w1)" by fastforce
  note g = GetState_read [OF L cur]
  have r1: "(sweep_step V)\<^sup>*\<^sup>* w w1" using sweep_step.others [OF g(1)] by blast
  show ?thesis
  proof (cases "\<exists>x. cur = Inr x \<and> is_terminal x")
    case False
    with run cur have "w' = w1" by (auto simp: sweepOne_def Let_def split: sum.splits prod.splits)
    with r1 show ?thesis by simp
  next
    case True
    then obtain val r where x: "cur = Inr (val, r)" "is_terminal (val, r)" by auto
    from g(2) [OF x(1)] obtain u where u: "mv_rely V w u" "mv_state V u ?p = Some (val, r)" "mv_rely V u w1"
      unfolding seen_def by blast
    from S u(2) have "?p \<le> mv_last V u" by (simp add: states_appended_def)
    with rely_progressD [OF P u(3)] u(2) T [OF x(2)]
    have l1: "?p \<le> mv_last V w1" "mv_body V w1 ?p = None \<or> tomb (mv_state V w1 ?p)" by (auto simp: progress_def)
    obtain z w2 where z: "st_Delete st w1 (ch_Namespace c) ?p = (z, w2)" by fastforce
    note d = Delete_outcome [OF L z]
    have r2: "(sweep_step V)\<^sup>*\<^sup>* w1 w2"
      using d(1) body_gone_steps [OF P l1] sweep_step.others [of V w1 w2] by blast
    show ?thesis
    proof (cases z)
      case (Inl e)
      with run cur x z have "w' = w2" by (simp add: sweepOne_def)
      with r1 r2 show ?thesis by simp
    next
      case (Inr t)
      have b2: "mv_body V w2 ?p = None"
        using d(2) [OF Inr] seen_gone [OF P l1(1)] body_gone_gone [OF P l1(1)] by blast
      have "progress V ?p w1 w2" using d(1) rely_progressD [OF P] body_gone_progress [OF P] by blast
      with l1(1) have l2: "?p \<le> mv_last V w2" by (simp add: progress_def)
      obtain s w3 where s: "st_DeleteState st w2 (ch_Namespace c) ?p r = (s, w3)" by fastforce
      have r3: "(sweep_step V)\<^sup>*\<^sup>* w2 w3"
        using DeleteState_outcome [OF L s] state_gone_steps [OF P l2 b2] sweep_step.others [of V w2 w3] by blast
      have "w' = w3" using run cur x z Inr s by (auto simp: sweepOne_def split: sum.splits)
      with r1 r2 r3 show ?thesis by simp
    qed
  qed
qed

text \<open>A pass over many namespaces, each step in one of them.\<close>

definition sweeps :: "(Namespace \<Rightarrow> ('w, doc) msg_view) \<Rightarrow> 'w \<Rightarrow> 'w \<Rightarrow> bool" where
  "sweeps V = (\<lambda>a b. \<exists>ns. sweep_step (V ns) a b)\<^sup>*\<^sup>*"

definition sweepable :: "('w, doc) msg_store \<Rightarrow> (Namespace \<Rightarrow> ('w, doc) msg_view) \<Rightarrow> (doc \<times> nat \<Rightarrow> bool) \<Rightarrow> bool" where
  "sweepable st V is_terminal \<longleftrightarrow>
     (\<forall>ns. store_lawful st (V ns) ns \<and> states_appended (V ns) \<and> (\<forall>p. rely_progress (V ns) p)) \<and>
     (\<forall>x. is_terminal x \<longrightarrow> tomb (Some x))"

lemma sweeps_trans: "sweeps V a b \<Longrightarrow> sweeps V b c \<Longrightarrow> sweeps V a c"
  unfolding sweeps_def by (rule rtranclp_trans)

lemma steps_sweeps: "(sweep_step (V ns))\<^sup>*\<^sup>* a b \<Longrightarrow> sweeps V a b"
  unfolding sweeps_def by (rule rtranclp_mono [THEN predicate2D]) auto

lemma sweepOne_sweeps:
  assumes "sweepable st V T" and "sweepOne st c T w = (y, w')"
  shows "sweeps V w w'"
  using assms sweepOne_run [of st "V (ch_Namespace c)" c T w y w'] unfolding sweepable_def by (blast intro: steps_sweeps)

lemma sweep_page_sweeps:
  "sweepable st V T \<Longrightarrow> sweep_page st T cs res w = (y, w') \<Longrightarrow> sweeps V w w'"
proof (induction cs arbitrary: res w)
  case Nil
  then show ?case by (auto simp: sweeps_def)
next
  case (Cons c cs)
  obtain z w1 where z: "sweepOne st c T w = (z, w1)" by fastforce
  note s = sweepOne_sweeps [OF Cons.prems(1) z]
  show ?case
  proof (cases z)
    case (Inl e)
    with Cons.prems z s show ?thesis by simp
  next
    case (Inr b)
    with Cons.prems(2) z Cons.IH [OF Cons.prems(1)] have "sweeps V w1 w'" by simp
    with s show ?thesis by (rule sweeps_trans)
  qed
qed

lemma Scan_sweeps:
  assumes "sweepable st V T" and "st_Scan st w shard from n = (y, w')"
  shows "sweeps V w w'"
proof -
  let ?ns = "\<lparr>MessageShard = shard, StateShard = 0, ns_Queue = []\<rparr>"
  from assms(1) have "Scan_contract st (V ?ns) ?ns" unfolding sweepable_def by (blast dest: lawful_parts(8))
  with assms(2) have "mv_rely (V ?ns) w w'" by (fastforce simp: Scan_contract_def)
  then show ?thesis by (blast intro: steps_sweeps sweep_step.others)
qed

lemma sweep_from_sweeps:
  "sweep_from st shard T n start res w = Some y \<Longrightarrow> sweepable st V T \<Longrightarrow> sweeps V w (snd y)"
proof (induction rule: sweep_from.raw_induct [rotated, consumes 1, case_names step])
  case (step rec st shard T n start res w y)
  obtain x w1 where x: "st_Scan st w shard start n = (x, w1)" by fastforce
  note s1 = Scan_sweeps [OF step.prems x]
  show ?case
  proof (cases x)
    case (Inl e)
    with step.hyps x s1 show ?thesis by auto
  next
    case (Inr page)
    obtain res1 e w2 where r: "sweep_page st T (sp_Changes page) res w1 = ((res1, e), w2)"
      by (cases "sweep_page st T (sp_Changes page) res w1") auto
    note s2 = sweeps_trans [OF s1 sweep_page_sweeps [OF step.prems r]]
    consider "y = ((res1, e), w2)" | "rec st shard T n (sp_Next page) res1 w2 = Some y"
      using step.hyps unfolding x Inr by (cases e; cases "sp_Done page") (simp_all add: r)
    then show ?thesis
    proof cases
      case 1
      with s2 show ?thesis by simp
    next
      case 2
      from s2 step.IH [OF 2 step.prems] show ?thesis by (rule sweeps_trans)
    qed
  qed
qed

section \<open>The operations keep the protocol\<close>

text \<open>Resolving a queue leads to the namespace \<open>ns\<close> and disturbs no message.\<close>

definition resolves ::
  "('t \<Rightarrow> Namespace) \<Rightarrow> ('w \<Rightarrow> string \<Rightarrow> string \<Rightarrow> string \<Rightarrow> 't result \<times> 'w) \<Rightarrow> ('w, doc) msg_view \<Rightarrow> nat \<Rightarrow> Namespace \<Rightarrow> bool" where
  "resolves sel queues V p ns \<longleftrightarrow>
     (\<forall>w a r q x w'. queues w a r q = (x, w') \<longrightarrow> progress V p w w' \<and> (\<forall>t. x = Inr t \<longrightarrow> sel t = ns))"

lemma appended_progress:
  assumes "rely_progress V p" and "appended V ai q w w'"
  shows "progress V p w w'"
proof -
  from assms(2) obtain u u' m where u: "mv_rely V w u" "body_step V q (Some m) u u'" "mv_rely V u' w'"
    unfolding appended_def by blast
  have "progress V p u u'" using u(2) by (auto simp: progress_def body_step_def)
  with rely_progressD [OF assms(1) u(1)] rely_progressD [OF assms(1) u(3)] show ?thesis
    by (blast intro: progress_trans)
qed

lemma Append_progress:
  assumes "store_lawful st V ns" and "rely_progress V p" and "st_Append st w ns ai = (x, w')"
  shows "progress V p w w'"
  using lawful_parts(7) [OF assms(1), unfolded Append_contract_def, rule_format, OF assms(3)]
    appended_progress [OF assms(2)] rely_progressD [OF assms(2)]
  by (cases x) (auto split: if_splits)

lemma open_handle_run:
  assumes "resolves rt_Namespace queues V p ns" and "open_handle queues ring a r q h w = (x, w')"
  shows "progress V p w w'"
    and "x = Inr (ns', rc) \<Longrightarrow> ns' = ns \<and> Receipt_Decode ring h (ns_Queue ns) = Inr rc"
proof -
  obtain y w1 where y: "queues w a r q = (y, w1)" by fastforce
  with assms(2) have "w' = w1" by (auto simp: open_handle_def split: sum.splits)
  with assms(1) y show "progress V p w w'" unfolding resolves_def by blast
  show "ns' = ns \<and> Receipt_Decode ring h (ns_Queue ns) = Inr rc" if "x = Inr (ns', rc)"
    using assms y that unfolding resolves_def
    by (auto simp: open_handle_def split: sum.splits if_splits option.splits)
qed

lemma Delete_run:
  assumes L: "store_lawful st V ns" and P: "rely_progress V p" and Q: "resolves rt_Namespace queues V p ns"
    and d: "co_Store d = Some st" "co_Queues d = Some queues" and run: "Deleter_Delete d i w = (x, w')"
  shows "progress V p w w'"
    and "x = None \<Longrightarrow> \<exists>rc u. Receipt_Decode (the (co_Keys d)) (di_ReceiptHandle i) (ns_Queue ns) = Inr rc \<and>
      progress V p w u \<and> settled V rc u \<and> progress V p u w'"
proof -
  obtain y w1 where y: "open_handle queues (the (co_Keys d)) (di_Account i) (di_Region i) (di_Queue i) (di_ReceiptHandle i) w = (y, w1)"
    by fastforce
  note o = open_handle_run [OF Q y]
  consider (quiet) "w' = w \<or> w' = w1" "x \<noteq> None"
    | (go) rc where "y = Inr (ns, rc)" "delete_attempts st ns rc deleteAttempts w1 = (x, w')"
  proof (cases "ReceiptKeys_Check (co_Keys d) = None \<and> (\<exists>c. y = Inr c)")
    case True
    then obtain ns' rc where rc: "y = Inr (ns', rc)" by auto
    with run d y True o(2) [OF rc] show ?thesis by (intro go [of rc]) (simp_all add: Deleter_Delete_def)
  next
    case False
    with run d y show ?thesis
      by (intro quiet; cases y; cases "ReceiptKeys_Check (co_Keys d)") (auto simp: Deleter_Delete_def)
  qed
  then have "progress V p w w' \<and> (x = None \<longrightarrow> (\<exists>rc u.
      Receipt_Decode (the (co_Keys d)) (di_ReceiptHandle i) (ns_Queue ns) = Inr rc \<and>
      progress V p w u \<and> settled V rc u \<and> progress V p u w'))"
  proof cases
    case quiet
    then show ?thesis using o(1) by (auto intro: progress_refl)
  next
    case go
    with delete_attempts_run [OF L P go(2)] o show ?thesis by (blast intro: progress_trans)
  qed
  then show "progress V p w w'" and "x = None \<Longrightarrow> \<exists>rc u.
      Receipt_Decode (the (co_Keys d)) (di_ReceiptHandle i) (ns_Queue ns) = Inr rc \<and>
      progress V p w u \<and> settled V rc u \<and> progress V p u w'" by blast+
qed

lemma ChangeVisibility_run:
  assumes L: "store_lawful st V ns" and P: "rely_progress V p" and Q: "resolves rt_Namespace queues V p ns"
    and d: "co_Store v = Some st" "co_Queues v = Some queues" and run: "ChangeVisibility v i w = (x, w')"
  shows "progress V p w w'"
    and "x = None \<Longrightarrow> \<exists>rc a. Receipt_Decode (the (co_Keys v)) (vi_ReceiptHandle i) (ns_Queue ns) = Inr rc \<and>
      progress V p w a \<and> redated V (co_now v) rc (vi_VisibilityTimeout i) a w'"
proof -
  obtain y w1 where y: "open_handle queues (the (co_Keys v)) (vi_Account i) (vi_Region i) (vi_Queue i) (vi_ReceiptHandle i) w = (y, w1)"
    by fastforce
  note o = open_handle_run [OF Q y]
  consider (quiet) "w' = w \<or> w' = w1" "x \<noteq> None"
    | (go) rc where "y = Inr (ns, rc)"
        "visibility_attempts st (co_now v) ns rc (vi_VisibilityTimeout i) visibilityAttempts w1 = (x, w')"
  proof (cases "ReceiptKeys_Check (co_Keys v) = None \<and> (\<exists>c. y = Inr c) \<and>
      0 \<le> vi_VisibilityTimeout i \<and> vi_VisibilityTimeout i \<le> MaxVisibilitySeconds")
    case True
    then obtain ns' rc where rc: "y = Inr (ns', rc)" by auto
    with run d y True o(2) [OF rc] show ?thesis by (intro go [of rc]) (simp_all add: ChangeVisibility_def)
  next
    case False
    with run d y show ?thesis
      by (intro quiet; cases y; cases "ReceiptKeys_Check (co_Keys v)") (auto simp: ChangeVisibility_def split: if_splits)
  qed
  then have "progress V p w w' \<and> (x = None \<longrightarrow> (\<exists>rc a.
      Receipt_Decode (the (co_Keys v)) (vi_ReceiptHandle i) (ns_Queue ns) = Inr rc \<and>
      progress V p w a \<and> redated V (co_now v) rc (vi_VisibilityTimeout i) a w'))"
  proof cases
    case quiet
    then show ?thesis using o(1) by (auto intro: progress_refl)
  next
    case go
    with visibility_attempts_run [OF L P go(2)] o show ?thesis by (blast intro: progress_trans)
  qed
  then show "progress V p w w'" and "x = None \<Longrightarrow> \<exists>rc a.
      Receipt_Decode (the (co_Keys v)) (vi_ReceiptHandle i) (ns_Queue ns) = Inr rc \<and>
      progress V p w a \<and> redated V (co_now v) rc (vi_VisibilityTimeout i) a w'" by blast+
qed

section \<open>Sending\<close>

definition mints :: "('w \<Rightarrow> string result \<times> 'w) \<Rightarrow> ('w, doc) msg_view \<Rightarrow> nat \<Rightarrow> bool" where
  "mints newID V p \<longleftrightarrow> (\<forall>w. progress V p w (snd (newID w)))"

text \<open>What a successful send stored.\<close>

definition sent :: "('w, doc) msg_view \<Rightarrow> SendInput \<Rightarrow> SendResult \<Rightarrow> 'w \<Rightarrow> 'w \<Rightarrow> bool" where
  "sent V i res w w' \<longleftrightarrow>
     (\<exists>t attrs enq vis. NewAttributes (si_MessageAttributes i) = Inr attrs \<and>
        appended V
          \<lparr>ai_Body = (if attrs \<noteq> [] then encodePayload attrs (si_Body i) else si_Body i),
           ai_Meta = send_meta i t attrs (sr_MessageID res) enq vis, ai_IdempotencyKey = []\<rparr>
          (sr_Position res) w w')"

lemma check_target_attrs:
  "check_target i t = Inr attrs \<Longrightarrow> NewAttributes (si_MessageAttributes i) = Inr attrs"
  by (auto simp: check_target_def split: if_splits option.splits sum.splits)

lemma Send_run:
  assumes L: "store_lawful st V ns" and P: "rely_progress V p" and Q: "resolves tg_Namespace queues V p ns"
    and N: "mints (sd_newID s) V p"
    and s: "sd_Store s = Some st" "sd_Queues s = Some queues" and run: "Send s i w = (x, w')"
  shows "progress V p w w'" and "x = Inr res \<Longrightarrow> \<exists>a. sent V i res a w'"
proof -
  obtain y w1 where y: "queues w (si_Account i) (si_Region i) (si_Queue i) = (y, w1)" by fastforce
  obtain z w2 where z: "sd_newID s w1 = (z, w2)" by fastforce
  have p1: "progress V p w w1" using Q y unfolding resolves_def by blast
  have p2: "progress V p w1 w2" using N z unfolding mints_def by (metis snd_conv)
  consider (quiet) "w' = w \<or> w' = w1 \<or> w' = w2" "\<forall>r. x \<noteq> Inr r"
    | (go) t attrs mid where "validateRequest i = None" "y = Inr t" "check_target i t = Inr attrs" "z = Inr mid"
  proof (cases "validateRequest i = None \<and> (\<exists>t attrs mid. y = Inr t \<and> check_target i t = Inr attrs \<and> z = Inr mid)")
    case True
    then show ?thesis using go by blast
  next
    case False
    with run s y z show ?thesis
      by (intro quiet; cases y; cases z; cases "validateRequest i") (auto simp: Send_def Let_def split: sum.splits)
  qed
  then have "progress V p w w' \<and> (x = Inr res \<longrightarrow> (\<exists>a. sent V i res a w'))"
  proof cases
    case quiet
    with p1 p2 show ?thesis by (auto intro: progress_refl progress_trans)
  next
    case go
    have ns: "tg_Namespace t = ns" using Q y go(2) unfolding resolves_def by blast
    define delay where "delay = (case si_DelaySeconds i of Some d \<Rightarrow> d | None \<Rightarrow> tg_DelaySeconds t)"
    define ai where "ai = \<lparr>ai_Body = (if attrs \<noteq> [] then encodePayload attrs (si_Body i) else si_Body i),
      ai_Meta = send_meta i t attrs mid (sd_now s w2) (int64_of (sd_now s w2 + delay * 1000)), ai_IdempotencyKey = []\<rparr>"
    obtain b w3 where b: "st_Append st w2 ns ai = (b, w3)" by fastforce
    have w': "w' = w3" "x = Inr res \<Longrightarrow> \<exists>ar. b = Inr ar \<and> \<not> ar_Duplicate ar \<and> sr_Position res = ar_Position ar \<and> sr_MessageID res = mid"
      using run s y z b go ns unfolding ai_def delay_def
      by (auto simp: Send_def Let_def split: sum.splits if_splits)
    have "sent V i res w2 w'" if "x = Inr res"
    proof -
      from w'(2) [OF that] obtain ar where ar: "b = Inr ar" "\<not> ar_Duplicate ar" "sr_Position res = ar_Position ar" "sr_MessageID res = mid"
        by blast
      with lawful_parts(7) [OF L, unfolded Append_contract_def, rule_format, OF b]
      have "appended V ai (sr_Position res) w2 w3" by simp
      with check_target_attrs [OF go(3)] ar(4) w'(1) show ?thesis unfolding sent_def ai_def by blast
    qed
    with Append_progress [OF L P b] p1 p2 w'(1) show ?thesis by (blast intro: progress_trans)
  qed
  then show "progress V p w w'" and "x = Inr res \<Longrightarrow> \<exists>a. sent V i res a w'" by blast+
qed

text \<open>The headers a send writes are those a claim reads.\<close>

lemma readHeaders_fields:
  assumes "readHeaders m = Inr h"
  shows "h_id h = meta_get m MetaID" "go_atoi (meta_get m MetaV) = Some (h_v h)" "h_md5a h = meta_get m MetaMD5A"
  using assms by (auto simp: readHeaders_def Let_def split: option.splits if_splits)

lemma send_meta_fields:
  "meta_get (send_meta i t attrs mid enq vis) MetaID = mid"
  "meta_get (send_meta i t attrs mid enq vis) MetaV = go_itoa (if attrs \<noteq> [] then 2 else 1)"
  "attrs \<noteq> [] \<Longrightarrow> meta_get (send_meta i t attrs mid enq vis) MetaMD5A = Attributes_MD5 attrs"
  "send_meta i t attrs mid enq vis MetaMD5 = Some (hex_encode (md5 (si_Body i)))"
  by (simp_all add: send_meta_def meta_get_def meta_keys MetaVersion_def MetaVersionPlain_def Let_def)

lemma split_sent:
  assumes "NewAttributes ins = Inr attrs" and h: "readHeaders (m_Meta m) = Inr h"
    and m: "m_Meta m = send_meta i t attrs mid enq vis"
      "m_Body m = (if attrs \<noteq> [] then encodePayload attrs (si_Body i) else si_Body i)"
    and sp: "split_payload h m = Inr (msg, as)"
  shows "m_Body msg = si_Body i" "as = attrs" "m_Meta msg = m_Meta m" "m_Position msg = m_Position m" "h_id h = mid"
proof -
  have v: "h_v h = (if attrs \<noteq> [] then 2 else 1)"
    using readHeaders_fields(2) [OF h] by (simp add: m send_meta_fields(2) go_atoi_itoa split: if_splits)
  have md: "attrs \<noteq> [] \<Longrightarrow> h_md5a h = Attributes_MD5 attrs"
    using readHeaders_fields(3) [OF h] by (simp add: m send_meta_fields(3))
  show "h_id h = mid" using readHeaders_fields(1) [OF h] by (simp add: m send_meta_fields(1))
  show "m_Body msg = si_Body i" "as = attrs" "m_Meta msg = m_Meta m" "m_Position msg = m_Position m"
    using sp v md m(2) by (auto simp: split_payload_def MetaVersionPlain_def decodePayload_encode [OF assms(1)] split: if_splits)
qed

end
