(* ===== verification/SqsPolling.thy ===== *)
theory SqsPolling
  imports SqsProtocol
begin

text \<open>
  What a poll, a long poll and a whole receive return: claims that they made, at most as many as asked
  for, those of one message in the order of their generations.
\<close>

section \<open>Polls\<close>

definition keeps :: "('w, doc) msg_view \<Rightarrow> 'w \<Rightarrow> 'w \<Rightarrow> bool" where
  "keeps V w w' \<longleftrightarrow> (\<forall>p. progress V p w w')"

definition protocol :: "('w, doc) msg_view \<Rightarrow> bool" where
  "protocol V \<longleftrightarrow> (\<forall>p. rely_progress V p)"

lemma keeps_refl: "keeps V w w"
  by (simp add: keeps_def progress_refl)

lemma keeps_trans: "keeps V a b \<Longrightarrow> keeps V b c \<Longrightarrow> keeps V a c"
  unfolding keeps_def by (blast intro: progress_trans)

lemma rely_keeps: "protocol V \<Longrightarrow> mv_rely V w w' \<Longrightarrow> keeps V w w'"
  unfolding keeps_def protocol_def by (blast intro: rely_progressD)

abbreviation claim_input :: "poll_input \<Rightarrow> nat \<Rightarrow> ClaimInput" where
  "claim_input i p \<equiv> \<lparr>ci_Namespace = pi_ns i, ci_Position = p, ci_Visibility = pi_vis i, ci_Retention = pi_retention i\<rparr>"

abbreviation claim_pos :: "MessageClaim \<Rightarrow> nat" where
  "claim_pos c \<equiv> m_Position (cl_Message c)"

text \<open>The messages a poll returns are claims it made, and claims of one message have growing generations.\<close>

definition claim_made :: "('w, doc) msg_view \<Rightarrow> poll_input \<Rightarrow> 'w \<Rightarrow> 'w \<Rightarrow> MessageClaim \<Rightarrow> bool" where
  "claim_made V i w w' c \<longleftrightarrow>
     (\<exists>a b. keeps V w a \<and> claimed V (claim_input i (claim_pos c)) c a b \<and> keeps V b w')"

definition taken :: "('w, doc) msg_view \<Rightarrow> ReceiptKeys option \<Rightarrow> poll_input \<Rightarrow> 'w \<Rightarrow> Received list \<Rightarrow> 'w \<Rightarrow> bool" where
  "taken V keys i w out w' \<longleftrightarrow> keeps V w w' \<and>
     (\<exists>cs. list_all2 (\<lambda>r c. Receiver_received keys (ns_Queue (pi_ns i)) c = Inr r) out cs \<and>
        sorted_wrt (\<lambda>c c'. claim_pos c = claim_pos c' \<longrightarrow> cl_Generation c < cl_Generation c') cs \<and>
        (\<forall>c\<in>set cs. claim_made V i w w' c))"

lemma taken_keeps: "taken V keys i w out w1 \<Longrightarrow> keeps V w1 w2 \<Longrightarrow> taken V keys i w out w2"
  unfolding taken_def claim_made_def by (meson keeps_trans)

lemma split_position: "split_payload h m = Inr (msg, attrs) \<Longrightarrow> m_Position msg = m_Position m"
  by (auto simp: split_payload_def split: if_splits sum.splits prod.splits)

lemma claimed_position: "claimed V i c w w' \<Longrightarrow> claim_pos c = ci_Position i"
  unfolding claimed_def using split_position by fastforce

lemma claim_made_order:
  assumes V: "msg_view_ok V" and P: "protocol V" and c: "claim_made V i w w1 c"
    and c': "claimed V (claim_input i (claim_pos c')) c' w1 w2" and pos: "claim_pos c = claim_pos c'"
  shows "cl_Generation c < cl_Generation c'"
proof -
  let ?p = "claim_pos c"
  have R: "rely_progress V ?p" using P by (simp add: protocol_def)
  from c obtain a b where ab: "claimed V (claim_input i ?p) c a b" "keeps V b w1" unfolding claim_made_def by blast
  note g = claimed_gen [OF V R ab(1), simplified]
  have b: "progress V ?p b w1" using ab(2) by (simp add: keeps_def)
  with g(1) have l: "?p \<le> mv_last V w1" by (simp add: progress_def)
  note g' = claimed_gen(3) [OF V R c' _ l] 
  have "mv_body V w1 ?p \<noteq> None" "gen_of (mv_state V w1 ?p) < cl_Generation c'" using g' pos by simp_all
  with b g(1,2) show ?thesis by (auto simp: progress_def)
qed

lemma taken_claim:
  assumes V: "msg_view_ok V" and P: "protocol V" and t: "taken V keys i w out w1"
    and c: "claimed V (claim_input i (claim_pos c)) c w1 w2" "keeps V w1 w2"
    and r: "Receiver_received keys (ns_Queue (pi_ns i)) c = Inr r"
  shows "taken V keys i w (out @ [r]) w2"
proof -
  from t obtain cs where cs: "list_all2 (\<lambda>r c. Receiver_received keys (ns_Queue (pi_ns i)) c = Inr r) out cs"
    "sorted_wrt (\<lambda>c c'. claim_pos c = claim_pos c' \<longrightarrow> cl_Generation c < cl_Generation c') cs"
    "\<forall>c\<in>set cs. claim_made V i w w1 c" and k: "keeps V w w1" unfolding taken_def by (elim conjE exE)
  have "claim_made V i w w2 c" unfolding claim_made_def by (intro exI conjI, rule k, rule c(1), rule keeps_refl)
  moreover have "claim_made V i w w2 c'" if "c' \<in> set cs" for c'
    using cs(3) that c(2) unfolding claim_made_def by (meson keeps_trans)
  moreover have "claim_pos c' = claim_pos c \<longrightarrow> cl_Generation c' < cl_Generation c" if "c' \<in> set cs" for c'
    using claim_made_order [OF V P _ c(1)] cs(3) that by blast
  ultimately show ?thesis
    unfolding taken_def using cs k c(2) r
    by (intro conjI exI [of _ "cs @ [c]"]) (auto intro: keeps_trans simp: sorted_wrt_append list_all2_appendI)
qed

lemma Claim_keeps:
  assumes "store_lawful st V (ci_Namespace i)" and "protocol V" and "Claimer_Claim (Some st) now i w = (x, w')"
  shows "keeps V w w'" and "x = Inr c \<Longrightarrow> claimed V i c w w'"
  using Claim_run [OF assms(1) _ assms(3)] assms(2) unfolding keeps_def protocol_def by blast+

lemma poll_page_run:
  assumes L: "store_lawful st V (pi_ns i)" and P: "protocol V" and d: "co_Store d = Some st"
  shows "poll_page d i bound chs s w = (x, w') \<Longrightarrow> taken V (co_Keys d) i w0 (po_out s) w \<Longrightarrow> length (po_out s) \<le> pi_want i \<Longrightarrow>
    keeps V w w' \<and> (\<forall>s' cur. x = Inr (s', cur) \<longrightarrow> taken V (co_Keys d) i w0 (po_out s') w' \<and> length (po_out s') \<le> pi_want i)"
proof (induction chs arbitrary: s w)
  case Nil
  then show ?case by (auto intro: keeps_refl)
next
  case (Cons ch chs)
  note V = lawful_parts(1) [OF L]
  have out: "po_out (see_delay t s) = po_out s" "po_out (unsettle err s) = po_out s" for t err
    by (simp_all add: see_delay_def unsettle_def split: option.splits)
  show ?case
  proof (cases "length (po_out s) = pi_want i \<or> ch_Namespace ch \<noteq> pi_ns i \<or> delayedUntil (co_now d w) ch \<noteq> None")
    case True
    show ?thesis
    proof (cases "length (po_out s) = pi_want i")
      case True
      with Cons.prems show ?thesis by (auto intro: keeps_refl)
    next
      case False
      with True Cons.prems obtain s1 where "poll_page d i bound chs s1 w = (x, w')" "po_out s1 = po_out s"
        by (auto simp: out split: if_splits)
      with Cons.IH [of s1 w] Cons.prems show ?thesis by simp
    qed
  next
    case False
    obtain y w1 where y: "Claimer_Claim (Some st) (co_now d) (claim_input i (ch_Position ch)) w = (y, w1)" by fastforce
    note k = Claim_keeps [OF _ P y, simplified, OF L]
    have t1: "taken V (co_Keys d) i w0 (po_out s) w1" by (rule taken_keeps [OF Cons.prems(2) k(1)])
    show ?thesis
    proof (cases y)
      case (Inl err)
      with False Cons.prems(1) y d obtain s1 where "poll_page d i bound chs s1 w1 = (x, w')" "po_out s1 = po_out s"
        by (auto simp: out)
      with Cons.IH [of s1 w1] t1 Cons.prems(3) k(1) show ?thesis by (auto intro: keeps_trans)
    next
      case (Inr c)
      show ?thesis
      proof (cases "Receiver_received (co_Keys d) (ns_Queue (pi_ns i)) c")
        case inl: (Inl err)
        with False Cons.prems(1) y d Inr k(1) show ?thesis by auto
      next
        case inr: (Inr r)
        let ?s = "s\<lparr>po_out := po_out s @ [r]\<rparr>"
        from False Cons.prems(1) y d Inr inr have run: "poll_page d i bound chs ?s w1 = (x, w')" by auto
        have c: "claimed V (claim_input i (claim_pos c)) c w w1" using k(2) [OF Inr] claimed_position by fastforce
        have "taken V (co_Keys d) i w0 (po_out ?s) w1" using taken_claim [OF V P Cons.prems(2) c k(1) inr] by simp
        moreover have "length (po_out ?s) \<le> pi_want i" using False Cons.prems(3) by simp
        ultimately show ?thesis using Cons.IH [OF run] k(1) by (auto intro: keeps_trans)
      qed
    qed
  qed
qed

lemma Scan_keeps:
  assumes "store_lawful st V ns" and "protocol V" and "st_Scan st w (MessageShard ns) cur n = (x, w')"
  shows "keeps V w w'"
  using lawful_parts(8) [OF assms(1), unfolded Scan_contract_def, rule_format, OF assms(3)] rely_keeps [OF assms(2)] by blast

lemma poll_pages_run:
  assumes L: "store_lawful st V (pi_ns i)" and P: "protocol V" and d: "co_Store d = Some st"
  shows "poll_pages st d i n cur fresh s w = (x, w') \<Longrightarrow> taken V (co_Keys d) i w0 (po_out s) w \<Longrightarrow> length (po_out s) \<le> pi_want i \<Longrightarrow>
    keeps V w w' \<and> (\<forall>s' cur. x = Inr (s', cur) \<longrightarrow> taken V (co_Keys d) i w0 (po_out s') w' \<and> length (po_out s') \<le> pi_want i)"
proof (induction n arbitrary: cur fresh s w)
  case 0
  then show ?case by (auto intro: keeps_refl)
next
  case (Suc n)
  have out: "po_out (unsettle err s) = po_out s" for err by (simp add: unsettle_def)
  obtain y w1 where y: "st_Scan st w (MessageShard (pi_ns i)) cur ReceiveScanPage = (y, w1)" by fastforce
  have k1: "keeps V w w1" by (rule Scan_keeps [OF L P y])
  have t1: "taken V (co_Keys d) i w0 (po_out s) w1" by (rule taken_keeps [OF Suc.prems(2) k1])
  show ?case
  proof (cases "pi_want i \<le> length (po_out s)")
    case True
    with Suc.prems show ?thesis by (auto intro: keeps_refl)
  next
    case False
    show ?thesis
    proof (cases y)
      case (Inl err)
      with False Suc.prems y t1 k1 show ?thesis by (auto simp: out)
    next
      case (Inr page)
      obtain z w2 where z: "poll_page d i (sc_Bound (sp_Next page)) (sp_Changes page) s w1 = (z, w2)" by fastforce
      note pg = poll_page_run [OF L P d z t1 Suc.prems(3)]
      show ?thesis
      proof (cases "\<exists>s'. z = Inr (s', None)")
        case True
        then obtain s' where s': "z = Inr (s', None)" by blast
        with pg have t2: "taken V (co_Keys d) i w0 (po_out s') w2" "length (po_out s') \<le> pi_want i" by auto
        have "w' = w2 \<and> x = Inr (s', zero_cursor) \<or> (\<exists>cur fresh. poll_pages st d i n cur fresh s' w2 = (x, w'))"
          using Suc.prems(1) False y Inr z s' by (auto split: if_splits)
        then show ?thesis using Suc.IH [OF _ t2] t2 pg k1 by (auto intro: keeps_trans)
      next
        case no: False
        with Suc.prems(1) False y Inr z have "w' = w2 \<and> (\<forall>s' cur. x = Inr (s', cur) \<longrightarrow> (\<exists>c. z = Inr (s', c)))"
          by (auto split: sum.splits option.splits)
        then show ?thesis using pg k1 by (auto intro: keeps_trans)
      qed
    qed
  qed
qed

lemma poll_run:
  assumes L: "store_lawful st V (pi_ns i)" and P: "protocol V" and d: "co_Store d = Some st"
    and run: "Receiver_poll st d i ps w = (x, ps', w')"
  shows "keeps V w w'" and "x = Inr (out, nxt) \<Longrightarrow> taken V (co_Keys d) i w out w' \<and> length out \<le> pi_want i"
proof -
  let ?s = "\<lparr>po_out = [], po_unsettled = None, po_next = None\<rparr>" and ?c = "Receiver_resume ps (ns_Queue (pi_ns i))"
  obtain y w1 where y: "poll_pages st d i ReceiveScanPages ?c (?c = zero_cursor) ?s w = (y, w1)" by fastforce
  have "taken V (co_Keys d) i w (po_out ?s) w" by (simp add: taken_def keeps_refl)
  from poll_pages_run [OF L P d y this] have r: "keeps V w w1"
    "\<And>s' cur. y = Inr (s', cur) \<Longrightarrow> taken V (co_Keys d) i w (po_out s') w1 \<and> length (po_out s') \<le> pi_want i" by auto
  have w': "w' = w1" using run y by (auto simp: Receiver_poll_def Let_def split: sum.splits)
  with r(1) show "keeps V w w'" by simp
  assume "x = Inr (out, nxt)"
  with run y obtain s' cur where "y = Inr (s', cur)" "out = po_out s'"
    by (auto simp: Receiver_poll_def Let_def split: sum.splits option.splits if_splits)
  with r(2) w' show "taken V (co_Keys d) i w out w' \<and> length out \<le> pi_want i" by simp
qed

text \<open>An environment that disturbs no message, and what a long poll returns under it.\<close>

definition quiet_env :: "'w wait_env \<Rightarrow> ('w, doc) msg_view \<Rightarrow> bool" where
  "quiet_env e V \<longleftrightarrow> (\<forall>w. (\<forall>sh n. keeps V w (snd (we_open e sh n w))) \<and> (\<forall>n. keeps V w (snd (we_nap e n w))) \<and>
     keeps V w (snd (we_close e w)))"

definition polled_empty :: "('w, doc) msg_store \<Rightarrow> 'w consumer \<Rightarrow> poll_input \<Rightarrow> bool" where
  "polled_empty st d i \<longleftrightarrow> (\<exists>ps w nxt ps' w'. Receiver_poll st d i ps w = (Inr ([], nxt), ps', w'))"

lemma taken_start: "keeps V w0 w \<Longrightarrow> taken V keys i w out w' \<Longrightarrow> taken V keys i w0 out w'"
  unfolding taken_def claim_made_def by (meson keeps_trans)

lemma taken_Nil: "keeps V w w' \<Longrightarrow> taken V keys i w [] w'"
  by (simp add: taken_def)

lemma stop_keeps: "quiet_env e V \<Longrightarrow> stop_feed e w = (x, w') \<Longrightarrow> keeps V w w'"
  by (auto simp: quiet_env_def stop_feed_def split: prod.splits dest: spec [of _ w])

lemma endErr_keeps: "quiet_env e V \<Longrightarrow> Receiver_endErr e err checked w = (x, w') \<Longrightarrow> keeps V w w' \<and> (x = None \<longrightarrow> checked)"
  by (auto simp: Receiver_endErr_def intro: keeps_refl stop_keeps split: option.splits if_splits)

definition receive_ok ::
  "('w, doc) msg_view \<Rightarrow> ('w, doc) msg_store \<Rightarrow> 'w consumer \<Rightarrow> poll_input \<Rightarrow> bool \<Rightarrow> 'w \<Rightarrow> Received list result \<Rightarrow> 'w \<Rightarrow> bool" where
  "receive_ok V st d i checked w x w' \<longleftrightarrow> keeps V w w' \<and>
     (\<forall>out. x = Inr out \<longrightarrow> taken V (co_Keys d) i w out w' \<and> length out \<le> pi_want i \<and> (out = [] \<longrightarrow> checked \<or> polled_empty st d i))"

lemma receive_ok_start:
  "keeps V w0 w \<Longrightarrow> receive_ok V st d i checked w x w' \<Longrightarrow> (checked \<Longrightarrow> checked' \<or> polled_empty st d i) \<Longrightarrow>
   receive_ok V st d i checked' w0 x w'"
  unfolding receive_ok_def by (blast intro: keeps_trans taken_start)

lemma receive_ok_none:
  "keeps V w w' \<Longrightarrow> (z = None \<Longrightarrow> checked \<or> polled_empty st d i) \<Longrightarrow> receive_ok V st d i checked w (none_or_error z) w'"
  by (auto simp: receive_ok_def none_or_error_def taken_Nil split: option.splits)

lemma longPoll_from_run:
  "longPoll_from e rk st d i checked ps w = Some y \<Longrightarrow>
   store_lawful st V (pi_ns i) \<Longrightarrow> protocol V \<Longrightarrow> co_Store d = Some st \<Longrightarrow> quiet_env e V \<Longrightarrow>
   receive_ok V st d i checked w (fst y) (snd (snd y))"
proof (induction rule: longPoll_from.raw_induct [rotated, consumes 1, case_names step])
  case (step rec e rk st d i checked ps w y)
  note hyps = step.prems
  obtain z ps1 w1 where z: "Receiver_poll st d i ps w = (z, ps1, w1)" by (cases "Receiver_poll st d i ps w") auto
  note pr = poll_run [OF hyps(1-3) z]
  show ?case
  proof (cases z)
    case (Inl err)
    obtain v w2 where v: "Receiver_endErr e err checked w1 = (v, w2)" by fastforce
    with step.hyps z Inl have y: "y = (none_or_error v, ps1, w2)" by simp
    from endErr_keeps [OF hyps(4) v] pr(1) show ?thesis
      unfolding y by (auto intro!: receive_ok_none intro: keeps_trans)
  next
    case (Inr on)
    obtain out nxt where on: "on = (out, nxt)" by fastforce
    obtain b w2 where b: "we_nap e (nap_length rk nxt (co_now d w1)) w1 = (b, w2)" by fastforce
    have k2: "keeps V w1 w2" using hyps(4) b unfolding quiet_env_def by (metis snd_conv)
    have pe: "polled_empty st d i" if "out = []" using z Inr on that unfolding polled_empty_def by blast
    consider (full) "out \<noteq> []" "y = (Inr out, ps1, w1)"
      | (again) "out = []" "rec e rk st d i True ps1 w2 = Some y"
      | (caller) cerr where "y = (Inl cerr, ps1, w2)"
      | (over) v w3 where "out = []" "stop_feed e w2 = (v, w3)" "y = (none_or_error v, ps1, w3)"
      using step.hyps unfolding z Inr on
      by (cases "stop_feed e w2"; cases "we_caller e w2"; cases b; cases "out = []") (auto simp: b)
    then show ?thesis
    proof cases
      case full
      with pr Inr on show ?thesis by (simp add: receive_ok_def)
    next
      case again
      from step.IH [OF again(2) hyps] pr(1) k2 pe [OF again(1)] show ?thesis
        by (blast intro: receive_ok_start keeps_trans)
    next
      case caller
      with pr(1) k2 show ?thesis by (auto simp: receive_ok_def intro: keeps_trans)
    next
      case over
      with pr(1) k2 stop_keeps [OF hyps(4) over(2)] pe show ?thesis
        by (auto intro!: receive_ok_none intro: keeps_trans)
    qed
  qed
qed

lemma longPoll_run:
  assumes L: "store_lawful st V (pi_ns i)" and P: "protocol V" and d: "co_Store d = Some st" and E: "quiet_env e V"
    and run: "Receiver_longPoll e rk st d i wait ps w = Some (x, ps', w')"
  shows "receive_ok V st d i False w x w'"
proof -
  obtain y w1 where y: "we_open e (MessageShard (pi_ns i)) wait w = (y, w1)" by fastforce
  have k: "keeps V w w1" using E y unfolding quiet_env_def by (metis snd_conv)
  show ?thesis
  proof (cases y)
    case (Inl err)
    with run y k show ?thesis by (auto simp: Receiver_longPoll_def receive_ok_def split: option.splits)
  next
    case (Inr u)
    with run y have "longPoll_from e rk st d i False ps w1 = Some (x, ps', w')" by (simp add: Receiver_longPoll_def)
    from longPoll_from_run [OF this L P d E] k show ?thesis by (auto intro: receive_ok_start)
  qed
qed

lemma Receive_run:
  assumes L: "store_lawful st V ns" and P: "protocol V" and Q: "\<forall>p. resolves rt_Namespace queues V p ns"
    and E: "quiet_env e V" and d: "co_Store d = Some st" "co_Queues d = Some queues"
    and run: "Receiver_Receive e rk d i ps w = Some (Inr out, ps', w')"
  shows "\<exists>vis ret. receive_ok V st d
    \<lparr>pi_ns = ns, pi_want = nat (case ri_MaxNumberOfMessages i of None \<Rightarrow> 1 | Some n \<Rightarrow> n), pi_vis = vis, pi_retention = ret\<rparr> False
    w (Inr out) w'"
proof -
  obtain y w1 where y: "queues w (ri_Account i) (ri_Region i) (ri_Queue i) = (y, w1)" by fastforce
  have k: "keeps V w w1" using Q y unfolding resolves_def keeps_def by blast
  obtain want override where v: "validateReceive i = Inr (want, override)" and c: "ReceiptKeys_Check (co_Keys d) = None"
    using run d by (cases "validateReceive i"; cases "ReceiptKeys_Check (co_Keys d)") (auto simp: Receiver_Receive_def)
  have want: "want = (case ri_MaxNumberOfMessages i of None \<Rightarrow> 1 | Some n \<Rightarrow> n)"
    using v by (auto simp: validateReceive_def Let_def split: if_splits)
  obtain t where t: "y = Inr t" using run d v c y by (cases y) (auto simp: Receiver_Receive_def)
  have ns: "rt_Namespace t = ns" using Q y t unfolding resolves_def by blast
  obtain vis ret wait where tm: "receiveTiming (ri_Account i) t override (ri_WaitTimeSeconds i) = Inr (vis, ret, wait)"
    using run d v c y t by (cases "receiveTiming (ri_Account i) t override (ri_WaitTimeSeconds i)") (auto simp: Receiver_Receive_def)
  define pin where "pin = \<lparr>pi_ns = ns, pi_want = nat want, pi_vis = vis, pi_retention = ret\<rparr>"
  have L': "store_lawful st V (pi_ns pin)" using L by (simp add: pin_def)
  have "receive_ok V st d pin False w1 (Inr out) w'"
  proof (cases "wait = 0")
    case True
    with run d v c y t tm obtain nxt where "Receiver_poll st d pin ps w1 = (Inr (out, nxt), ps', w')"
      by (auto simp: Receiver_Receive_def Let_def ns pin_def split: prod.splits sum.splits)
    with poll_run [OF L' P d(1)] show ?thesis unfolding receive_ok_def polled_empty_def by blast
  next
    case False
    with run d v c y t tm have "Receiver_longPoll e rk st d pin wait ps w1 = Some (Inr out, ps', w')"
      by (simp add: Receiver_Receive_def Let_def ns pin_def)
    then show ?thesis by (rule longPoll_run [OF L' P d(1) E])
  qed
  with k have "receive_ok V st d pin False w (Inr out) w'" by (auto intro: receive_ok_start)
  then show ?thesis unfolding pin_def want by blast
qed

end
