(* ===== verification/Sqs_Claims.thy ===== *)
theory Sqs_Claims
  imports SqsPolling
begin

text \<open>
  The properties of the queue's messages: what a receive takes, that receives of one message are
  ordered, that deletions are final, what a change of visibility and a sweep may write, and that a
  message is received as it was sent. The examples run on the store in memory.
\<close>

section \<open>Examples\<close>

text \<open>A record the service wrote decodes to what was written.\<close>

lemma decodeState_encodeState:
  assumes "sr_v rec = 1" "sr_s rec = StatusInflight" "inflight_complete rec" "sr_c rec < 2 ^ 64" "sr_g rec < 2 ^ 64"
    "sr_d rec < 2 ^ 63" "sr_r rec < 2 ^ 63" "sr_f rec < 2 ^ 63"
  shows "decodeState (encodeState rec) = Inr (rec\<lparr>sr_raw := the (encodeState rec)\<rparr>)"
proof -
  have "int (sr_c rec) < 2 ^ 64" "int (sr_g rec) < 2 ^ 64"
    using assms(4,5) by (metis of_nat_less_numeral_power_cancel_iff)+
  then show ?thesis
    using assms by (cases rec)
      (simp add: decodeState_def encodeState_def int_field_def uint_field_def string_field_def or_zero_def Let_def
        inflight_complete_def StateVersion_def)
qed

text \<open>A claim on the store in memory.\<close>

definition mem_state :: "slot \<Rightarrow> (doc \<times> nat) result" where
  "mem_state s = (case slot_state s of None \<Rightarrow> no_slot | Some x \<Rightarrow> Inr x)"

definition mem_rev :: "slot \<Rightarrow> nat" where
  "mem_rev s = (case slot_state s of None \<Rightarrow> 0 | Some (_, r) \<Rightarrow> r)"

lemma mem_claims:
  assumes s: "slot_at w (ci_Namespace i) (ci_Position i) = Some s" "sl_msg s = Some (body, m)"
    and h: "readHeaders m = Inr h" "h_v h = 1" and i: "check_claim i = None"
    and t: "mm_time w < int64_of (h_enq h + Milliseconds (ci_Retention i))"
    and c: "claim_state h (mem_state s) (mm_time w) = Inr (rec0, r0)"
    and m: "sr_c rec0 < MaxUint64" "sr_g rec0 < MaxUint64"
    and d: "ci_Visibility i = 0 \<or> mm_time w < int64_of (mm_time w + Milliseconds (ci_Visibility i))"
    and rec: "rec = advance rec0 (mm_time w) (ci_Visibility i)"
  shows "Claimer_Claim (Some mem_store) mm_time i w =
    (Inr \<lparr>cl_Message = \<lparr>m_Position = ci_Position i, m_Body = body, m_Meta = m\<rparr>, cl_Attributes = [], cl_MessageID = h_id h,
          cl_ReceiveCount = sr_c rec, cl_Generation = sr_g rec, cl_Deadline = sr_d rec, cl_ReceivedAt = sr_r rec,
          cl_FirstReceive = sr_f rec, cl_Revision = length (sl_hist s) + 1\<rparr>,
     set_slot (ci_Position i) (s\<lparr>sl_hist := sl_hist s @ [encodeState rec], sl_live := True\<rparr>) w)"
proof -
  have r0: "r0 = mem_rev s"
    using claim_state_cases [OF c] by (auto simp: mem_state_def mem_rev_def split: option.splits)
  have st: "mem_GetState w (ci_Namespace i) (ci_Position i) = (mem_state s, w)"
    by (simp add: mem_GetState_def s mem_state_def)
  let ?s = "s\<lparr>sl_hist := sl_hist s @ [encodeState rec], sl_live := True\<rparr>"
  have put: "mem_PutState w (ci_Namespace i) (ci_Position i) (encodeState rec) r0 =
      (Inr (length (sl_hist s) + 1), set_slot (ci_Position i) ?s w)"
    by (simp add: mem_PutState_def s r0 mem_rev_def)
  have sl: "slot_at (set_slot (ci_Position i) ?s w) (ci_Namespace i) (ci_Position i) = Some ?s"
    using slot_at_set [OF s(1), of ?s] slot_at_ns [OF s(1)] by simp
  have "mm_time (set_slot p s' w) = mm_time w" for p s' by (simp add: set_slot_def)
  then show ?thesis
    using i h t c m d s st put sl
    by (auto simp: Claimer_Claim_def claim_write_def recheckBody_def mem_Get_def slot_body_def split_payload_def
        MetaVersionPlain_def Let_def rec advance_def MaxUint64_def)
qed

definition ex_ns :: Namespace where
  "ex_ns = \<lparr>MessageShard = 0, StateShard = 0, ns_Queue = ''q''\<rparr>"

definition ex_meta :: meta where
  "ex_meta = [MetaV \<mapsto> ''1'', MetaID \<mapsto> ''id'', MetaEnq \<mapsto> ''1000'', MetaVis \<mapsto> ''2000'', MetaSender \<mapsto> ''me'',
     MetaMD5 \<mapsto> ''5d41402abc4b2a76b9719d911017c592'', MetaAcct \<mapsto> ''1'']"

definition ex_slot :: "doc list \<Rightarrow> slot" where
  "ex_slot hs = \<lparr>sl_ns = ex_ns, sl_msg = Some (''hello'', ex_meta), sl_hist = hs, sl_live = (hs \<noteq> [])\<rparr>"

definition ex_mem :: "doc list \<Rightarrow> int \<Rightarrow> msg_mem" where
  "ex_mem hs t = \<lparr>mm_slots = [ex_slot hs], mm_time = t\<rparr>"

definition ex_in :: ClaimInput where
  "ex_in = \<lparr>ci_Namespace = ex_ns, ci_Position = 1, ci_Visibility = 30 * Second, ci_Retention = 345600 * Second\<rparr>"

definition ex_first :: stateRecord where
  "ex_first = advance zero_state 5000 (30 * Second)"

definition ex_next :: "stateRecord \<Rightarrow> int \<Rightarrow> stateRecord" where
  "ex_next rec t = advance (rec\<lparr>sr_raw := the (encodeState rec)\<rparr>) t (30 * Second)"

lemma ex_headers:
  "readHeaders ex_meta = Inr \<lparr>h_v = 1, h_id = ''id'', h_enq = 1000, h_vis = 2000, h_rc = 0, h_md5a = []\<rparr>"
  by (simp add: readHeaders_def ex_meta_def meta_get_def meta_keys decimal_eval md5Hex_def is_hex_def Let_def
      MetaVersion_def MetaVersionPlain_def)

lemma ex_slot_at: "slot_at (ex_mem hs t) ex_ns 1 = Some (ex_slot hs)"
  by (simp add: slot_at_def ex_mem_def ex_slot_def)

lemma ex_set: "hs' \<noteq> [] \<Longrightarrow> set_slot 1 (ex_slot hs\<lparr>sl_hist := hs', sl_live := True\<rparr>) (ex_mem hs t) = ex_mem hs' t"
  by (simp add: set_slot_def ex_mem_def ex_slot_def)

lemma ex_valid: "Namespace_Validate ex_ns = None"
  by (simp add: Namespace_Validate_def ex_ns_def MaxQueueIDLen_def runes_of.simps decode_rune_def isQueueIDRune_def within_def
      byte_at_def Let_def)

lemma ex_check: "check_claim ex_in = None"
  using ex_valid by (simp add: check_claim_def ex_in_def MaxVisibilityTimeout_def)

lemma ex_claim:
  assumes t: "0 < t" "t < 345601000" and c: "claim_state (projr (readHeaders ex_meta)) (mem_state (ex_slot hs)) t = Inr (rec0, r0)"
    and m: "sr_c rec0 < 1000" "sr_g rec0 < 1000"
  shows "\<exists>c. Claimer_Claim (Some mem_store) mm_time ex_in (ex_mem hs t) =
      (Inr c, ex_mem (hs @ [encodeState (advance rec0 t (30 * Second))]) t) \<and>
      cl_Generation c = sr_g rec0 + 1 \<and> cl_ReceivedAt c = t \<and> cl_Message c = \<lparr>m_Position = 1, m_Body = ''hello'', m_Meta = ex_meta\<rparr> \<and>
      cl_Deadline c = t + 30000"
proof -
  have ms: "Milliseconds 30000000000 = 30000" "Milliseconds 345600000000000 = 345600000" by (simp_all add: Milliseconds_def)
  have i: "int64_of (t + 30000) = t + 30000" "int64_of 345601000 = 345601000" using t by (simp_all add: int64_of_def)
  have s: "slot_at (ex_mem hs t) (ci_Namespace ex_in) (ci_Position ex_in) = Some (ex_slot hs)"
    using ex_slot_at by (simp add: ex_in_def)
  have b: "sl_msg (ex_slot hs) = Some (''hello'', ex_meta)" by (simp add: ex_slot_def)
  have tm: "mm_time (ex_mem hs t) = t" by (simp add: ex_mem_def)
  have mx: "sr_c rec0 < MaxUint64" "sr_g rec0 < MaxUint64" using m by (simp_all add: MaxUint64_def)
  have "set_slot (ci_Position ex_in) (ex_slot hs\<lparr>sl_hist := sl_hist (ex_slot hs) @ [x], sl_live := True\<rparr>) (ex_mem hs t) =
      ex_mem (hs @ [x]) t" for x
    using ex_set [of "hs @ [x]" hs t] by (simp add: ex_in_def ex_slot_def)
  with mem_claims [OF s b ex_headers _ ex_check _ _ mx _ refl, of r0] c i t show ?thesis
    by (simp add: tm ex_headers ex_in_def ms)
qed

lemma zero_state_fields: "sr_c zero_state = 0" "sr_g zero_state = 0"
  by (simp_all add: zero_state_def)

lemma ex_claim_first:
  "\<exists>c. Claimer_Claim (Some mem_store) mm_time ex_in (ex_mem [] 5000) = (Inr c, ex_mem [encodeState ex_first] 5000) \<and>
     cl_Generation c = 1 \<and> cl_ReceivedAt c = 5000 \<and>
     cl_Message c = \<lparr>m_Position = 1, m_Body = ''hello'', m_Meta = ex_meta\<rparr> \<and> cl_Deadline c = 35000"
proof -
  have "claim_state (projr (readHeaders ex_meta)) (mem_state (ex_slot [])) 5000 = Inr (zero_state, 0)"
    by (simp add: claim_state_def mem_state_def slot_state_def ex_slot_def ex_headers zero_state_def)
  from ex_claim [OF _ _ this] show ?thesis by (simp add: zero_state_fields ex_first_def)
qed

lemma ex_claim_next:
  assumes rec: "sr_v rec = 1" "sr_s rec = StatusInflight" "inflight_complete rec" "sr_c rec < 1000" "sr_g rec < 1000"
    "sr_d rec < 2 ^ 63" "sr_r rec < 2 ^ 63" "sr_f rec < 2 ^ 63"
    and t: "0 < t" "t < 345601000" "sr_d rec \<le> t"
  shows "\<exists>c. Claimer_Claim (Some mem_store) mm_time ex_in (ex_mem (hs @ [encodeState rec]) t) =
      (Inr c, ex_mem (hs @ [encodeState rec, encodeState (ex_next rec t)]) t) \<and> cl_Generation c = sr_g rec + 1"
proof -
  have "decodeState (encodeState rec) = Inr (rec\<lparr>sr_raw := the (encodeState rec)\<rparr>)"
    by (rule decodeState_encodeState) (use rec in simp_all)
  then have "claim_state (projr (readHeaders ex_meta)) (mem_state (ex_slot (hs @ [encodeState rec]))) t =
      Inr (rec\<lparr>sr_raw := the (encodeState rec)\<rparr>, length hs + 1)"
    using t rec by (simp add: claim_state_def mem_state_def slot_state_def ex_slot_def statuses)
  from ex_claim [OF t(1,2) this] rec show ?thesis by (auto simp: ex_next_def)
qed

lemma ex_first_fields:
  "sr_v ex_first = 1" "sr_s ex_first = StatusInflight" "inflight_complete ex_first" "sr_c ex_first = 1" "sr_g ex_first = 1"
  "sr_d ex_first = 35000" "sr_r ex_first = 5000" "sr_f ex_first = 5000"
  by (simp_all add: ex_first_def advance_def zero_state_def inflight_complete_def StateVersion_def Milliseconds_def int64_of_def)

lemma ex_next_fields:
  assumes "inflight_complete rec" "0 < t" "t < 345601000" "sr_f rec \<le> t"
  shows "sr_v (ex_next rec t) = 1" "sr_s (ex_next rec t) = StatusInflight" "inflight_complete (ex_next rec t)"
    "sr_c (ex_next rec t) = sr_c rec + 1" "sr_g (ex_next rec t) = sr_g rec + 1" "sr_d (ex_next rec t) = t + 30000"
    "sr_r (ex_next rec t) = t" "sr_f (ex_next rec t) = sr_f rec"
  using assms by (auto simp: ex_next_def advance_def inflight_complete_def StateVersion_def Milliseconds_def int64_of_def)

lemma mem_protocol: "protocol (mem_queue ns)"
  by (auto simp: protocol_def rely_progress_def progress_refl)

lemma mem_rely_progress: "rely_progress (mem_queue ns) p"
  using mem_protocol by (simp add: protocol_def)

lemma mem_time_progress: "mm_slots w = mm_slots w' \<Longrightarrow> progress (mem_queue ns) p w w'"
  by (simp add: progress_def mem_queue_def slot_at_def)

lemma mem_states_appended: "states_appended (mem_queue ns)"
  by (auto simp: states_appended_def mem_queue_def slot_at_def split: bind_splits if_splits)

section \<open>Receives\<close>




text \<open>Two claims of the example's message, the second after the first one's deadline.\<close>

lemma ex_second:
  "\<exists>c. Claimer_Claim (Some mem_store) mm_time ex_in (ex_mem [encodeState ex_first] 40000) =
     (Inr c, ex_mem [encodeState ex_first, encodeState (ex_next ex_first 40000)] 40000) \<and> cl_Generation c = 2"
  using ex_claim_next [of ex_first 40000 "[]"] ex_first_fields by (simp add: numeral_2_eq_2)

lemma ex_third:
  "\<exists>c. Claimer_Claim (Some mem_store) mm_time ex_in
      (ex_mem [encodeState ex_first, encodeState (ex_next ex_first 40000)] 80000) =
     (Inr c, ex_mem [encodeState ex_first, encodeState (ex_next ex_first 40000),
        encodeState (ex_next (ex_next ex_first 40000) 80000)] 80000) \<and> cl_Generation c = 3"
  using ex_claim_next [of "ex_next ex_first 40000" 80000 "[encodeState ex_first]"]
    ex_next_fields [of ex_first 40000] ex_first_fields by (simp add: numeral_3_eq_3)

lemma ex_pass: "progress (mem_queue ns) p (ex_mem hs t) (ex_mem hs t')"
  by (rule mem_time_progress) (simp add: ex_mem_def)

lemma ex_in_fields: "ci_Namespace ex_in = ex_ns" "ci_Position ex_in = 1"
  by (simp_all add: ex_in_def)


section \<open>Deletions\<close>


definition ex_ring :: ReceiptKeys where
  "ex_ring = \<lparr>rk_signing = 1, rk_keys = [1 \<mapsto> replicate 32 (CHR ''k'')]\<rparr>"

definition ex_target :: ReceiveTarget where
  "ex_target = \<lparr>rt_Namespace = ex_ns, rt_Account = ''1'', rt_VisibilityTimeout = 30, rt_MessageRetentionPeriod = 345600,
     rt_ReceiveWaitTime = 0\<rparr>"

definition ex_queues :: "msg_mem receive_queues" where
  "ex_queues w a r q = (Inr ex_target, w)"

definition ex_consumer :: "msg_mem consumer" where
  "ex_consumer = \<lparr>co_Store = Some mem_store, co_Queues = Some ex_queues, co_Keys = Some ex_ring, co_now = mm_time\<rparr>"

lemma ex_consumer_fields:
  "co_Store ex_consumer = Some mem_store" "co_Queues ex_consumer = Some ex_queues" "co_Keys ex_consumer = Some ex_ring"
  "co_now ex_consumer = mm_time"
  by (simp_all add: ex_consumer_def)

lemma ex_resolves: "resolves rt_Namespace ex_queues (mem_queue ns) p ex_ns"
  by (auto simp: resolves_def ex_queues_def ex_target_def progress_refl)

lemma ex_ring_check: "ReceiptKeys_Check (Some ex_ring) = None"
  by (simp add: ReceiptKeys_Check_def ex_ring_def MinReceiptKeyLen_def)

abbreviation ex_receipt :: "nat \<Rightarrow> Receipt" where
  "ex_receipt g \<equiv> \<lparr>rc_Queue = ''q'', rc_Position = 1, rc_Generation = g\<rparr>"

lemma ex_handle: "0 < g \<Longrightarrow> g < 1000 \<Longrightarrow> \<exists>h. Receipt_Encode (Some ex_ring) (ex_receipt g) = Inr h \<and> Receipt_Decode ex_ring h ''q'' = Inr (ex_receipt g)"
proof -
  assume g: "0 < g" "g < 1000"
  have "Namespace_Validate \<lparr>MessageShard = 0, StateShard = 0, ns_Queue = ''q''\<rparr> = None" using ex_valid by (simp add: ex_ns_def)
  then obtain h where h: "Receipt_Encode (Some ex_ring) (ex_receipt g) = Inr h"
    using g ex_ring_check by (auto simp: Receipt_Encode_def Let_def)
  with Decode_Encode [OF h refl] g have "Receipt_Decode ex_ring h ''q'' = Inr (ex_receipt g)" by (simp add: ex_ring_def)
  with h show ?thesis by blast
qed

lemma ex_open:
  assumes "Receipt_Decode ex_ring h ''q'' = Inr rc"
  shows "open_handle ex_queues ex_ring ''1'' r q h w = (Inr (ex_ns, rc), w)"
  using assms ex_valid by (simp add: open_handle_def ex_queues_def ex_target_def ex_ns_def)

abbreviation ex_delete :: "string \<Rightarrow> DeleteInput" where
  "ex_delete h \<equiv> \<lparr>di_Account = ''1'', di_Region = ''r'', di_Queue = ''q'', di_ReceiptHandle = h\<rparr>"

lemma ex_get_state:
  "hs \<noteq> [] \<Longrightarrow> mem_GetState (ex_mem hs t) ex_ns 1 = (Inr (last hs, length hs), ex_mem hs t)"
  using ex_slot_at [of hs t] by (simp add: mem_GetState_def slot_state_def ex_slot_def)

text \<open>Deleting with a handle that a newer receive has replaced succeeds and changes nothing.\<close>

lemma ex_stale_delete:
  assumes "Receipt_Decode ex_ring h ''q'' = Inr (ex_receipt 1)"
  shows "Deleter_Delete ex_consumer (ex_delete h)
      (ex_mem [encodeState ex_first, encodeState (ex_next ex_first 40000)] t) =
    (None, ex_mem [encodeState ex_first, encodeState (ex_next ex_first 40000)] t)"
proof -
  have "decodeState (encodeState (ex_next ex_first 40000)) =
      Inr ((ex_next ex_first 40000)\<lparr>sr_raw := the (encodeState (ex_next ex_first 40000))\<rparr>)"
    by (rule decodeState_encodeState) (simp_all add: ex_next_fields ex_first_fields)
  then have "Deleter_current mem_store ex_ns (ex_receipt 1)
      (ex_mem [encodeState ex_first, encodeState (ex_next ex_first 40000)] t) =
     (Inl None, ex_mem [encodeState ex_first, encodeState (ex_next ex_first 40000)] t)"
    using ex_get_state [of "[encodeState ex_first, encodeState (ex_next ex_first 40000)]" t]
    by (simp add: Deleter_current_def ex_next_fields ex_first_fields statuses terminal_status_def)
  then have "delete_attempts mem_store ex_ns (ex_receipt 1) (Suc 4)
      (ex_mem [encodeState ex_first, encodeState (ex_next ex_first 40000)] t) =
     (None, ex_mem [encodeState ex_first, encodeState (ex_next ex_first 40000)] t)"
    by (simp only: delete_attempts.simps prod.case sum.case)
  then show ?thesis
    using ex_open [OF assms] ex_ring_check by (simp add: Deleter_Delete_def ex_consumer_fields deleteAttempts_def)
qed


section \<open>Visibility\<close>

lemma decode_status:
  assumes "decodeState val = Inr rec" and "\<not> terminal_status (sr_s rec)" and "sr_s rec \<noteq> StatusMoving"
  shows "sr_s rec = StatusInflight"
  using assms by (cases val) (auto simp: decodeState_def terminal_status_def Let_def split: option.splits if_splits)


abbreviation ex_change :: "string \<Rightarrow> ChangeVisibilityInput" where
  "ex_change h \<equiv> \<lparr>vi_Account = ''1'', vi_Region = ''r'', vi_Queue = ''q'', vi_ReceiptHandle = h, vi_VisibilityTimeout = 100\<rparr>"

lemma ex_change_runs:
  assumes "Receipt_Decode ex_ring h ''q'' = Inr (ex_receipt 1)"
  shows "fst (ChangeVisibility ex_consumer (ex_change h) (ex_mem [encodeState ex_first] 10000)) = None"
proof -
  have "decodeState (encodeState ex_first) = Inr (ex_first\<lparr>sr_raw := the (encodeState ex_first)\<rparr>)"
    by (rule decodeState_encodeState) (simp_all add: ex_first_fields)
  then have "fst (visibility_attempts mem_store mm_time ex_ns (ex_receipt 1) 100 (Suc 4) (ex_mem [encodeState ex_first] 10000)) = None"
    using ex_get_state [of "[encodeState ex_first]" 10000] ex_slot_at [of "[encodeState ex_first]" 10000]
    unfolding visibility_attempts.simps(2)
    by (simp add: ex_mem_def new_deadline_def ex_first_fields terminal_status_def statuses Let_def int64_of_def Milliseconds_def
        MaxVisibilityTimeout_def mem_PutState_def slot_state_def ex_slot_def)
  then show ?thesis
    using ex_open [OF assms] ex_ring_check
    by (simp add: ChangeVisibility_def ex_consumer_fields visibilityAttempts_def MaxVisibilitySeconds_def)
qed


section \<open>The sweeper\<close>


definition ex_dead :: msg_mem where
  "ex_dead = ex_mem [encodeState ex_first, encodeState (ex_first\<lparr>sr_s := StatusDeleted\<rparr>)] 50000"

lemma ex_sweepable: "sweepable mem_store mem_queue (\<lambda>x. tomb (Some x))"
  using mem_lawful mem_states_appended mem_rely_progress by (simp add: sweepable_def)

lemma ex_sweep:
  "\<exists>w'. Sweep mem_store 0 (\<lambda>x. tomb (Some x)) 10 ex_dead = Some ((\<lparr>sw_Scanned = 1, sw_Swept = 1\<rparr>, None), w') \<and>
     map sl_msg (mm_slots w') = [None]"
proof -
  let ?s = "ex_slot [encodeState ex_first, encodeState (ex_first\<lparr>sr_s := StatusDeleted\<rparr>)]"
  have w: "ex_dead = \<lparr>mm_slots = [?s], mm_time = 50000\<rparr>" by (simp add: ex_dead_def ex_mem_def)
  have scan: "mem_Scan ex_dead 0 zero_cursor 10 =
      (Inr \<lparr>sp_Changes = [\<lparr>ch_Namespace = ex_ns, ch_Position = 1, ch_Meta = ex_meta, ch_Cursor = 1\<rparr>],
            sp_Next = \<lparr>sc_After = 1, sc_Bound = 1\<rparr>, sp_Done = True\<rparr>, ex_dead)"
    by (simp add: mem_Scan_def ValidateScan_def zero_cursor_def w mem_changes_def mem_has_def mem_change_def Let_def
        ex_slot_def ex_ns_def)
  have t: "tomb (Some (encodeState (ex_first\<lparr>sr_s := StatusDeleted\<rparr>), 2))" by (simp add: encode_gen terminal_status_def)
  have one: "sweepOne mem_store \<lparr>ch_Namespace = ex_ns, ch_Position = Suc 0, ch_Meta = ex_meta, ch_Cursor = Suc 0\<rparr> (\<lambda>x. tomb (Some x)) ex_dead =
      (Inr True, \<lparr>mm_slots = [?s\<lparr>sl_msg := None, sl_live := False\<rparr>], mm_time = 50000\<rparr>)"
    using t by (simp add: sweepOne_def Let_def mem_GetState_def mem_Delete_def mem_DeleteState_def w slot_at_def set_slot_def
        slot_state_def ex_slot_def numeral_2_eq_2)
  show ?thesis
    unfolding Sweep_def by (subst sweep_from.simps) (simp add: scan one)
qed


section \<open>From sender to receiver\<close>

lemma appended_body:
  assumes P: "rely_progress V p" and "appended V ai p a w1"
  shows "p \<le> mv_last V w1" and "mv_body V w1 p \<in> {None, Some \<lparr>m_Position = p, m_Body = ai_Body ai, m_Meta = ai_Meta ai\<rparr>}"
proof -
  from assms(2) obtain u u' where u: "mv_rely V u' w1"
    "body_step V p (Some \<lparr>m_Position = p, m_Body = ai_Body ai, m_Meta = ai_Meta ai\<rparr>) u u'" unfolding appended_def by blast
  with rely_progressD [OF P u(1)]
  show "p \<le> mv_last V w1" and "mv_body V w1 p \<in> {None, Some \<lparr>m_Position = p, m_Body = ai_Body ai, m_Meta = ai_Meta ai\<rparr>}"
    by (auto simp: progress_def body_step_def)
qed

text \<open>
  C17. A message is received as it was sent. If \<open>Send\<close> succeeded, and a later claim of the position it
  returned succeeds, the claim returns the body, the attributes and the message identifier of the
  request, with the digest of that body in its metadata, whatever happened between.
\<close>

theorem received_as_sent:
  assumes "store_lawful st V ns" and "rely_progress V p" and "resolves tg_Namespace queues V p ns" and "mints (sd_newID s) V p"
    and "sd_Store s = Some st" and "sd_Queues s = Some queues"
    and "Send s i w = (Inr res, w1)" and "sr_Position res = p" and "progress V p w1 w2"
    and "ci_Namespace j = ns" and "ci_Position j = p" and "Claimer_Claim (Some st) now j w2 = (Inr c, w3)"
  shows "m_Body (cl_Message c) = si_Body i \<and> NewAttributes (si_MessageAttributes i) = Inr (cl_Attributes c) \<and>
    cl_MessageID c = sr_MessageID res \<and> m_Meta (cl_Message c) MetaMD5 = Some (hex_encode (md5 (si_Body i)))"
proof -
  note V = lawful_parts(1) [OF assms(1)] and P = assms(2)
  from Send_run(2) [OF assms(1-7) refl] assms(8) obtain a t attrs enq vis m where
    at: "NewAttributes (si_MessageAttributes i) = Inr attrs" and
    m: "m = \<lparr>m_Position = p, m_Body = (if attrs \<noteq> [] then encodePayload attrs (si_Body i) else si_Body i),
      m_Meta = send_meta i t attrs (sr_MessageID res) enq vis\<rparr>" and
    b: "p \<le> mv_last V w1" "mv_body V w1 p \<in> {None, Some m}"
    unfolding sent_def using appended_body [OF P] by fastforce
  have b2: "p \<le> mv_last V w2" "mv_body V w2 p \<in> {None, Some m}" using b assms(9) by (auto simp: progress_def)
  have L: "store_lawful st V (ci_Namespace j)" "rely_progress V (ci_Position j)" using assms(1,2,10,11) by simp_all
  from Claim_run(2) [OF L assms(12) refl] obtain m' h u where
    u: "mv_rely V w2 u" "mv_body V u p = Some m'" and
    h: "readHeaders (m_Meta m') = Inr h" "split_payload h m' = Inr (cl_Message c, cl_Attributes c)" "cl_MessageID c = h_id h"
    unfolding claimed_def seen_def assms(11) by blast
  have m': "m' = m" using rely_progressD [OF P u(1)] b2 u(2) by (auto simp: progress_def)
  note s = split_sent [OF at h(1) _ _ h(2), of i t "sr_MessageID res" enq vis]
  from s send_meta_fields(4) h(3) at show ?thesis by (simp add: m' m)
qed

definition ex_sender :: "(msg_mem, doc) Sender" where
  "ex_sender = \<lparr>sd_Store = Some mem_store,
     sd_Queues = Some (\<lambda>w a r q. (Inr \<lparr>tg_Namespace = ex_ns, tg_Account = ''1'', tg_DelaySeconds = 0, tg_MaximumMessageSize = 262144\<rparr>, w)),
     sd_now = mm_time, sd_newID = \<lambda>w. (Inr ''id'', w)\<rparr>"

definition ex_send :: SendInput where
  "ex_send = \<lparr>si_Account = ''1'', si_Region = ''r'', si_Queue = ''q'', si_Sender = ''me'', si_Body = ''hello'', si_DelaySeconds = None,
     si_QueueID = [], si_MessageAttributes = [], si_SystemAttributes = [], si_MessageGroupID = None,
     si_MessageDeduplicationID = None\<rparr>"

definition ex_empty :: msg_mem where
  "ex_empty = \<lparr>mm_slots = [], mm_time = 1000\<rparr>"

definition ex_sent_meta :: meta where
  "ex_sent_meta = [MetaV \<mapsto> go_itoa MetaVersionPlain, MetaID \<mapsto> ''id'', MetaEnq \<mapsto> go_format_int 1000,
     MetaVis \<mapsto> go_format_int 1000, MetaSender \<mapsto> ''me'', MetaMD5 \<mapsto> hex_encode (md5 ''hello''), MetaAcct \<mapsto> ''1'']"

definition ex_sent :: "int \<Rightarrow> msg_mem" where
  "ex_sent t = \<lparr>mm_slots = [\<lparr>sl_ns = ex_ns, sl_msg = Some (''hello'', ex_sent_meta), sl_hist = [], sl_live = False\<rparr>], mm_time = t\<rparr>"

lemma ex_send_runs: "\<exists>res. Send ex_sender ex_send ex_empty = (Inr res, ex_sent 1000) \<and> sr_Position res = 1"
proof -
  have "NewAttributes [] = Inr []" by (simp add: NewAttributes_def)
  moreover have "validateContents ''hello'' = None"
    by (simp add: validateContents_def runes_of.simps decode_rune_def byte_at_def allowedRune_def within_def Let_def)
  ultimately have "validateRequest ex_send = None"
    by (simp add: validateRequest_def ValidateMessage_def ex_send_def)
  moreover have "check_target ex_send \<lparr>tg_Namespace = ex_ns, tg_Account = ''1'', tg_DelaySeconds = 0, tg_MaximumMessageSize = 262144\<rparr> = Inr []"
    using \<open>NewAttributes [] = Inr []\<close> ex_valid
    by (simp add: check_target_def ex_send_def MinMessageSize_def MaxMessageSize_def MaxDelaySeconds_def Attributes_Size_def)
  ultimately show ?thesis
    by (simp add: Send_def ex_sender_def ex_send_def [THEN arg_cong [of _ _ si_DelaySeconds]]
        ex_send_def [THEN arg_cong [of _ _ si_Body]] ex_send_def [THEN arg_cong [of _ _ si_Sender]]
        mem_Append_def ex_empty_def ex_sent_def ex_sent_meta_def send_meta_def int64_of_def Let_def)
qed

lemma md5Hex_digest: "md5Hex (hex_encode (md5 s))"
  by (simp add: md5Hex_def length_hex_encode length_md5 hex_encode_hex)

lemma ex_sent_headers:
  "readHeaders ex_sent_meta = Inr \<lparr>h_v = 1, h_id = ''id'', h_enq = 1000, h_vis = 1000, h_rc = 0, h_md5a = []\<rparr>"
  using md5Hex_digest [of "''hello''"]
  by (simp add: readHeaders_def ex_sent_meta_def meta_get_def meta_keys go_atoi_itoa go_atoi_format MetaVersion_def
      MetaVersionPlain_def Let_def)

lemma ex_sent_claim:
  "\<exists>c w'. Claimer_Claim (Some mem_store) mm_time ex_in (ex_sent 5000) = (Inr c, w')"
proof -
  let ?s = "\<lparr>sl_ns = ex_ns, sl_msg = Some (''hello'', ex_sent_meta), sl_hist = [], sl_live = False\<rparr>"
  have s: "slot_at (ex_sent 5000) (ci_Namespace ex_in) (ci_Position ex_in) = Some ?s" "sl_msg ?s = Some (''hello'', ex_sent_meta)"
    by (simp_all add: slot_at_def ex_sent_def ex_in_def)
  have tm: "mm_time (ex_sent 5000) = 5000" by (simp add: ex_sent_def)
  have c: "claim_state \<lparr>h_v = 1, h_id = ''id'', h_enq = 1000, h_vis = 1000, h_rc = 0, h_md5a = []\<rparr> (mem_state ?s) 5000 = Inr (zero_state, 0)"
    by (simp add: claim_state_def mem_state_def slot_state_def zero_state_def)
  have z: "sr_c zero_state < MaxUint64" "sr_g zero_state < MaxUint64" by (simp_all add: zero_state_fields MaxUint64_def)
  show ?thesis
    using mem_claims [OF s ex_sent_headers _ ex_check _ _ z _ refl, of 0] c
    by (simp add: tm ex_in_def Milliseconds_def int64_of_def)
qed

theorem received_as_sent_witness:
  "\<exists>res c. fst (Send ex_sender ex_send ex_empty) = Inr res \<and>
     fst (Claimer_Claim (Some mem_store) mm_time ex_in (ex_sent 5000)) = Inr c \<and>
     m_Body (cl_Message c) = si_Body ex_send \<and> cl_MessageID c = sr_MessageID res"
proof -
  from ex_send_runs obtain res where res: "Send ex_sender ex_send ex_empty = (Inr res, ex_sent 1000)" "sr_Position res = 1" by blast
  from ex_sent_claim obtain c w' where c: "Claimer_Claim (Some mem_store) mm_time ex_in (ex_sent 5000) = (Inr c, w')" by blast
  have q: "\<exists>queues. sd_Queues ex_sender = Some queues \<and> resolves tg_Namespace queues (mem_queue ex_ns) 1 ex_ns"
    by (auto simp: ex_sender_def resolves_def progress_refl)
  have i: "mints (sd_newID ex_sender) (mem_queue ex_ns) 1" "sd_Store ex_sender = Some mem_store"
    by (simp_all add: mints_def ex_sender_def progress_refl)
  have p: "progress (mem_queue ex_ns) 1 (ex_sent 1000) (ex_sent 5000)" by (rule mem_time_progress) (simp add: ex_sent_def)
  from q obtain queues where q: "sd_Queues ex_sender = Some queues" "resolves tg_Namespace queues (mem_queue ex_ns) 1 ex_ns" by blast
  from received_as_sent [OF mem_lawful mem_rely_progress q(2) i q(1) res p ex_in_fields c] res(1) c show ?thesis by simp
qed

section \<open>Whole receives\<close>


definition ex_env :: "msg_mem wait_env" where
  "ex_env = \<lparr>we_open = \<lambda>sh n w. (Inr (), w), we_caller = \<lambda>w. None, we_over = \<lambda>w. False, we_nap = \<lambda>n w. (False, w),
     we_close = \<lambda>w. (None, w)\<rparr>"

definition ex_receive :: ReceiveInput where
  "ex_receive = \<lparr>ri_Account = ''1'', ri_Region = ''r'', ri_Queue = ''q'', ri_MaxNumberOfMessages = Some 2,
     ri_VisibilityTimeout = None, ri_WaitTimeSeconds = None\<rparr>"

lemma ex_quiet: "quiet_env ex_env V"
  by (simp add: quiet_env_def ex_env_def keeps_refl)

definition ex_poll :: poll_input where
  "ex_poll = \<lparr>pi_ns = ex_ns, pi_want = 2, pi_vis = 30 * Second, pi_retention = 345600 * Second\<rparr>"

lemma ex_page:
  "\<exists>r. poll_page ex_consumer ex_poll 1 [\<lparr>ch_Namespace = ex_ns, ch_Position = 1, ch_Meta = ex_meta, ch_Cursor = 1\<rparr>]
       \<lparr>po_out = [], po_unsettled = None, po_next = None\<rparr> (ex_mem [] 5000) =
     (Inr (\<lparr>po_out = [r], po_unsettled = None, po_next = None\<rparr>, None), ex_mem [encodeState ex_first] 5000)"
proof -
  from ex_claim_first obtain c where
    c: "Claimer_Claim (Some mem_store) mm_time ex_in (ex_mem [] 5000) = (Inr c, ex_mem [encodeState ex_first] 5000)"
      "cl_Generation c = 1" "cl_Message c = \<lparr>m_Position = 1, m_Body = ''hello'', m_Meta = ex_meta\<rparr>" by blast
  from ex_handle [of 1] obtain h where "Receipt_Encode (Some ex_ring) (ex_receipt 1) = Inr h" by auto
  then obtain r where r: "Receiver_received (Some ex_ring) ''q'' c = Inr r" by (simp add: Receiver_received_def c)
  have i: "ex_in = \<lparr>ci_Namespace = ex_ns, ci_Position = 1, ci_Visibility = pi_vis ex_poll, ci_Retention = pi_retention ex_poll\<rparr>"
    by (simp add: ex_in_def ex_poll_def)
  have "delayedUntil 5000 \<lparr>ch_Namespace = ex_ns, ch_Position = 1, ch_Meta = ex_meta, ch_Cursor = 1\<rparr> = None"
    by (simp add: delayedUntil_def ex_headers)
  moreover have "mm_time (ex_mem [] 5000) = 5000" "ns_Queue (pi_ns ex_poll) = ''q''" "pi_ns ex_poll = ex_ns" "pi_want ex_poll = 2"
    by (simp_all add: ex_mem_def ex_poll_def ex_ns_def)
  ultimately show ?thesis using c(1) [unfolded i] r by (simp add: ex_consumer_fields)
qed

lemma ex_poll_runs:
  "\<exists>r ps. Receiver_poll mem_store ex_consumer ex_poll Map.empty (ex_mem [] 5000) =
     (Inr ([r], None), ps, ex_mem [encodeState ex_first] 5000)"
proof -
  have scan: "mem_Scan (ex_mem [] 5000) 0 zero_cursor 100 =
      (Inr \<lparr>sp_Changes = [\<lparr>ch_Namespace = ex_ns, ch_Position = 1, ch_Meta = ex_meta, ch_Cursor = 1\<rparr>],
            sp_Next = \<lparr>sc_After = 1, sc_Bound = 1\<rparr>, sp_Done = True\<rparr>, ex_mem [] 5000)"
    by (simp add: mem_Scan_def ValidateScan_def zero_cursor_def ex_mem_def mem_changes_def mem_has_def mem_change_def Let_def
        ex_slot_def ex_ns_def)
  have p: "ReceiveScanPages = Suc 3" "MessageShard (pi_ns ex_poll) = 0" "pi_want ex_poll = 2"
    by (simp_all add: ReceiveScanPages_def ex_poll_def ex_ns_def)
  from ex_page obtain r where r: "poll_page ex_consumer ex_poll 1 [\<lparr>ch_Namespace = ex_ns, ch_Position = 1, ch_Meta = ex_meta, ch_Cursor = 1\<rparr>]
       \<lparr>po_out = [], po_unsettled = None, po_next = None\<rparr> (ex_mem [] 5000) =
     (Inr (\<lparr>po_out = [r], po_unsettled = None, po_next = None\<rparr>, None), ex_mem [encodeState ex_first] 5000)" by blast
  have "poll_pages mem_store ex_consumer ex_poll ReceiveScanPages zero_cursor True
      \<lparr>po_out = [], po_unsettled = None, po_next = None\<rparr> (ex_mem [] 5000) =
     (Inr (\<lparr>po_out = [r], po_unsettled = None, po_next = None\<rparr>, zero_cursor), ex_mem [encodeState ex_first] 5000)"
    unfolding p(1) poll_pages.simps(2) using scan r by (simp add: p ReceiveScanPage_def)
  then show ?thesis by (simp add: Receiver_poll_def Receiver_resume_def Let_def)
qed

lemma ex_receive_runs:
  "\<exists>r ps. Receiver_Receive ex_env 0 ex_consumer ex_receive Map.empty (ex_mem [] 5000) =
     Some (Inr [r], ps, ex_mem [encodeState ex_first] 5000)"
proof -
  have "validateReceive ex_receive = Inr (2, None)"
    by (simp add: validateReceive_def ex_receive_def MaxReceiveMessages_def Let_def)
  moreover have "receiveTiming ''1'' ex_target None None = Inr (30 * Second, 345600 * Second, 0)"
    using ex_valid by (simp add: receiveTiming_def ex_target_def MaxVisibilitySeconds_def MaxWaitSeconds_def)
  moreover have "\<lparr>pi_ns = rt_Namespace ex_target, pi_want = nat 2, pi_vis = 30 * Second, pi_retention = 345600 * Second\<rparr> = ex_poll"
    by (simp add: ex_poll_def ex_target_def)
  ultimately show ?thesis
    using ex_poll_runs ex_ring_check
    by (auto simp: Receiver_Receive_def ex_consumer_fields ex_queues_def ex_receive_def Let_def)
qed


section \<open>The protocol\<close>

text \<open>
  C19. Every operation of the service keeps the protocol that the others rely on: over a send, a claim, the
  poll of a receive, a deletion or a change of visibility, whatever its outcome, no stored message is
  altered, none comes back, and while a message is stored its generation never falls and its tombstone
  stays.
\<close>

theorem operations_keep_protocol:
  assumes "store_lawful st V ns" and "protocol V"
    and "\<forall>p. resolves rt_Namespace queues V p ns" and "\<forall>p. resolves tg_Namespace send_queues V p ns"
    and "co_Store d = Some st" and "co_Queues d = Some queues"
    and "sd_Store s = Some st" and "sd_Queues s = Some send_queues" and "\<forall>p. mints (sd_newID s) V p"
    and "ci_Namespace ci = ns" and "pi_ns pin = ns"
  shows "keeps V w (snd (Claimer_Claim (Some st) now ci w)) \<and> keeps V w (snd (Deleter_Delete d di w)) \<and>
    keeps V w (snd (ChangeVisibility d vi w)) \<and> keeps V w (snd (Send s si w)) \<and>
    keeps V w (snd (snd (Receiver_poll st d pin ps w)))"
proof (intro conjI)
  have P: "rely_progress V p" for p using assms(2) by (simp add: protocol_def)
  show "keeps V w (snd (Claimer_Claim (Some st) now ci w))"
    using Claim_keeps(1) [of st V ci now w] assms(1,2,10) by (metis prod.collapse)
  show "keeps V w (snd (Deleter_Delete d di w))"
    unfolding keeps_def using Delete_run(1) [OF assms(1) P _ assms(5,6)] assms(3) by (metis prod.collapse)
  show "keeps V w (snd (ChangeVisibility d vi w))"
    unfolding keeps_def using ChangeVisibility_run(1) [OF assms(1) P _ assms(5,6)] assms(3) by (metis prod.collapse)
  show "keeps V w (snd (Send s si w))"
    unfolding keeps_def using Send_run(1) [OF assms(1) P _ _ assms(7,8)] assms(4,9) by (metis prod.collapse)
  show "keeps V w (snd (snd (Receiver_poll st d pin ps w)))"
    using poll_run(1) [of st V pin d ps w] assms(1,2,5,11) by (metis prod.collapse)
qed

theorem operations_keep_protocol_witness:
  "\<exists>send_queues. sd_Queues ex_sender = Some send_queues \<and>
     keeps (mem_queue ex_ns) (ex_mem [] 5000) (snd (Claimer_Claim (Some mem_store) mm_time ex_in (ex_mem [] 5000))) \<and>
     keeps (mem_queue ex_ns) (ex_mem [] 5000) (snd (Send ex_sender ex_send (ex_mem [] 5000)))"
proof -
  have q: "\<forall>p. resolves rt_Namespace ex_queues (mem_queue ex_ns) p ex_ns" using ex_resolves by blast
  obtain sq where sq: "sd_Queues ex_sender = Some sq" "\<forall>p. resolves tg_Namespace sq (mem_queue ex_ns) p ex_ns"
    by (auto simp: ex_sender_def resolves_def progress_refl)
  have s: "sd_Store ex_sender = Some mem_store" "\<forall>p. mints (sd_newID ex_sender) (mem_queue ex_ns) p"
    by (simp_all add: mints_def ex_sender_def progress_refl)
  have "pi_ns ex_poll = ex_ns" by (simp add: ex_poll_def)
  from operations_keep_protocol [OF mem_lawful mem_protocol q sq(2) ex_consumer_fields(1,2) s(1) sq(1) s(2) ex_in_fields(1) this]
  show ?thesis using sq(1) by blast
qed

section \<open>Clocks that disagree\<close>

text \<open>
  The nodes' clocks are read independently. A message received first at 40000 by one node, made visible
  at once by a node whose clock reads 30000, and claimed by that node, gets a record whose first receive
  is later than its last. No operation can read such a record.
\<close>

definition skew_record :: stateRecord where
  "skew_record = advance zero_state 40000 (30 * Second)"

lemma skewed_claim_unreadable:
  "\<exists>rec rec'. new_deadline skew_record \<lparr>rc_Queue = ''q'', rc_Position = 1, rc_Generation = 1\<rparr> 30000 0 = Inr rec \<and>
     claim_state h (Inr (encodeState rec, r)) 30000 = Inr (rec', r) \<and>
     decodeState (encodeState (advance rec' 30000 (30 * Second))) =
       Inl (unavailable ''in-flight state record is incomplete'')"
proof -
  have ms: "Milliseconds 30000000000 = 30000" "Milliseconds MaxVisibilityTimeout = 43200000"
    by (simp_all add: Milliseconds_def MaxVisibilityTimeout_def)
  let ?rec = "skew_record\<lparr>sr_d := 30000\<rparr>"
  have f: "sr_v skew_record = 1" "sr_s skew_record = StatusInflight" "sr_c skew_record = 1" "sr_g skew_record = 1"
    "sr_d skew_record = 70000" "sr_r skew_record = 40000" "sr_f skew_record = 40000"
    by (simp_all add: skew_record_def advance_def zero_state_def StateVersion_def ms int64_of_def)
  have "new_deadline skew_record \<lparr>rc_Queue = ''q'', rc_Position = 1, rc_Generation = 1\<rparr> 30000 0 = Inr ?rec"
    by (simp add: new_deadline_def f terminal_status_def statuses Let_def int64_of_def ms)
  moreover have "decodeState (encodeState ?rec) = Inr (?rec\<lparr>sr_raw := the (encodeState ?rec)\<rparr>)"
    by (rule decodeState_encodeState) (simp_all add: f inflight_complete_def)
  then have "claim_state h (Inr (encodeState ?rec, r)) 30000 = Inr (?rec\<lparr>sr_raw := the (encodeState ?rec)\<rparr>, r)"
    by (simp add: claim_state_def f statuses)
  moreover have "decodeState (encodeState (advance (?rec\<lparr>sr_raw := the (encodeState ?rec)\<rparr>) 30000 (30 * Second))) =
      Inl (unavailable ''in-flight state record is incomplete'')"
    by (simp add: decodeState_def encodeState_def advance_def f int_field_def uint_field_def string_field_def or_zero_def Let_def
        inflight_complete_def StateVersion_def ms int64_of_def)
  ultimately show ?thesis by blast
qed


section \<open>The type of a state record\<close>

definition state_ok :: "stateRecord \<Rightarrow> bool" where
  "state_ok rec \<longleftrightarrow> sr_v rec = 1 \<and> sr_s rec \<in> {StatusInflight, StatusMoving, StatusDeleted, StatusExpired, StatusMoved} \<and>
     sr_c rec < 2 ^ 64 \<and> sr_g rec < 2 ^ 64 \<and> sr_d rec \<in> {- (2 ^ 63)..< 2 ^ 63} \<and> sr_r rec \<in> {- (2 ^ 63)..< 2 ^ 63} \<and>
     sr_f rec \<in> {- (2 ^ 63)..< 2 ^ 63} \<and> (sr_s rec = StatusInflight \<longrightarrow> inflight_complete rec)"

lemma int_field_bounds: "int_field x = Some y \<Longrightarrow> or_zero y \<in> {- (2 ^ 63)..< 2 ^ 63}"
  by (auto simp: int_field_def or_zero_def split: option.splits json_raw.splits if_splits)

lemma uint_field_bounds: "uint_field x = Some n \<Longrightarrow> n < 2 ^ 64"
  by (auto simp: uint_field_def split: option.splits json_raw.splits if_splits)

lemma decodeState_state_ok:
  assumes "decodeState b = Inr rec"
  shows "state_ok rec"
proof -
  from assms obtain raw where raw: "b = Some raw" by (auto simp: decodeState_def split: option.splits)
  from assms obtain v s c g d r f where x: "int_field (raw ''v'') = Some v" "string_field (raw ''s'') = Some s"
    "uint_field (raw ''c'') = Some c" "uint_field (raw ''g'') = Some g" "int_field (raw ''d'') = Some d"
    "int_field (raw ''r'') = Some r" "int_field (raw ''f'') = Some f"
    by (simp add: decodeState_def raw split: option.splits)
  note n = uint_field_bounds [OF x(3)] uint_field_bounds [OF x(4)]
    int_field_bounds [OF x(5)] int_field_bounds [OF x(6)] int_field_bounds [OF x(7)]
  from assms have "v \<noteq> None" "the v = 1" "s \<noteq> None" "rec = \<lparr>sr_v = 1, sr_s = the s, sr_c = c, sr_g = g, sr_d = or_zero d,
      sr_r = or_zero r, sr_f = or_zero f, sr_raw = raw\<rparr>"
    "the s = StatusInflight \<longrightarrow> inflight_complete rec"
    "the s \<in> {StatusInflight, StatusMoving, StatusDeleted, StatusExpired, StatusMoved}"
    by (auto simp: decodeState_def raw x Let_def StateVersion_def split: if_splits)
  with n show ?thesis by (simp add: state_ok_def)
qed

lemma state_ok_decodes:
  assumes "state_ok rec"
  shows "decodeState (encodeState rec) = Inr (rec\<lparr>sr_raw := the (encodeState rec)\<rparr>)"
proof -
  have "int (sr_c rec) < 2 ^ 64" "int (sr_g rec) < 2 ^ 64"
    using assms unfolding state_ok_def by (metis of_nat_less_numeral_power_cancel_iff)+
  then have f: "int_field (Some (RInt (sr_v rec))) = Some (Some 1)" "uint_field (Some (RInt (int (sr_c rec)))) = Some (sr_c rec)"
    "uint_field (Some (RInt (int (sr_g rec)))) = Some (sr_g rec)" "int_field (Some (RInt (sr_d rec))) = Some (Some (sr_d rec))"
    "int_field (Some (RInt (sr_r rec))) = Some (Some (sr_r rec))" "int_field (Some (RInt (sr_f rec))) = Some (Some (sr_f rec))"
    using assms by (simp_all add: state_ok_def int_field_def uint_field_def)
  have "(sr_s rec = StatusInflight \<longrightarrow> inflight_complete rec) \<and> sr_v rec = 1 \<and>
      sr_s rec \<in> {StatusInflight, StatusMoving, StatusDeleted, StatusExpired, StatusMoved}" using assms by (simp add: state_ok_def)
  with f show ?thesis
    by (cases rec) (simp add: decodeState_def encodeState_def string_field_def or_zero_def Let_def inflight_complete_def
        StateVersion_def, blast)
qed

lemma advance_state_ok:
  assumes "claim_state h cur t = Inr (rec, r)" and "sr_c rec < MaxUint64" and "sr_g rec < MaxUint64"
    and "0 < t" and "t < 2 ^ 62" and "sr_f rec \<le> t" and "0 \<le> vis" and "vis \<le> MaxVisibilityTimeout"
  shows "state_ok (advance rec t vis)"
proof -
  have m: "0 \<le> Milliseconds vis" "Milliseconds vis \<le> 43200000"
    using assms(7,8) by (auto simp: Milliseconds_def MaxVisibilityTimeout_def)
  have "0 \<le> sr_f rec" using assms(1) decodeState_state_ok
    by (fastforce simp: claim_state_def zero_state_def state_ok_def inflight_complete_def split: sum.splits if_splits prod.splits)
  moreover have "int64_of (t + Milliseconds vis) = t + Milliseconds vis" using m assms(4,5) by (simp add: int64_of_def)
  ultimately show ?thesis
    using assms m by (auto simp: state_ok_def advance_def StateVersion_def inflight_complete_def MaxUint64_def)
qed

lemma new_deadline_state_ok:
  assumes "state_ok rec" and "new_deadline rec rc now timeout = Inr rec'" and "0 < now" and "now < 2 ^ 62"
    and "0 \<le> timeout" and "timeout \<le> MaxVisibilitySeconds"
  shows "state_ok rec'"
proof -
  from assms(2) have r: "rec' = rec\<lparr>sr_d := int64_of (now + timeout * 1000)\<rparr>"
    by (simp add: new_deadline_def Let_def split: if_splits)
  have "int64_of (now + timeout * 1000) = now + timeout * 1000" "0 < now + timeout * 1000" "now + timeout * 1000 < 2 ^ 63"
    using assms(3-6) by (simp_all add: int64_of_def MaxVisibilitySeconds_def)
  with assms(1) show ?thesis unfolding r by (simp add: state_ok_def inflight_complete_def)
qed

text \<open>
  C20. State records are well typed. What decoding accepts has the known version and status, fields within
  their 64-bit types and, in flight, all of its counts and times in order. Every such record encodes to one
  that decodes to the same fields, and unknown members are kept. A claim, a tombstone and a change of
  visibility write such records again, provided the claiming node's clock is not behind the first receive.
\<close>

theorem state_records_well_typed:
  assumes "decodeState b = Inr rec"
  shows "state_ok rec \<and>
    (state_ok rec' \<longrightarrow> decodeState (encodeState rec') = Inr (rec'\<lparr>sr_raw := the (encodeState rec')\<rparr>) \<and>
       (\<forall>k. stateKnown k \<or> the (encodeState rec') k = sr_raw rec' k)) \<and>
    state_ok (rec\<lparr>sr_s := StatusDeleted\<rparr>) \<and>
    (new_deadline rec rc now timeout = Inr rec' \<and> 0 < now \<and> now < 2 ^ 62 \<and> 0 \<le> timeout \<and> timeout \<le> MaxVisibilitySeconds \<longrightarrow>
       state_ok rec') \<and>
    (claim_state h cur now = Inr (prior, r) \<and> sr_c prior < MaxUint64 \<and> sr_g prior < MaxUint64 \<and> 0 < now \<and> now < 2 ^ 62 \<and>
       sr_f prior \<le> now \<and> 0 \<le> vis \<and> vis \<le> MaxVisibilityTimeout \<longrightarrow> state_ok (advance prior now vis))"
proof -
  have ok: "state_ok rec" using assms by (rule decodeState_state_ok)
  then have "state_ok (rec\<lparr>sr_s := StatusDeleted\<rparr>)" by (simp add: state_ok_def statuses)
  moreover have "stateKnown k \<or> the (encodeState rec') k = sr_raw rec' k" for k by (simp add: encodeState_def stateKnown_def)
  ultimately show ?thesis
    using ok state_ok_decodes new_deadline_state_ok [OF ok] advance_state_ok by blast
qed

theorem state_records_well_typed_witness:
  "\<exists>rec. decodeState (encodeState ex_first) = Inr rec \<and> state_ok rec \<and> state_ok (rec\<lparr>sr_s := StatusDeleted\<rparr>) \<and>
     state_ok (advance rec 40000 (30 * Second))"
proof -
  have "state_ok ex_first" using ex_first_fields by (simp add: state_ok_def)
  then have d: "decodeState (encodeState ex_first) = Inr (ex_first\<lparr>sr_raw := the (encodeState ex_first)\<rparr>)"
    by (rule state_ok_decodes)
  let ?rec = "ex_first\<lparr>sr_raw := the (encodeState ex_first)\<rparr>"
  have c: "claim_state h (Inr (encodeState ex_first, 1)) 40000 = Inr (?rec, 1)" for h
    by (simp add: claim_state_def d ex_first_fields statuses)
  have "sr_c ?rec < MaxUint64" "sr_g ?rec < MaxUint64" "sr_f ?rec \<le> 40000" "30 * Second \<le> MaxVisibilityTimeout"
    by (simp_all add: ex_first_fields MaxUint64_def MaxVisibilityTimeout_def)
  with c have "state_ok ?rec \<and> state_ok (?rec\<lparr>sr_s := StatusDeleted\<rparr>) \<and> state_ok (advance ?rec 40000 (30 * Second))"
    using state_records_well_typed [OF d, where now = 40000 and prior = ?rec and vis = "30 * Second" and r = 1
        and cur = "Inr (encodeState ex_first, 1)"] by simp
  with d show ?thesis by blast
qed

end
