(* ===== verification/SqsJetstream.thy ===== *)
theory SqsJetstream
  imports SqsStore Clustersize "HOL-Library.AList" "HOL-Library.Char_ord" "HOL-Library.List_Lexorder"
begin

text \<open>
  The message store on JetStream, \<open>domains/sqs/message/jetstream\<close> (\<open>config.go\<close>, \<open>store.go\<close> without its
  change feed, \<open>leaderget.go\<close>): shared streams with one subject per queue hold the messages, shared
  key-value buckets the state records. JetStream is an argument of the store, a record of its
  operations over a world; the handles the store keeps are part of that world.
\<close>

section \<open>Layout\<close>

definition MinRetentionBackstop :: int where "MinRetentionBackstop = (14 * 24 * 3600 + 3600) * 1000000000"

definition DefaultDuplicateWindow :: int where "DefaultDuplicateWindow = 120 * 1000000000"

record js_Config =
  cf_MessageStreams :: int
  cf_StateBuckets :: int
  cf_DuplicateWindow :: int

definition DefaultConfig :: "int \<Rightarrow> js_Config" where
  "DefaultConfig nodes =
     \<lparr>cf_MessageStreams = (if 3 \<le> nodes then 8 else 16), cf_StateBuckets = 8, cf_DuplicateWindow = DefaultDuplicateWindow\<rparr>"

definition js_Config_Validate :: "js_Config \<Rightarrow> go_error option" where
  "js_Config_Validate c =
     (if cf_MessageStreams c < 1 then
        Some (Wrapped [] [Sentinel sqs_ErrInvalidArgument] ('': '' @ go_format_int (cf_MessageStreams c) @ '' message streams''))
      else if cf_StateBuckets c < 1 then
        Some (Wrapped [] [Sentinel sqs_ErrInvalidArgument] ('': '' @ go_format_int (cf_StateBuckets c) @ '' state buckets''))
      else if cf_DuplicateWindow c \<le> 0 \<or> MinRetentionBackstop < cf_DuplicateWindow c then
        Some (Wrapped [] [Sentinel sqs_ErrInvalidArgument] '': duplicate window outside its range'')
      else None)"

definition ErrUnsupportedTopology :: string where
  "ErrUnsupportedTopology = ''sqs message store: unsupported topology''"
definition ErrCorruptRecord :: string where "ErrCorruptRecord = ''sqs message store: corrupt record''"

definition supportedReplicas :: "int \<Rightarrow> int result" where
  "supportedReplicas n =
     (if n = 1 \<or> n = 3 then Inr (ReplicasFor n)
      else Inl (Wrapped [] [Sentinel ErrUnsupportedTopology]
                  ('': '' @ go_format_int n @ '' nodes declared; supported are 1 (R1) and 3 (R3)'')))"

definition StreamName :: "nat \<Rightarrow> string" where "StreamName shard = ''SQS_M_'' @ go_itoa shard"
definition BucketName :: "nat \<Rightarrow> string" where "BucketName shard = ''sqs_state_'' @ go_itoa shard"

definition Subject :: "Namespace \<Rightarrow> string" where
  "Subject ns = ''sqs.m.'' @ go_itoa (MessageShard ns) @ ''.'' @ ns_Queue ns"

definition statePrefix :: "Namespace \<Rightarrow> string" where
  "statePrefix ns = ''q.'' @ go_itoa (MessageShard ns) @ ''.'' @ ns_Queue ns"

definition StateKey :: "Namespace \<Rightarrow> nat \<Rightarrow> string" where
  "StateKey ns pos = statePrefix ns @ ''.'' @ go_itoa pos"

definition shardFilter :: "nat \<Rightarrow> string" where
  "shardFilter shard = ''sqs.m.'' @ go_itoa shard @ ''.>''"

record js_StreamConfig =
  sg_Name :: string
  sg_Subjects :: "string list"
  sg_Replicas :: int
  sg_MaxAge :: int
  sg_Duplicates :: int

definition MessageStreamConfig :: "js_Config \<Rightarrow> nat \<Rightarrow> int \<Rightarrow> js_StreamConfig" where
  "MessageStreamConfig c shard replicas =
     \<lparr>sg_Name = StreamName shard, sg_Subjects = [shardFilter shard], sg_Replicas = replicas, sg_MaxAge = MinRetentionBackstop,
      sg_Duplicates = cf_DuplicateWindow c\<rparr>"

section \<open>JetStream\<close>

type_synonym header = "string \<rightharpoonup> string list"

definition hd_Values :: "header \<Rightarrow> string \<Rightarrow> string list" where
  "hd_Values h k = (case h k of None \<Rightarrow> [] | Some vs \<Rightarrow> vs)"

definition hd_Get :: "header \<Rightarrow> string \<Rightarrow> string" where
  "hd_Get h k = (case hd_Values h k of [] \<Rightarrow> [] | v # vs \<Rightarrow> v)"

record raw_msg =
  rw_Subject :: string
  rw_Sequence :: nat
  rw_Header :: header
  rw_Data :: string

text \<open>What a stream handle caches: whether a read may be served by any replica, and the last sequence.\<close>

record stream_info =
  if_Direct :: bool
  if_MirrorDirect :: bool
  if_LastSeq :: nat

abbreviation ErrMsgNotFound :: string where "ErrMsgNotFound \<equiv> ''jetstream.ErrMsgNotFound''"
abbreviation ErrInvalidJetStreamResponse :: string where
  "ErrInvalidJetStreamResponse \<equiv> ''jetstream.ErrInvalidJetStreamResponse''"

text \<open>
  The operations of the client library that the store calls. Reads by subject (\<open>js_NextFor\<close> and
  \<open>js_LastFor\<close>) are the stream message gets of \<open>kvutil.LeaderMsgGet\<close>, which only a
  stream's leader answers. A value in a state bucket is a document of type \<open>'v\<close>.
\<close>

record ('w, 'v) js =
  js_PublishMsg :: "'w \<Rightarrow> string \<Rightarrow> header \<Rightarrow> string \<Rightarrow> string \<Rightarrow> string option \<Rightarrow> (nat \<times> bool) result \<times> 'w"
  js_Stream :: "'w \<Rightarrow> string \<Rightarrow> stream_info result \<times> 'w"
  js_KeyValue :: "'w \<Rightarrow> string \<Rightarrow> unit result \<times> 'w"
  js_GetMsg :: "'w \<Rightarrow> string \<Rightarrow> stream_info \<Rightarrow> nat \<Rightarrow> raw_msg result \<times> 'w"
  js_DeleteMsg :: "'w \<Rightarrow> string \<Rightarrow> nat \<Rightarrow> unit result \<times> 'w"
  js_Purge :: "'w \<Rightarrow> string \<Rightarrow> string \<Rightarrow> nat option \<Rightarrow> unit result \<times> 'w"
  js_Info :: "'w \<Rightarrow> string \<Rightarrow> stream_info result \<times> 'w"
  js_SubjectCount :: "'w \<Rightarrow> string \<Rightarrow> string \<Rightarrow> nat result \<times> 'w"
  js_NextFor :: "'w \<Rightarrow> string \<Rightarrow> string \<Rightarrow> nat \<Rightarrow> raw_msg result \<times> 'w"
  js_LastFor :: "'w \<Rightarrow> string \<Rightarrow> string \<Rightarrow> (header \<times> 'v \<times> nat) result \<times> 'w"
  js_Create :: "'w \<Rightarrow> string \<Rightarrow> string \<Rightarrow> 'v \<Rightarrow> nat result \<times> 'w"
  js_Update :: "'w \<Rightarrow> string \<Rightarrow> string \<Rightarrow> 'v \<Rightarrow> nat \<Rightarrow> nat result \<times> 'w"
  js_Delete :: "'w \<Rightarrow> string \<Rightarrow> string \<Rightarrow> nat option \<Rightarrow> unit result \<times> 'w"
  js_BucketNames :: "'w \<Rightarrow> string list result \<times> 'w"
  js_streams :: "'w \<Rightarrow> nat \<Rightarrow> stream_info option"
  js_buckets :: "'w \<Rightarrow> nat \<Rightarrow> bool"
  js_keep_stream :: "nat \<Rightarrow> stream_info \<Rightarrow> 'w \<Rightarrow> 'w"
  js_keep_bucket :: "nat \<Rightarrow> 'w \<Rightarrow> 'w"

section \<open>Messages\<close>

definition metaHeaderPrefix :: string where "metaHeaderPrefix = ''Sqs-Meta-''"
definition stateShardHeader :: string where "stateShardHeader = ''Sqs-State-Shard''"

definition cut_prefix :: "string \<Rightarrow> string \<Rightarrow> string option" where
  "cut_prefix s p = (if go_has_prefix s p then Some (drop (length p) s) else None)"

definition validMeta :: "string \<Rightarrow> string \<Rightarrow> bool" where
  "validMeta k v \<longleftrightarrow>
     k \<noteq> [] \<and> list_all (\<lambda>c. c \<notin> {CHR '':'', CHR '' '', CHR 0x09, CHR 0x0D, CHR 0x0A}) k \<and>
     list_all (\<lambda>c. c \<noteq> CHR 0x0D \<and> c \<noteq> CHR 0x0A) v"

definition append_header :: "Namespace \<Rightarrow> meta \<Rightarrow> header" where
  "append_header ns m =
     (\<lambda>k. if k = stateShardHeader then Some [go_itoa (StateShard ns)]
          else (case cut_prefix k metaHeaderPrefix of
                  None \<Rightarrow> None
                | Some name \<Rightarrow> map_option (\<lambda>v. [v]) (m name)))"

definition domainMeta :: "header \<Rightarrow> meta" where
  "domainMeta h = (\<lambda>name. case h (metaHeaderPrefix @ name) of Some (v # vs) \<Rightarrow> Some v | _ \<Rightarrow> None)"

definition js_Append :: "('w, 'v) js \<Rightarrow> 'w \<Rightarrow> Namespace \<Rightarrow> AppendInput \<Rightarrow> AppendResult result \<times> 'w" where
  "js_Append J w ns ai =
     (case Namespace_Validate ns of
        Some err \<Rightarrow> (Inl err, w)
      | None \<Rightarrow>
          if \<exists>k\<in>dom (ai_Meta ai). \<not> validMeta k (the (ai_Meta ai k)) then
            (Inl (Wrapped [] [Sentinel sqs_ErrInvalidArgument] '': metadata key cannot be a header''), w)
          else
            (case js_PublishMsg J w (Subject ns) (append_header ns (ai_Meta ai)) (ai_Body ai) (StreamName (MessageShard ns))
                    (if ai_IdempotencyKey ai = [] then None else Some (ns_Queue ns @ '':'' @ ai_IdempotencyKey ai)) of
               (Inl err, w1) \<Rightarrow> (Inl (Wrapped (''append to '' @ ns_Queue ns @ '': '') [err] []), w1)
             | (Inr (seq, dup), w1) \<Rightarrow> (Inr \<lparr>ar_Position = seq, ar_Duplicate = dup\<rparr>, w1)))"

definition open_bucket :: "('w, 'v) js \<Rightarrow> Namespace \<Rightarrow> 'w \<Rightarrow> unit result \<times> 'w" where
  "open_bucket J ns w =
     (case Namespace_Validate ns of
        Some err \<Rightarrow> (Inl err, w)
      | None \<Rightarrow>
          if js_buckets J w (StateShard ns) then (Inr (), w)
          else
            (case js_KeyValue J w (BucketName (StateShard ns)) of
               (Inl err, w1) \<Rightarrow> (Inl (Wrapped (''open state bucket '' @ BucketName (StateShard ns) @ '': '') [err] []), w1)
             | (Inr u, w1) \<Rightarrow> (Inr (), js_keep_bucket J (StateShard ns) w1)))"

definition open_stream :: "('w, 'v) js \<Rightarrow> Namespace \<Rightarrow> 'w \<Rightarrow> stream_info result \<times> 'w" where
  "open_stream J ns w =
     (case Namespace_Validate ns of
        Some err \<Rightarrow> (Inl err, w)
      | None \<Rightarrow>
          (case js_streams J w (MessageShard ns) of
             Some i \<Rightarrow> (Inr i, w)
           | None \<Rightarrow>
               (case js_Stream J w (StreamName (MessageShard ns)) of
                  (Inl err, w1) \<Rightarrow> (Inl (Wrapped (''open stream '' @ StreamName (MessageShard ns) @ '': '') [err] []), w1)
                | (Inr i, w1) \<Rightarrow> (Inr i, js_keep_stream J (MessageShard ns) i w1))))"

section \<open>State records\<close>

definition MarkerReasonHeader :: string where "MarkerReasonHeader = ''Nats-Marker-Reason''"

definition kvRemoved :: "header \<Rightarrow> bool" where
  "kvRemoved h =
     (let op = hd_Get h ''KV-Operation'' in
      if op \<noteq> [] then op = ''DEL'' \<or> op = ''PURGE''
      else hd_Get h MarkerReasonHeader \<in> {''MaxAge'', ''Purge'', ''Remove''})"

definition kv_subject :: "string \<Rightarrow> string \<Rightarrow> string" where
  "kv_subject bucket key = ''$KV.'' @ bucket @ ''.'' @ key"

definition at_pos :: "string \<Rightarrow> Namespace \<Rightarrow> nat \<Rightarrow> string" where
  "at_pos what ns pos = what @ ns_Queue ns @ ''/'' @ go_itoa pos @ '': ''"

definition js_GetState :: "('w, 'v) js \<Rightarrow> 'w \<Rightarrow> Namespace \<Rightarrow> nat \<Rightarrow> ('v \<times> nat) result \<times> 'w" where
  "js_GetState J w ns pos =
     (case open_bucket J ns w of
        (Inl err, w1) \<Rightarrow> (Inl err, w1)
      | (Inr u, w1) \<Rightarrow>
          (let name = BucketName (StateShard ns) in
           case js_LastFor J w1 (''KV_'' @ name) (kv_subject name (StateKey ns pos)) of
             (Inl err, w2) \<Rightarrow>
               (if errors_Is err ErrMsgNotFound then Inl (Sentinel sqs_ErrNotFound)
                else Inl (Wrapped (at_pos ''get state '' ns pos) [err] []), w2)
           | (Inr (h, v, seq), w2) \<Rightarrow>
               (if kvRemoved h then Inl (Sentinel sqs_ErrNotFound) else Inr (v, seq), w2)))"

definition casError :: "go_error \<Rightarrow> string \<Rightarrow> go_error" where
  "casError err what = (if isConflict err then Sentinel sqs_ErrRevisionMismatch else Wrapped what [err] [])"

definition js_PutState :: "('w, 'v) js \<Rightarrow> 'w \<Rightarrow> Namespace \<Rightarrow> nat \<Rightarrow> 'v \<Rightarrow> nat \<Rightarrow> nat result \<times> 'w" where
  "js_PutState J w ns pos v expected =
     (case open_bucket J ns w of
        (Inl err, w1) \<Rightarrow> (Inl err, w1)
      | (Inr u, w1) \<Rightarrow>
          (case (if expected = 0 then js_Create J w1 (BucketName (StateShard ns)) (StateKey ns pos) v
                 else js_Update J w1 (BucketName (StateShard ns)) (StateKey ns pos) v expected) of
             (Inl err, w2) \<Rightarrow> (Inl (casError err (at_pos ''put state '' ns pos)), w2)
           | (Inr r, w2) \<Rightarrow> (Inr r, w2)))"

definition js_DeleteState :: "('w, 'v) js \<Rightarrow> 'w \<Rightarrow> Namespace \<Rightarrow> nat \<Rightarrow> nat \<Rightarrow> unit result \<times> 'w" where
  "js_DeleteState J w ns pos expected =
     (case js_GetState J w ns pos of
        (Inl err, w1) \<Rightarrow> (Inl err, w1)
      | (Inr s, w1) \<Rightarrow>
          if expected = 0 then (Inl (Sentinel sqs_ErrRevisionMismatch), w1)
          else
            (case open_bucket J ns w1 of
               (Inl err, w2) \<Rightarrow> (Inl err, w2)
             | (Inr u, w2) \<Rightarrow>
                 (case js_Delete J w2 (BucketName (StateShard ns)) (StateKey ns pos) (Some expected) of
                    (Inl err, w3) \<Rightarrow> (Inl (casError err (at_pos ''delete state '' ns pos)), w3)
                  | (Inr u, w3) \<Rightarrow> (Inr (), w3))))"

section \<open>Reading and removing messages\<close>

definition errDirectGet :: string where
  "errDirectGet = ''stream allows direct get; leader read cannot be assured''"

definition owned :: "('w, 'v) js \<Rightarrow> stream_info \<Rightarrow> Namespace \<Rightarrow> nat \<Rightarrow> 'w \<Rightarrow> raw_msg result \<times> 'w" where
  "owned J i ns pos w =
     (if if_Direct i \<or> if_MirrorDirect i then
        (Inl (Wrapped (at_pos ''get message '' ns pos) [Sentinel errDirectGet] []), w)
      else
        (case js_GetMsg J w (StreamName (MessageShard ns)) i pos of
           (Inl err, w1) \<Rightarrow>
             (if errors_Is err ErrMsgNotFound then Inl (Sentinel sqs_ErrNotFound)
              else Inl (Wrapped (at_pos ''get message '' ns pos) [err] []), w1)
         | (Inr raw, w1) \<Rightarrow>
             (if rw_Subject raw \<noteq> Subject ns then Inl (Sentinel sqs_ErrNotFound) else Inr raw, w1)))"

definition js_Get :: "('w, 'v) js \<Rightarrow> 'w \<Rightarrow> Namespace \<Rightarrow> nat \<Rightarrow> Message result \<times> 'w" where
  "js_Get J w ns pos =
     (case open_stream J ns w of
        (Inl err, w1) \<Rightarrow> (Inl err, w1)
      | (Inr i, w1) \<Rightarrow>
          (case owned J i ns pos w1 of
             (Inl err, w2) \<Rightarrow> (Inl err, w2)
           | (Inr raw, w2) \<Rightarrow>
               (Inr \<lparr>m_Position = pos, m_Body = rw_Data raw, m_Meta = domainMeta (rw_Header raw)\<rparr>, w2)))"

definition js_DeleteMessage :: "('w, 'v) js \<Rightarrow> 'w \<Rightarrow> Namespace \<Rightarrow> nat \<Rightarrow> unit result \<times> 'w" where
  "js_DeleteMessage J w ns pos =
     (case open_stream J ns w of
        (Inl err, w1) \<Rightarrow> (Inl err, w1)
      | (Inr i, w1) \<Rightarrow>
          (case owned J i ns pos w1 of
             (Inl err, w2) \<Rightarrow> (if errors_Is err sqs_ErrNotFound then Inr () else Inl err, w2)
           | (Inr raw, w2) \<Rightarrow>
               (case js_DeleteMsg J w2 (StreamName (MessageShard ns)) pos of
                  (Inl err, w3) \<Rightarrow>
                    (if errors_Is err ErrMsgNotFound then Inr ()
                     else Inl (Wrapped (at_pos ''delete message '' ns pos) [err] []), w3)
                | (Inr u, w3) \<Rightarrow> (Inr (), w3))))"

definition js_DeleteThrough :: "('w, 'v) js \<Rightarrow> 'w \<Rightarrow> Namespace \<Rightarrow> nat \<Rightarrow> unit result \<times> 'w" where
  "js_DeleteThrough J w ns pos =
     (case open_stream J ns w of
        (Inl err, w1) \<Rightarrow> (Inl err, w1)
      | (Inr i, w1) \<Rightarrow>
          (case js_Purge J w1 (StreamName (MessageShard ns)) (Subject ns) (if pos < 2 ^ 64 - 1 then Some (pos + 1) else None) of
             (Inl err, w2) \<Rightarrow>
               (Inl (Wrapped (''delete '' @ ns_Queue ns @ '' through '' @ go_itoa pos @ '': '') [err] []), w2)
           | (Inr u, w2) \<Rightarrow> (Inr (), w2)))"

definition js_DeleteNamespace :: "('w, 'v) js \<Rightarrow> 'w \<Rightarrow> Namespace \<Rightarrow> unit result \<times> 'w" where
  "js_DeleteNamespace J w ns =
     (case open_stream J ns w of
        (Inl err, w1) \<Rightarrow> (Inl err, w1)
      | (Inr i, w1) \<Rightarrow>
          (let bucket = BucketName (StateShard ns) in
           case js_Stream J w1 (''KV_'' @ bucket) of
             (Inl err, w2) \<Rightarrow> (Inl (Wrapped (''open state bucket '' @ bucket @ '': '') [err] []), w2)
           | (Inr i', w2) \<Rightarrow>
               (case js_Purge J w2 (StreamName (MessageShard ns)) (Subject ns) None of
                  (Inl err, w3) \<Rightarrow> (Inl (Wrapped (''purge messages '' @ ns_Queue ns @ '': '') [err] []), w3)
                | (Inr u, w3) \<Rightarrow>
                    (case js_Purge J w3 (''KV_'' @ bucket) (kv_subject bucket (statePrefix ns @ ''.>'')) None of
                       (Inl err, w4) \<Rightarrow> (Inl (Wrapped (''purge state '' @ ns_Queue ns @ '': '') [err] []), w4)
                     | (Inr u', w4) \<Rightarrow> (Inr (), w4)))))"

section \<open>Scans\<close>

definition decodeNamespace :: "nat \<Rightarrow> string \<Rightarrow> header \<Rightarrow> Namespace result" where
  "decodeNamespace shard subject h =
     (case cut_prefix subject (''sqs.m.'' @ go_itoa shard @ ''.'') of
        None \<Rightarrow> Inl (Text (''subject is not on message shard '' @ go_itoa shard))
      | Some queue \<Rightarrow>
          (case hd_Values h stateShardHeader of
             [v] \<Rightarrow>
               (case go_parse_uint v of
                  None \<Rightarrow> Inl (Text (stateShardHeader @ '': invalid syntax''))
                | Some state \<Rightarrow>
                    if 2 ^ 32 \<le> state then Inl (Text (stateShardHeader @ '': value out of range''))
                    else
                      (let ns = \<lparr>MessageShard = shard, StateShard = state, ns_Queue = queue\<rparr> in
                       case Namespace_Validate ns of Some err \<Rightarrow> Inl err | None \<Rightarrow> Inr ns))
           | vs \<Rightarrow> Inl (Text (go_itoa (length vs) @ '' '' @ stateShardHeader @ '' headers''))))"

text \<open>
  \<open>readRange\<close>: the callback takes the message and what it has gathered so far. The result is the last
  position covered and whether the range is done, with what was gathered.
\<close>

function readRange ::
  "('w, 'v) js \<Rightarrow> string \<Rightarrow> string \<Rightarrow> (raw_msg \<Rightarrow> 's \<Rightarrow> (bool \<times> 's) result) \<Rightarrow> nat \<Rightarrow> nat \<Rightarrow> 's \<Rightarrow> 'w \<Rightarrow>
   (nat \<times> bool \<times> 's) result \<times> 'w" where
  "readRange J stream filt fn bound after s w =
     (if after < bound then
        (case js_NextFor J w stream filt (after + 1) of
           (Inl err, w1) \<Rightarrow> (if errors_Is err ErrMsgNotFound then Inr (bound, True, s) else Inl err, w1)
         | (Inr msg, w1) \<Rightarrow>
             if rw_Sequence msg \<le> after then (Inl (Sentinel ErrInvalidJetStreamResponse), w1)
             else if bound < rw_Sequence msg then (Inr (bound, True, s), w1)
             else
               (case fn msg s of
                  Inl err \<Rightarrow> (Inl err, w1)
                | Inr (cont, s') \<Rightarrow>
                    if \<not> cont \<and> rw_Sequence msg < bound then (Inr (rw_Sequence msg, False, s'), w1)
                    else readRange J stream filt fn bound (rw_Sequence msg) s' w1))
      else (Inr (bound, True, s), w))"
  by pat_completeness auto
termination
  by (relation "measure (\<lambda>(J, stream, filt, fn, bound, after, s, w). bound - after)") auto

declare readRange.simps [simp del]

definition corrupt_at :: "nat \<Rightarrow> nat \<Rightarrow> go_error \<Rightarrow> go_error" where
  "corrupt_at shard seq err =
     Wrapped [] [Sentinel ErrCorruptRecord, Wrapped (StreamName shard @ '' position '' @ go_itoa seq @ '': '') [err] []] []"

definition scan_step :: "nat \<Rightarrow> int \<Rightarrow> raw_msg \<Rightarrow> Change list \<Rightarrow> (bool \<times> Change list) result" where
  "scan_step shard limit msg cs =
     (case decodeNamespace shard (rw_Subject msg) (rw_Header msg) of
        Inl err \<Rightarrow> Inl (corrupt_at shard (rw_Sequence msg) err)
      | Inr ns \<Rightarrow>
          (let cs' = cs @ [\<lparr>ch_Namespace = ns, ch_Position = rw_Sequence msg, ch_Meta = domainMeta (rw_Header msg),
                            ch_Cursor = rw_Sequence msg\<rparr>]
           in Inr (int (length cs') < limit, cs')))"

abbreviation any_queue :: "nat \<Rightarrow> string \<Rightarrow> Namespace" where
  "any_queue shard q \<equiv> \<lparr>MessageShard = shard, StateShard = 0, ns_Queue = q\<rparr>"

definition scan_bound :: "('w, 'v) js \<Rightarrow> nat \<Rightarrow> ScanCursor \<Rightarrow> 'w \<Rightarrow> nat result \<times> 'w" where
  "scan_bound J shard from w =
     (if sc_Bound from = 0 then
        (case js_Stream J w (StreamName shard) of
           (Inl err, w1) \<Rightarrow> (Inl (Wrapped (''scan '' @ StreamName shard @ '': '') [err] []), w1)
         | (Inr i, w1) \<Rightarrow> (Inr (if_LastSeq i), w1))
      else (Inr (sc_Bound from), w))"

definition js_Scan :: "('w, 'v) js \<Rightarrow> 'w \<Rightarrow> nat \<Rightarrow> ScanCursor \<Rightarrow> int \<Rightarrow> ScanPage result \<times> 'w" where
  "js_Scan J w shard from limit =
     (case ValidateScan from limit of
        Some err \<Rightarrow> (Inl err, w)
      | None \<Rightarrow>
          (case open_stream J (any_queue shard ''scan'') w of
             (Inl err, w1) \<Rightarrow> (Inl err, w1)
           | (Inr i, w1) \<Rightarrow>
               (case scan_bound J shard from w1 of
                  (Inl err, w2) \<Rightarrow> (Inl err, w2)
                | (Inr bound, w2) \<Rightarrow>
                    (case readRange J (StreamName shard) (shardFilter shard) (scan_step shard limit) bound (sc_After from) [] w2 of
                       (Inl err, w3) \<Rightarrow> (Inl (Wrapped (''scan '' @ StreamName shard @ '': '') [err] []), w3)
                     | (Inr (lst, fin, cs), w3) \<Rightarrow>
                         (Inr \<lparr>sp_Changes = cs, sp_Next = \<lparr>sc_After = lst, sc_Bound = bound\<rparr>, sp_Done = fin\<rparr>, w3)))))"

section \<open>Usage\<close>

text \<open>The live keys under a prefix. Keys are kept as a list without duplicates.\<close>

definition key_step_list :: "string \<Rightarrow> raw_msg \<Rightarrow> string list \<Rightarrow> string list" where
  "key_step_list subjectPrefix m keys =
     (let key = (case cut_prefix (rw_Subject m) subjectPrefix of Some k \<Rightarrow> k | None \<Rightarrow> rw_Subject m) in
      if kvRemoved (rw_Header m) then removeAll key keys else List.insert key keys)"

function leaderStateKeys ::
  "('w, 'v) js \<Rightarrow> string \<Rightarrow> string \<Rightarrow> nat \<Rightarrow> nat \<Rightarrow> string list \<Rightarrow> 'w \<Rightarrow> string list result \<times> 'w" where
  "leaderStateKeys J bucket keyPrefix bound after keys w =
     (if after < bound then
        (case js_NextFor J w (''KV_'' @ bucket) (kv_subject bucket (keyPrefix @ ''>'')) (after + 1) of
           (Inl err, w1) \<Rightarrow>
             (if errors_Is err ErrMsgNotFound then Inr keys
              else Inl (Wrapped (''read state bucket '' @ bucket @ '': '') [err] []), w1)
         | (Inr m, w1) \<Rightarrow>
             if rw_Sequence m \<le> after then
               (Inl (Wrapped (''read state bucket '' @ bucket @ '': '') [Sentinel ErrInvalidJetStreamResponse] []), w1)
             else if bound < rw_Sequence m then (Inr keys, w1)
             else leaderStateKeys J bucket keyPrefix bound (rw_Sequence m)
                    (key_step_list (kv_subject bucket []) m keys) w1)
      else (Inr keys, w))"
  by pat_completeness auto
termination
  by (relation "measure (\<lambda>(J, bucket, keyPrefix, bound, after, keys, w). bound - after)") auto

declare leaderStateKeys.simps [simp del]

definition liveStateKeys :: "('w, 'v) js \<Rightarrow> nat \<Rightarrow> string \<Rightarrow> 'w \<Rightarrow> string list result \<times> 'w" where
  "liveStateKeys J shard keyPrefix w =
     (let bucket = BucketName shard in
      case js_Stream J w (''KV_'' @ bucket) of
        (Inl err, w1) \<Rightarrow> (Inl (Wrapped (''open state bucket '' @ bucket @ '': '') [err] []), w1)
      | (Inr i, w1) \<Rightarrow>
          (case js_Info J w1 (''KV_'' @ bucket) of
             (Inl err, w2) \<Rightarrow> (Inl (Wrapped (''read state bucket '' @ bucket @ '': '') [err] []), w2)
           | (Inr i, w2) \<Rightarrow> leaderStateKeys J bucket keyPrefix (if_LastSeq i) 0 [] w2))"

record Usage =
  us_Messages :: nat
  us_States :: nat

definition js_Count :: "('w, 'v) js \<Rightarrow> 'w \<Rightarrow> Namespace \<Rightarrow> Usage result \<times> 'w" where
  "js_Count J w ns =
     (case open_stream J ns w of
        (Inl err, w1) \<Rightarrow> (Inl err, w1)
      | (Inr i, w1) \<Rightarrow>
          (case js_SubjectCount J w1 (StreamName (MessageShard ns)) (Subject ns) of
             (Inl err, w2) \<Rightarrow> (Inl (Wrapped (''count messages '' @ ns_Queue ns @ '': '') [err] []), w2)
           | (Inr n, w2) \<Rightarrow>
               (case liveStateKeys J (StateShard ns) (statePrefix ns @ ''.'') w2 of
                  (Inl err, w3) \<Rightarrow> (Inl (Wrapped (''count state '' @ ns_Queue ns @ '': '') [err] []), w3)
                | (Inr keys, w3) \<Rightarrow> (Inr \<lparr>us_Messages = n, us_States = length keys\<rparr>, w3))))"

definition decodeStateKey :: "string \<Rightarrow> string \<Rightarrow> string result" where
  "decodeStateKey prefix key =
     (case cut_prefix key prefix of
        None \<Rightarrow> Inl (Text ''not on this message shard'')
      | Some rest \<Rightarrow>
          (case go_cut (CHR ''.'') rest of
             (queue, pos, found) \<Rightarrow>
               if \<not> found then Inl (Text ''no position'')
               else
                 (case go_parse_uint pos of
                    None \<Rightarrow> Inl (Text ''position'')
                  | Some n \<Rightarrow>
                      if n = 0 \<or> go_itoa n \<noteq> pos then Inl (Text ''position'')
                      else
                        (case Namespace_Validate (any_queue 0 queue) of
                           Some err \<Rightarrow> Inl err
                         | None \<Rightarrow> Inr queue))))"

text \<open>Maps from queues are association lists, in the order their entries were made.\<close>

record bodyAllocation =
  ba_stateShard :: nat
  ba_messages :: nat

definition alloc_step ::
  "nat \<Rightarrow> raw_msg \<Rightarrow> (string \<times> bodyAllocation) list \<Rightarrow> (bool \<times> (string \<times> bodyAllocation) list) result" where
  "alloc_step shard msg out =
     (case decodeNamespace shard (rw_Subject msg) (rw_Header msg) of
        Inl err \<Rightarrow> Inl (corrupt_at shard (rw_Sequence msg) err)
      | Inr ns \<Rightarrow>
          (let n = (case map_of out (ns_Queue ns) of None \<Rightarrow> 0 | Some a \<Rightarrow> ba_messages a) in
           if map_option ba_stateShard (map_of out (ns_Queue ns)) \<notin> {None, Some (StateShard ns)} then
             Inl (Wrapped [] [Sentinel ErrCorruptRecord] ('': '' @ rw_Subject msg @ '' bodies name two state shards''))
           else
             Inr (True, AList.update (ns_Queue ns) \<lparr>ba_stateShard = StateShard ns, ba_messages = n + 1\<rparr> out)))"

definition bodyAllocations :: "('w, 'v) js \<Rightarrow> nat \<Rightarrow> 'w \<Rightarrow> (string \<times> bodyAllocation) list result \<times> 'w" where
  "bodyAllocations J shard w =
     (case open_stream J (any_queue shard ''enumerate'') w of
        (Inl err, w1) \<Rightarrow> (Inl err, w1)
      | (Inr i, w1) \<Rightarrow>
          (case js_Info J w1 (StreamName shard) of
             (Inl err, w2) \<Rightarrow> (Inl (Wrapped (''enumerate '' @ StreamName shard @ '': '') [err] []), w2)
           | (Inr i', w2) \<Rightarrow>
               (case readRange J (StreamName shard) (shardFilter shard) (alloc_step shard) (if_LastSeq i') 0 [] w2 of
                  (Inl err, w3) \<Rightarrow> (Inl (Wrapped (''enumerate '' @ StreamName shard @ '': '') [err] []), w3)
                | (Inr (lst, fin, out), w3) \<Rightarrow> (Inr out, w3))))"

definition bucket_shard :: "string \<Rightarrow> nat option" where
  "bucket_shard name =
     (case cut_prefix name ''sqs_state_'' of
        None \<Rightarrow> None
      | Some digits \<Rightarrow>
          (case go_parse_uint digits of
             None \<Rightarrow> None
           | Some n \<Rightarrow> if 2 ^ 32 \<le> n \<or> go_itoa n \<noteq> digits then None else Some n))"

definition stateShards :: "('w, 'v) js \<Rightarrow> 'w \<Rightarrow> nat list result \<times> 'w" where
  "stateShards J w =
     (case js_BucketNames J w of
        (Inl err, w1) \<Rightarrow> (Inl (Wrapped ''list state buckets: '' [err] []), w1)
      | (Inr names, w1) \<Rightarrow> (Inr (sort (List.map_filter bucket_shard names)), w1))"

type_synonym state_counts = "(string \<times> (nat \<times> nat) list) list"

definition count_key :: "nat \<Rightarrow> string \<Rightarrow> state_counts \<Rightarrow> state_counts" where
  "count_key shard queue out =
     (let by = (case map_of out queue of None \<Rightarrow> [] | Some m \<Rightarrow> m);
          n = (case map_of by shard of None \<Rightarrow> 0 | Some n \<Rightarrow> n)
      in AList.update queue (AList.update shard (n + 1) by) out)"

fun count_keys :: "nat \<Rightarrow> string \<Rightarrow> string list \<Rightarrow> state_counts \<Rightarrow> state_counts result" where
  "count_keys shard prefix [] out = Inr out"
| "count_keys shard prefix (key # keys) out =
     (case decodeStateKey prefix key of
        Inl err \<Rightarrow>
          Inl (Wrapped [] [Sentinel ErrCorruptRecord, Wrapped (BucketName shard @ '' key: '') [err] []] [])
      | Inr queue \<Rightarrow> count_keys shard prefix keys (count_key shard queue out))"

fun state_allocations_from ::
  "('w, 'v) js \<Rightarrow> string \<Rightarrow> nat list \<Rightarrow> state_counts \<Rightarrow> 'w \<Rightarrow> state_counts result \<times> 'w" where
  "state_allocations_from J prefix [] out w = (Inr out, w)"
| "state_allocations_from J prefix (shard # shards) out w =
     (case liveStateKeys J shard prefix w of
        (Inl err, w1) \<Rightarrow> (Inl (Wrapped (''enumerate '' @ BucketName shard @ '': '') [err] []), w1)
      | (Inr keys, w1) \<Rightarrow>
          (case count_keys shard prefix keys out of
             Inl err \<Rightarrow> (Inl err, w1)
           | Inr out' \<Rightarrow> state_allocations_from J prefix shards out' w1))"

definition stateAllocations :: "('w, 'v) js \<Rightarrow> nat \<Rightarrow> 'w \<Rightarrow> state_counts result \<times> 'w" where
  "stateAllocations J shard w =
     (case stateShards J w of
        (Inl err, w1) \<Rightarrow> (Inl err, w1)
      | (Inr shards, w1) \<Rightarrow> state_allocations_from J (''q.'' @ go_itoa shard @ ''.'') shards [] w1)"

record NamespaceUsage =
  nu_Namespace :: Namespace
  nu_Usage :: Usage

text \<open>Adding the state counts of one queue to the rows, or the conflict they show.\<close>

definition merge_state ::
  "nat \<Rightarrow> string \<times> (nat \<times> nat) list \<Rightarrow> (string \<times> NamespaceUsage) list \<times> go_error list \<Rightarrow>
   (string \<times> NamespaceUsage) list \<times> go_error list" where
  "merge_state shard qs acc =
     (case (qs, acc) of
        ((queue, [(st, n)]), (rows, conflicts)) \<Rightarrow>
          (case map_of rows queue of
             None \<Rightarrow>
               (AList.update queue
                  \<lparr>nu_Namespace = \<lparr>MessageShard = shard, StateShard = st, ns_Queue = queue\<rparr>,
                   nu_Usage = \<lparr>us_Messages = 0, us_States = n\<rparr>\<rparr> rows, conflicts)
           | Some row \<Rightarrow>
               if StateShard (nu_Namespace row) \<noteq> st then
                 (rows, conflicts @ [Wrapped [] [Sentinel ErrCorruptRecord]
                    ('': queue '' @ queue @ '': bodies name state shard '' @ go_itoa (StateShard (nu_Namespace row)) @
                     '', state is in '' @ go_itoa st)])
               else (AList.update queue (row\<lparr>nu_Usage := (nu_Usage row)\<lparr>us_States := n\<rparr>\<rparr>) rows, conflicts))
      | ((queue, []), (rows, conflicts)) \<Rightarrow> (rows, conflicts)
      | ((queue, shards), (rows, conflicts)) \<Rightarrow>
          (rows, conflicts @ [Wrapped [] [Sentinel ErrCorruptRecord]
             ('': queue '' @ queue @ '' has state in '' @ go_itoa (length shards) @ '' state shards'')]))"

definition merge_usage ::
  "nat \<Rightarrow> (string \<times> bodyAllocation) list \<Rightarrow> state_counts \<Rightarrow> NamespaceUsage list result" where
  "merge_usage shard bodies states =
     (let rows = map (\<lambda>(queue, b). (queue,
            \<lparr>nu_Namespace = \<lparr>MessageShard = shard, StateShard = ba_stateShard b, ns_Queue = queue\<rparr>,
             nu_Usage = \<lparr>us_Messages = ba_messages b, us_States = 0\<rparr>\<rparr>)) bodies
      in case fold (merge_state shard) states (rows, []) of
           (rows', []) \<Rightarrow> Inr (sort_key (ns_Queue \<circ> nu_Namespace) (map snd rows'))
         | (rows', conflicts) \<Rightarrow> Inl (Wrapped [] conflicts []))"

definition js_Namespaces :: "('w, 'v) js \<Rightarrow> 'w \<Rightarrow> nat \<Rightarrow> NamespaceUsage list result \<times> 'w" where
  "js_Namespaces J w shard =
     (case bodyAllocations J shard w of
        (Inl err, w1) \<Rightarrow> (Inl err, w1)
      | (Inr bodies, w1) \<Rightarrow>
          (case stateAllocations J shard w1 of
             (Inl err, w2) \<Rightarrow> (Inl err, w2)
           | (Inr states, w2) \<Rightarrow> (merge_usage shard bodies states, w2)))"

section \<open>The store\<close>

definition js_store :: "('w, 'v) js \<Rightarrow> ('w, 'v) msg_store" where
  "js_store J = \<lparr>st_Append = js_Append J, st_Get = js_Get J, st_Delete = js_DeleteMessage J, st_GetState = js_GetState J,
     st_PutState = js_PutState J, st_DeleteState = js_DeleteState J, st_Scan = js_Scan J\<rparr>"

definition LeaderKVGet :: "('w, 'v) js \<Rightarrow> string \<Rightarrow> string \<Rightarrow> 'w \<Rightarrow> ('v \<times> nat) result \<times> 'w" where
  "LeaderKVGet J bucket key w =
     (case js_LastFor J w (''KV_'' @ bucket) (kv_subject bucket key) of
        (Inl err, w1) \<Rightarrow> (if errors_Is err ErrMsgNotFound then Inl (Sentinel ErrKeyNotFound) else Inl err, w1)
      | (Inr (h, v, seq), w1) \<Rightarrow> (if kvRemoved h then Inl (Sentinel ErrKeyNotFound) else Inr (v, seq), w1))"

end
