(* ===== verification/SqsJetstream_Claims.thy ===== *)
theory SqsJetstream_Claims
  imports SqsJetstream
begin

text \<open>
  The JetStream store keeps the store's contract. What it relies on of JetStream is stated first: a
  stream stores messages under growing sequence numbers and a leader answers reads with what is stored,
  a key-value write named a revision is atomic and a conflict changes nothing, any other error leaves
  the outcome open, and JetStream's errors are not the service's own.
\<close>

section \<open>What the store relies on of JetStream\<close>

record ('w, 'v) js_view =
  jv_msg :: "'w \<Rightarrow> string \<Rightarrow> nat \<Rightarrow> raw_msg option"
  jv_last :: "'w \<Rightarrow> string \<Rightarrow> nat"
  jv_key :: "'w \<Rightarrow> string \<Rightarrow> string \<Rightarrow> ('v \<times> nat) option"
  jv_hist :: "'w \<Rightarrow> string \<Rightarrow> string \<Rightarrow> nat \<Rightarrow> 'v option"
  jv_rely :: "'w \<Rightarrow> 'w \<Rightarrow> bool"

definition js_view_ok :: "('w, 'v) js_view \<Rightarrow> bool" where
  "js_view_ok V \<longleftrightarrow>
     (\<forall>w. jv_rely V w w) \<and>
     (\<forall>a b c. jv_rely V a b \<longrightarrow> jv_rely V b c \<longrightarrow> jv_rely V a c) \<and>
     (\<forall>w w' b k r v. jv_rely V w w' \<longrightarrow> jv_hist V w b k r = Some v \<longrightarrow> jv_hist V w' b k r = Some v) \<and>
     (\<forall>w b k r v. jv_key V w b k = Some (v, r) \<longrightarrow> jv_hist V w b k r = Some v \<and> r \<noteq> 0) \<and>
     (\<forall>w s q m. jv_msg V w s q = Some m \<longrightarrow> q \<le> jv_last V w s)"

definition jv_seen :: "('w, 'v) js_view \<Rightarrow> ('w \<Rightarrow> bool) \<Rightarrow> 'w \<Rightarrow> 'w \<Rightarrow> bool" where
  "jv_seen V P w w' \<longleftrightarrow> (\<exists>u. jv_rely V w u \<and> P u \<and> jv_rely V u w')"

text \<open>One instant at which a key, or a message of a stream, changes.\<close>

definition key_step :: "('w, 'v) js_view \<Rightarrow> string \<Rightarrow> string \<Rightarrow> ('v \<times> nat) option \<Rightarrow> 'w \<Rightarrow> 'w \<Rightarrow> bool" where
  "key_step V b k new w w' \<longleftrightarrow>
     jv_key V w' = (jv_key V w)(b := (jv_key V w b)(k := new)) \<and> jv_msg V w' = jv_msg V w \<and> jv_last V w' = jv_last V w \<and>
     (\<forall>b k r v. jv_hist V w b k r = Some v \<longrightarrow> jv_hist V w' b k r = Some v)"

definition msg_step :: "('w, 'v) js_view \<Rightarrow> string \<Rightarrow> nat \<Rightarrow> raw_msg option \<Rightarrow> 'w \<Rightarrow> 'w \<Rightarrow> bool" where
  "msg_step V s q new w w' \<longleftrightarrow>
     jv_msg V w' = (jv_msg V w)(s := (jv_msg V w s)(q := new)) \<and> jv_key V w' = jv_key V w \<and>
     (case new of
        None \<Rightarrow> jv_last V w' = jv_last V w
      | Some m \<Rightarrow> jv_last V w s < q \<and> jv_last V w' = (jv_last V w)(s := q)) \<and>
     (\<forall>b k r v. jv_hist V w b k r = Some v \<longrightarrow> jv_hist V w' b k r = Some v)"

definition key_done ::
  "('w, 'v) js_view \<Rightarrow> string \<Rightarrow> string \<Rightarrow> ('v \<times> nat) option \<Rightarrow> ('v \<times> nat) option \<Rightarrow> 'w \<Rightarrow> 'w \<Rightarrow> bool" where
  "key_done V b k old new w w' \<longleftrightarrow>
     (\<exists>u u'. jv_rely V w u \<and> jv_key V u b k = old \<and> key_step V b k new u u' \<and> jv_rely V u' w')"

definition msg_done :: "('w, 'v) js_view \<Rightarrow> string \<Rightarrow> nat \<Rightarrow> raw_msg option \<Rightarrow> 'w \<Rightarrow> 'w \<Rightarrow> bool" where
  "msg_done V s q new w w' \<longleftrightarrow> (\<exists>u u'. jv_rely V w u \<and> msg_step V s q new u u' \<and> jv_rely V u' w')"

text \<open>An error of JetStream is none of the service's own errors.\<close>

definition foreign :: "go_error \<Rightarrow> bool" where
  "foreign e \<longleftrightarrow> \<not> errors_Is e sqs_ErrNotFound \<and> \<not> errors_Is e sqs_ErrRevisionMismatch"

definition read_ok :: "('w, 'v) js_view \<Rightarrow> ('w \<Rightarrow> 'a result \<times> 'w) \<Rightarrow> bool" where
  "read_ok V f \<longleftrightarrow> (\<forall>w x w'. f w = (x, w') \<longrightarrow> jv_rely V w w' \<and> (\<forall>e. x = Inl e \<longrightarrow> foreign e))"

definition key_outcome ::
  "('w, 'v) js_view \<Rightarrow> string \<Rightarrow> string \<Rightarrow> (('v \<times> nat) option \<Rightarrow> bool) \<Rightarrow> ('r \<Rightarrow> ('v \<times> nat) option) \<Rightarrow>
   'r result \<Rightarrow> 'w \<Rightarrow> 'w \<Rightarrow> bool" where
  "key_outcome V b k P new x w w' \<longleftrightarrow>
     (case x of
        Inr r \<Rightarrow> \<exists>old. P old \<and> key_done V b k old (new r) w w'
      | Inl e \<Rightarrow> foreign e \<and>
          (jv_rely V w w' \<or> (\<not> isConflict e \<and> (\<exists>old r. P old \<and> key_done V b k old (new r) w w'))))"

definition Publish_law :: "('w, 'v) js \<Rightarrow> ('w, 'v) js_view \<Rightarrow> bool" where
  "Publish_law J V \<longleftrightarrow> (\<forall>w subj h d s mid x w'. js_PublishMsg J w subj h d s mid = (x, w') \<longrightarrow>
     (case x of
        Inr (seq, dup) \<Rightarrow> seq \<noteq> 0 \<and>
          (if dup then jv_rely V w w'
           else msg_done V s seq (Some \<lparr>rw_Subject = subj, rw_Sequence = seq, rw_Header = h, rw_Data = d\<rparr>) w w')
      | Inl e \<Rightarrow> foreign e \<and>
          (jv_rely V w w' \<or>
           (\<exists>seq. msg_done V s seq (Some \<lparr>rw_Subject = subj, rw_Sequence = seq, rw_Header = h, rw_Data = d\<rparr>) w w'))))"

text \<open>A read that a follower may serve says nothing.\<close>

definition GetMsg_law :: "('w, 'v) js \<Rightarrow> ('w, 'v) js_view \<Rightarrow> bool" where
  "GetMsg_law J V \<longleftrightarrow> (\<forall>w s i q x w'. js_GetMsg J w s i q = (x, w') \<longrightarrow>
     jv_rely V w w' \<and>
     (\<not> if_Direct i \<longrightarrow> \<not> if_MirrorDirect i \<longrightarrow>
        (case x of
           Inr m \<Rightarrow> jv_seen V (\<lambda>u. jv_msg V u s q = Some m) w w'
         | Inl e \<Rightarrow> foreign e \<and> (errors_Is e ErrMsgNotFound \<longrightarrow> jv_seen V (\<lambda>u. jv_msg V u s q = None) w w'))))"

definition DeleteMsg_law :: "('w, 'v) js \<Rightarrow> ('w, 'v) js_view \<Rightarrow> bool" where
  "DeleteMsg_law J V \<longleftrightarrow> (\<forall>w s q x w'. js_DeleteMsg J w s q = (x, w') \<longrightarrow>
     (case x of
        Inr u \<Rightarrow> msg_done V s q None w w'
      | Inl e \<Rightarrow> foreign e \<and>
          (if errors_Is e ErrMsgNotFound then jv_seen V (\<lambda>u. jv_msg V u s q = None) w w'
           else jv_rely V w w' \<or> msg_done V s q None w w')))"

definition LastFor_law :: "('w, 'v) js \<Rightarrow> ('w, 'v) js_view \<Rightarrow> bool" where
  "LastFor_law J V \<longleftrightarrow> (\<forall>w b k x w'. js_LastFor J w (''KV_'' @ b) (kv_subject b k) = (x, w') \<longrightarrow>
     jv_rely V w w' \<and>
     (case x of
        Inr (h, v, seq) \<Rightarrow> jv_seen V (\<lambda>u. jv_key V u b k = (if kvRemoved h then None else Some (v, seq))) w w'
      | Inl e \<Rightarrow> foreign e \<and> (errors_Is e ErrMsgNotFound \<longrightarrow> jv_seen V (\<lambda>u. jv_key V u b k = None) w w')))"

definition Key_laws :: "('w, 'v) js \<Rightarrow> ('w, 'v) js_view \<Rightarrow> bool" where
  "Key_laws J V \<longleftrightarrow>
     (\<forall>w b k v x w'. js_Create J w b k v = (x, w') \<longrightarrow> key_outcome V b k (\<lambda>old. old = None) (\<lambda>r. Some (v, r)) x w w') \<and>
     (\<forall>w b k v r0 x w'. js_Update J w b k v r0 = (x, w') \<longrightarrow>
        key_outcome V b k (\<lambda>old. \<exists>v0. old = Some (v0, r0)) (\<lambda>r. Some (v, r)) x w w') \<and>
     (\<forall>w b k r0 x w'. js_Delete J w b k (Some r0) = (x, w') \<longrightarrow>
        key_outcome V b k (\<lambda>old. \<exists>v0. old = Some (v0, r0)) (\<lambda>r. None) x w w')"

definition Handle_laws :: "('w, 'v) js \<Rightarrow> ('w, 'v) js_view \<Rightarrow> bool" where
  "Handle_laws J V \<longleftrightarrow>
     (\<forall>s. read_ok V (\<lambda>w. js_Stream J w s)) \<and> (\<forall>b. read_ok V (\<lambda>w. js_KeyValue J w b)) \<and>
     (\<forall>s f q. read_ok V (\<lambda>w. js_NextFor J w s f q)) \<and>
     (\<forall>n i w. jv_rely V w (js_keep_stream J n i w)) \<and> (\<forall>n w. jv_rely V w (js_keep_bucket J n w))"

definition jetstream_lawful :: "('w, 'v) js \<Rightarrow> ('w, 'v) js_view \<Rightarrow> bool" where
  "jetstream_lawful J V \<longleftrightarrow> js_view_ok V \<and> Publish_law J V \<and> GetMsg_law J V \<and> DeleteMsg_law J V \<and> LastFor_law J V \<and>
     Key_laws J V \<and> Handle_laws J V"

lemma js_laws:
  assumes "jetstream_lawful J V"
  shows "js_view_ok V" "Publish_law J V" "GetMsg_law J V" "DeleteMsg_law J V" "LastFor_law J V" "Key_laws J V" "Handle_laws J V"
  using assms by (simp_all add: jetstream_lawful_def)

section \<open>A queue in JetStream\<close>

definition js_body :: "('w, 'v) js_view \<Rightarrow> Namespace \<Rightarrow> 'w \<Rightarrow> nat \<Rightarrow> Message option" where
  "js_body V ns w p =
     (case jv_msg V w (StreamName (MessageShard ns)) p of
        None \<Rightarrow> None
      | Some m \<Rightarrow>
          if rw_Subject m = Subject ns
          then Some \<lparr>m_Position = p, m_Body = rw_Data m, m_Meta = domainMeta (rw_Header m)\<rparr> else None)"

definition js_msg_view :: "('w, 'v) js_view \<Rightarrow> Namespace \<Rightarrow> ('w, 'v) msg_view" where
  "js_msg_view V ns =
     \<lparr>mv_body = js_body V ns, mv_last = \<lambda>w. jv_last V w (StreamName (MessageShard ns)),
      mv_state = \<lambda>w p. jv_key V w (BucketName (StateShard ns)) (StateKey ns p),
      mv_hist = \<lambda>w p. jv_hist V w (BucketName (StateShard ns)) (StateKey ns p), mv_rely = jv_rely V\<rparr>"

lemma js_msg_view_sel [simp]:
  "mv_body (js_msg_view V ns) = js_body V ns" "mv_last (js_msg_view V ns) w = jv_last V w (StreamName (MessageShard ns))"
  "mv_state (js_msg_view V ns) w p = jv_key V w (BucketName (StateShard ns)) (StateKey ns p)"
  "mv_hist (js_msg_view V ns) w p = jv_hist V w (BucketName (StateShard ns)) (StateKey ns p)"
  "mv_rely (js_msg_view V ns) = jv_rely V"
  by (simp_all add: js_msg_view_def)

lemma go_itoa_inj: "go_itoa m = go_itoa n \<longleftrightarrow> m = n"
  by (metis digits_val_itoa)

lemma StateKey_inj: "StateKey ns p = StateKey ns q \<longleftrightarrow> p = q"
  by (simp add: StateKey_def go_itoa_inj)

lemma cut_prefix_append: "cut_prefix (p @ s) p = Some s"
  by (simp add: cut_prefix_def go_has_prefix_append)

lemma cut_prefix_Some: "cut_prefix s p = Some t \<longleftrightarrow> s = p @ t"
  by (auto simp: cut_prefix_def go_has_prefix_append)

text \<open>The metadata of a stored message is what was given to the append.\<close>

lemma domainMeta_append: "domainMeta (append_header ns m) = m"
  by (rule ext) (simp add: domainMeta_def append_header_def stateShardHeader_def metaHeaderPrefix_def
      cut_prefix_append [of "''Sqs-Meta-''", simplified] split: option.splits)

section \<open>The operations\<close>

lemma foreign_wrap [simp]: "foreign (Wrapped a [e] b) = foreign e"
  by (simp add: foreign_def)

lemma Validate_foreign: "Namespace_Validate ns = Some e \<Longrightarrow> foreign e"
  by (auto simp: Namespace_Validate_def Let_def foreign_def sqs_ErrNotFound_def sqs_ErrRevisionMismatch_def
      sqs_ErrInvalidArgument_def split: if_splits)

lemma jv_refl: "js_view_ok V \<Longrightarrow> jv_rely V w w"
  by (simp add: js_view_ok_def)

lemma jv_trans: "js_view_ok V \<Longrightarrow> jv_rely V a b \<Longrightarrow> jv_rely V b c \<Longrightarrow> jv_rely V a c"
  unfolding js_view_ok_def by blast

lemma jv_seen_start: "js_view_ok V \<Longrightarrow> jv_rely V w w1 \<Longrightarrow> jv_seen V P w1 w' \<Longrightarrow> jv_seen V P w w'"
  unfolding jv_seen_def by (blast intro: jv_trans)

lemma jv_seen_mono: "jv_seen V P w w' \<Longrightarrow> (\<And>u. P u \<Longrightarrow> Q u) \<Longrightarrow> jv_seen V Q w w'"
  unfolding jv_seen_def by blast

lemma msg_done_start: "js_view_ok V \<Longrightarrow> jv_rely V w w1 \<Longrightarrow> msg_done V s q new w1 w' \<Longrightarrow> msg_done V s q new w w'"
  unfolding msg_done_def by (blast intro: jv_trans)

lemma key_done_start: "js_view_ok V \<Longrightarrow> jv_rely V w w1 \<Longrightarrow> key_done V b k old new w1 w' \<Longrightarrow> key_done V b k old new w w'"
  unfolding key_done_def by (blast intro: jv_trans)

lemma seen_js: "seen (js_msg_view V ns) P w w' = jv_seen V P w w'"
  by (simp add: seen_def jv_seen_def)

lemma js_msg_view_ok: "js_view_ok V \<Longrightarrow> msg_view_ok (js_msg_view V ns)"
  unfolding msg_view_ok_def js_view_ok_def
  by (auto simp: js_body_def split: option.splits if_splits)

lemma key_step_state:
  "key_step V (BucketName (StateShard ns)) (StateKey ns p) new u u' \<Longrightarrow> state_step (js_msg_view V ns) p new u u'"
  by (simp add: key_step_def state_step_def js_body_def StateKey_inj fun_eq_iff)

lemma key_done_put:
  "key_done V (BucketName (StateShard ns)) (StateKey ns p) old new w w' \<Longrightarrow> put_done (js_msg_view V ns) p old new w w'"
  unfolding key_done_def put_done_def js_msg_view_sel by (elim ex_forward conj_forward) (auto dest: key_step_state)

lemma msg_step_body:
  "msg_step V (StreamName (MessageShard ns)) p None u u' \<Longrightarrow> body_step (js_msg_view V ns) p None u u'"
  by (simp add: msg_step_def body_step_def js_body_def fun_eq_iff)

lemma msg_done_gone:
  "msg_done V (StreamName (MessageShard ns)) p None w w' \<Longrightarrow> body_gone (js_msg_view V ns) p w w'"
  unfolding msg_done_def body_gone_def js_msg_view_sel by (elim ex_forward conj_forward) (auto dest: msg_step_body)

lemma msg_done_appended:
  assumes V: "js_view_ok V"
    and d: "msg_done V (StreamName (MessageShard ns)) p
      (Some \<lparr>rw_Subject = Subject ns, rw_Sequence = p, rw_Header = append_header ns (ai_Meta ai), rw_Data = ai_Body ai\<rparr>) w w'"
  shows "appended (js_msg_view V ns) ai p w w'"
proof -
  let ?s = "StreamName (MessageShard ns)"
  from d obtain u u' where u: "jv_rely V w u" "jv_rely V u' w'" and st: "msg_step V ?s p
      (Some \<lparr>rw_Subject = Subject ns, rw_Sequence = p, rw_Header = append_header ns (ai_Meta ai), rw_Data = ai_Body ai\<rparr>) u u'"
    unfolding msg_done_def by (elim exE conjE)
  have "jv_last V u ?s < p" using st by (simp add: msg_step_def)
  with V have "jv_msg V u ?s p = None" unfolding js_view_ok_def by (metis not_None_eq not_le)
  then have "mv_body (js_msg_view V ns) u p = None" by (simp add: js_body_def)
  moreover have "body_step (js_msg_view V ns) p (Some \<lparr>m_Position = p, m_Body = ai_Body ai, m_Meta = ai_Meta ai\<rparr>) u u'"
    using st by (auto simp: msg_step_def body_step_def js_body_def fun_eq_iff domainMeta_append)
  ultimately show ?thesis unfolding appended_def using u by auto
qed

lemma open_stream_run:
  assumes J: "jetstream_lawful J V" and run: "open_stream J ns w = (x, w')"
  shows "jv_rely V w w'" and "x = Inl e \<Longrightarrow> foreign e"
proof -
  note V = js_laws(1) [OF J] and S = js_laws(7) [OF J]
  obtain y w1 where y: "js_Stream J w (StreamName (MessageShard ns)) = (y, w1)" by fastforce
  from S have ro: "read_ok V (\<lambda>w. js_Stream J w (StreamName (MessageShard ns)))"
    and k: "jv_rely V u (js_keep_stream J n i u)" for n i u unfolding Handle_laws_def by blast+
  from ro y have r: "jv_rely V w w1" "\<And>e. y = Inl e \<Longrightarrow> foreign e" unfolding read_ok_def by blast+
  show "jv_rely V w w'"
    using run y r(1) k jv_refl [OF V] jv_trans [OF V]
    by (auto simp: open_stream_def split: option.splits sum.splits prod.splits)
  show "foreign e" if "x = Inl e"
    using run y r(2) that Validate_foreign
    by (auto simp: open_stream_def split: option.splits sum.splits prod.splits)
qed

lemma open_bucket_run:
  assumes J: "jetstream_lawful J V" and run: "open_bucket J ns w = (x, w')"
  shows "jv_rely V w w'" and "x = Inl e \<Longrightarrow> foreign e"
proof -
  note V = js_laws(1) [OF J] and S = js_laws(7) [OF J]
  obtain y w1 where y: "js_KeyValue J w (BucketName (StateShard ns)) = (y, w1)" by fastforce
  from S have ro: "read_ok V (\<lambda>w. js_KeyValue J w (BucketName (StateShard ns)))"
    and k: "jv_rely V u (js_keep_bucket J n u)" for n u unfolding Handle_laws_def by blast+
  from ro y have r: "jv_rely V w w1" "\<And>e. y = Inl e \<Longrightarrow> foreign e" unfolding read_ok_def by blast+
  show "jv_rely V w w'"
    using run y r(1) k jv_refl [OF V] jv_trans [OF V]
    by (auto simp: open_bucket_def split: option.splits sum.splits prod.splits if_splits)
  show "foreign e" if "x = Inl e"
    using run y r(2) that Validate_foreign
    by (auto simp: open_bucket_def split: option.splits sum.splits prod.splits if_splits)
qed

lemma owned_run:
  assumes J: "jetstream_lawful J V" and run: "owned J i ns p w = (x, w')"
  shows "jv_rely V w w'"
    and "x = Inr m \<Longrightarrow> rw_Subject m = Subject ns \<and> jv_seen V (\<lambda>u. jv_msg V u (StreamName (MessageShard ns)) p = Some m) w w'"
    and "x = Inl e \<Longrightarrow> errors_Is e sqs_ErrNotFound \<Longrightarrow> jv_seen V (\<lambda>u. js_body V ns u p = None) w w'"
proof -
  let ?s = "StreamName (MessageShard ns)"
  note V = js_laws(1) [OF J]
  obtain y w1 where y: "js_GetMsg J w ?s i p = (y, w1)" by fastforce
  from js_laws(3) [OF J, unfolded GetMsg_law_def, rule_format, OF y] have g: "jv_rely V w w1"
    "\<not> if_Direct i \<Longrightarrow> \<not> if_MirrorDirect i \<Longrightarrow>
       (case y of Inr m \<Rightarrow> jv_seen V (\<lambda>u. jv_msg V u ?s p = Some m) w w1
        | Inl e \<Rightarrow> foreign e \<and> (errors_Is e ErrMsgNotFound \<longrightarrow> jv_seen V (\<lambda>u. jv_msg V u ?s p = None) w w1))"
    by blast+
  have dg: "\<not> errors_Is (Sentinel errDirectGet) sqs_ErrNotFound" by (simp add: errDirectGet_def sqs_ErrNotFound_def)
  have none: "jv_seen V (\<lambda>u. jv_msg V u ?s p = None) a b \<Longrightarrow> jv_seen V (\<lambda>u. js_body V ns u p = None) a b" for a b
    by (erule jv_seen_mono) (simp add: js_body_def)
  have other: "jv_seen V (\<lambda>u. jv_msg V u ?s p = Some m) a b \<Longrightarrow> rw_Subject m \<noteq> Subject ns \<Longrightarrow>
      jv_seen V (\<lambda>u. js_body V ns u p = None) a b" for a b m
    by (erule jv_seen_mono) (simp add: js_body_def)
  show "jv_rely V w w'" using run y g(1) jv_refl [OF V] by (auto simp: owned_def split: if_splits sum.splits)
  show "rw_Subject m = Subject ns \<and> jv_seen V (\<lambda>u. jv_msg V u ?s p = Some m) w w'" if "x = Inr m"
    using run y g(2) that by (auto simp: owned_def split: if_splits sum.splits)
  show "jv_seen V (\<lambda>u. js_body V ns u p = None) w w'" if x: "x = Inl e" "errors_Is e sqs_ErrNotFound"
  proof (cases "if_Direct i \<or> if_MirrorDirect i")
    case True
    with run x dg show ?thesis by (auto simp: owned_def)
  next
    case False
    show ?thesis
    proof (cases y)
      case (Inl e')
      with run y x g(2) False have "errors_Is e' ErrMsgNotFound" "w' = w1" by (auto simp: owned_def foreign_def split: if_splits)
      with g(2) False Inl none show ?thesis by simp
    next
      case (Inr m)
      with run y x False have "rw_Subject m \<noteq> Subject ns" "w' = w1" by (auto simp: owned_def split: if_splits)
      with g(2) False Inr other show ?thesis by simp
    qed
  qed
qed

section \<open>The contract\<close>

lemma js_Get_contract:
  assumes J: "jetstream_lawful J V"
  shows "Get_contract (js_store J) (js_msg_view V ns) ns"
  unfolding Get_contract_def
proof (intro allI impI)
  fix w p x w'
  assume "st_Get (js_store J) w ns p = (x, w')"
  then have run: "js_Get J w ns p = (x, w')" by (simp add: js_store_def)
  note V = js_laws(1) [OF J]
  obtain y w1 where y: "open_stream J ns w = (y, w1)" by fastforce
  note o = open_stream_run [OF J y]
  show "mv_rely (js_msg_view V ns) w w' \<and>
    (\<forall>m. x = Inr m \<longrightarrow> m_Position m = p \<and> seen (js_msg_view V ns) (\<lambda>u. mv_body (js_msg_view V ns) u p = Some m) w w') \<and>
    (\<forall>e. x = Inl e \<longrightarrow> errors_Is e sqs_ErrNotFound \<longrightarrow> seen (js_msg_view V ns) (\<lambda>u. mv_body (js_msg_view V ns) u p = None) w w')"
  proof (cases y)
    case (Inl e)
    with run y o show ?thesis by (auto simp: js_Get_def foreign_def)
  next
    case (Inr i)
    obtain z w2 where z: "owned J i ns p w1 = (z, w2)" by fastforce
    note ow = owned_run [OF J z]
    have w': "w' = w2" using run y Inr z by (auto simp: js_Get_def split: sum.splits)
    have "jv_seen V (\<lambda>u. js_body V ns u p = Some m) w w'" if "x = Inr m" for m
    proof -
      from run y Inr z that obtain raw where raw: "z = Inr raw"
        "m = \<lparr>m_Position = p, m_Body = rw_Data raw, m_Meta = domainMeta (rw_Header raw)\<rparr>"
        by (auto simp: js_Get_def split: sum.splits)
      from ow(2) [OF raw(1)] have "jv_seen V (\<lambda>u. js_body V ns u p = Some m) w1 w2"
        by (auto simp: js_body_def raw(2) elim: jv_seen_mono)
      then show ?thesis unfolding w' by (rule jv_seen_start [OF V o(1)])
    qed
    moreover have "jv_seen V (\<lambda>u. js_body V ns u p = None) w w'" if "x = Inl e" "errors_Is e sqs_ErrNotFound" for e
    proof -
      from run y Inr z that have "z = Inl e" by (auto simp: js_Get_def split: sum.splits)
      from jv_seen_start [OF V o(1) ow(3) [OF this that(2)]] show ?thesis unfolding w' .
    qed
    moreover have "m_Position m = p" if "x = Inr m" for m
      using run y Inr z that by (auto simp: js_Get_def split: sum.splits)
    ultimately show ?thesis using jv_trans [OF V o(1) ow(1)] by (simp add: seen_js w')
  qed
qed

lemma js_Delete_contract:
  assumes J: "jetstream_lawful J V"
  shows "Delete_contract (js_store J) (js_msg_view V ns) ns"
  unfolding Delete_contract_def
proof (intro allI impI)
  fix w p x w'
  assume "st_Delete (js_store J) w ns p = (x, w')"
  then have run: "js_DeleteMessage J w ns p = (x, w')" by (simp add: js_store_def)
  let ?s = "StreamName (MessageShard ns)" and ?V = "js_msg_view V ns"
  note V = js_laws(1) [OF J]
  obtain y w1 where y: "open_stream J ns w = (y, w1)" by fastforce
  note o = open_stream_run [OF J y]
  show "case x of Inr r \<Rightarrow> seen ?V (\<lambda>u. mv_body ?V u p = None) w w' \<or> body_gone ?V p w w'
    | Inl e \<Rightarrow> mv_rely ?V w w' \<or> body_gone ?V p w w'"
  proof (cases y)
    case (Inl e)
    with run y o show ?thesis by (auto simp: js_DeleteMessage_def)
  next
    case (Inr i)
    obtain z w2 where z: "owned J i ns p w1 = (z, w2)" by fastforce
    note ow = owned_run [OF J z]
    have r2: "jv_rely V w w2" by (rule jv_trans [OF V o(1) ow(1)])
    show ?thesis
    proof (cases z)
      case (Inl e)
      with run y Inr z have "w' = w2" "x = (if errors_Is e sqs_ErrNotFound then Inr () else Inl e)"
        by (auto simp: js_DeleteMessage_def)
      with r2 jv_seen_start [OF V o(1) ow(3) [OF Inl]] show ?thesis by (simp add: seen_js)
    next
      case zr: (Inr raw)
      obtain d w3 where d: "js_DeleteMsg J w2 ?s p = (d, w3)" by fastforce
      note dl = js_laws(4) [OF J, unfolded DeleteMsg_law_def, rule_format, OF d]
      have body: "jv_seen V (\<lambda>u. jv_msg V u ?s p = None) w2 w3 \<Longrightarrow> jv_seen V (\<lambda>u. js_body V ns u p = None) w w3"
        by (rule jv_seen_start [OF V r2], erule jv_seen_mono) (simp add: js_body_def)
      note gone = msg_done_gone [OF msg_done_start [OF V r2]]
      show ?thesis
      proof (cases d)
        case (Inl e)
        with run y Inr z zr d have "w' = w3" "errors_Is e ErrMsgNotFound \<Longrightarrow> x = Inr ()"
          "\<not> errors_Is e ErrMsgNotFound \<Longrightarrow> \<exists>e'. x = Inl e'" by (auto simp: js_DeleteMessage_def)
        with dl Inl body gone jv_trans [OF V r2] show ?thesis
          by (cases "errors_Is e ErrMsgNotFound") (auto simp: seen_js)
      next
        case dr: (Inr u)
        with run y Inr z zr d dl gone show ?thesis by (auto simp: js_DeleteMessage_def)
      qed
    qed
  qed
qed

lemma js_GetState_run:
  assumes J: "jetstream_lawful J V" and run: "js_GetState J w ns p = (x, w')"
  shows "jv_rely V w w'"
    and "x = Inr (v, r) \<Longrightarrow> jv_seen V (\<lambda>u. jv_key V u (BucketName (StateShard ns)) (StateKey ns p) = Some (v, r)) w w'"
    and "x = Inl e \<Longrightarrow> errors_Is e sqs_ErrNotFound \<Longrightarrow>
      jv_seen V (\<lambda>u. jv_key V u (BucketName (StateShard ns)) (StateKey ns p) = None) w w'"
    and "x = Inl e \<Longrightarrow> \<not> errors_Is e sqs_ErrRevisionMismatch"
proof -
  let ?b = "BucketName (StateShard ns)" and ?k = "StateKey ns p"
  note V = js_laws(1) [OF J]
  obtain y w1 where y: "open_bucket J ns w = (y, w1)" by fastforce
  note o = open_bucket_run [OF J y]
  obtain z w2 where z: "js_LastFor J w1 (''KV_'' @ ?b) (kv_subject ?b ?k) = (z, w2)" by fastforce
  note l = js_laws(5) [OF J, unfolded LastFor_law_def, rule_format, OF z]
  have sr: "\<not> errors_Is (Sentinel sqs_ErrNotFound) sqs_ErrRevisionMismatch"
    by (simp add: sqs_ErrNotFound_def sqs_ErrRevisionMismatch_def)
  have "jv_rely V w w' \<and> (\<forall>v r. x = Inr (v, r) \<longrightarrow> jv_seen V (\<lambda>u. jv_key V u ?b ?k = Some (v, r)) w w') \<and>
      (\<forall>e. x = Inl e \<longrightarrow> (errors_Is e sqs_ErrNotFound \<longrightarrow> jv_seen V (\<lambda>u. jv_key V u ?b ?k = None) w w') \<and>
        \<not> errors_Is e sqs_ErrRevisionMismatch)"
  proof (cases y)
    case (Inl e)
    with run y o show ?thesis by (auto simp: js_GetState_def foreign_def)
  next
    case (Inr u)
    note st = jv_seen_start [OF V o(1)]
    have w': "w' = w2" using run y Inr z by (auto simp: js_GetState_def Let_def split: sum.splits)
    show ?thesis
    proof (cases z)
      case (Inl e)
      with run y Inr z have "x = (if errors_Is e ErrMsgNotFound then Inl (Sentinel sqs_ErrNotFound)
          else Inl (Wrapped (at_pos ''get state '' ns p) [e] []))" by (simp add: js_GetState_def Let_def)
      with l Inl st jv_trans [OF V o(1)] w' sr show ?thesis by (auto simp: foreign_def)
    next
      case zr: (Inr c)
      obtain h v seq where c: "c = (h, v, seq)" by (cases c)
      with run y Inr z zr have "x = (if kvRemoved h then Inl (Sentinel sqs_ErrNotFound) else Inr (v, seq))"
        by (simp add: js_GetState_def Let_def)
      with l zr c st jv_trans [OF V o(1)] w' sr show ?thesis by auto
    qed
  qed
  then show "jv_rely V w w'" "x = Inr (v, r) \<Longrightarrow> jv_seen V (\<lambda>u. jv_key V u ?b ?k = Some (v, r)) w w'"
    "x = Inl e \<Longrightarrow> errors_Is e sqs_ErrNotFound \<Longrightarrow> jv_seen V (\<lambda>u. jv_key V u ?b ?k = None) w w'"
    "x = Inl e \<Longrightarrow> \<not> errors_Is e sqs_ErrRevisionMismatch" by blast+
qed

lemma js_GetState_contract: "jetstream_lawful J V \<Longrightarrow> GetState_contract (js_store J) (js_msg_view V ns) ns"
  unfolding GetState_contract_def using js_GetState_run [of J V] by (fastforce simp: js_store_def seen_js)

text \<open>A guarded write of a state record, as the store reports it.\<close>

lemma cas_reported:
  assumes V: "js_view_ok V" and r: "jv_rely V w w1"
    and o: "key_outcome V (BucketName (StateShard ns)) (StateKey ns p) P new y w1 w2"
    and x: "x = (case y of Inl e \<Rightarrow> Inl (casError e t) | Inr r \<Rightarrow> Inr r)"
  shows "case x of
      Inr r \<Rightarrow> \<exists>old. P old \<and> put_done (js_msg_view V ns) p old (new r) w w2
    | Inl e \<Rightarrow> jv_rely V w w2 \<or> (\<not> errors_Is e sqs_ErrRevisionMismatch \<and> \<not> errors_Is e sqs_ErrNotFound \<and>
        (\<exists>old r. P old \<and> put_done (js_msg_view V ns) p old (new r) w w2))"
proof -
  note put = key_done_put [OF key_done_start [OF V r]]
  show ?thesis
  proof (cases y)
    case (Inr r')
    with o x put show ?thesis by (auto simp: key_outcome_def)
  next
    case (Inl e)
    with o have f: "foreign e"
      and d: "jv_rely V w1 w2 \<or> \<not> isConflict e \<and> (\<exists>old r. P old \<and> key_done V (BucketName (StateShard ns)) (StateKey ns p) old (new r) w1 w2)"
      by (simp_all add: key_outcome_def)
    from d show ?thesis
    proof
      assume "jv_rely V w1 w2"
      with jv_trans [OF V r] x Inl show ?thesis by simp
    next
      assume "\<not> isConflict e \<and> (\<exists>old r. P old \<and> key_done V (BucketName (StateShard ns)) (StateKey ns p) old (new r) w1 w2)"
      with put have "\<exists>old r. P old \<and> put_done (js_msg_view V ns) p old (new r) w w2" "\<not> isConflict e" by blast+
      with f x Inl show ?thesis by (simp add: casError_def foreign_def)
    qed
  qed
qed

lemma js_PutState_contract:
  assumes J: "jetstream_lawful J V"
  shows "PutState_contract (js_store J) (js_msg_view V ns) ns"
  unfolding PutState_contract_def
proof (intro allI impI)
  fix w p v expected x w'
  assume "st_PutState (js_store J) w ns p v expected = (x, w')"
  then have run: "js_PutState J w ns p v expected = (x, w')" by (simp add: js_store_def)
  let ?b = "BucketName (StateShard ns)" and ?k = "StateKey ns p" and ?V = "js_msg_view V ns"
  note V = js_laws(1) [OF J]
  obtain y w1 where y: "open_bucket J ns w = (y, w1)" by fastforce
  note o = open_bucket_run [OF J y]
  show "case x of Inr r \<Rightarrow> \<exists>old. put_done ?V p old (Some (v, r)) w w' \<and> at_revision expected old
    | Inl e \<Rightarrow> mv_rely ?V w w' \<or> \<not> errors_Is e sqs_ErrRevisionMismatch \<and>
        (\<exists>old r. put_done ?V p old (Some (v, r)) w w' \<and> at_revision expected old)"
  proof (cases y)
    case (Inl e)
    with run y o show ?thesis by (auto simp: js_PutState_def)
  next
    case (Inr u)
    obtain z w2 where z: "(if expected = 0 then js_Create J w1 ?b ?k v else js_Update J w1 ?b ?k v expected) = (z, w2)" by fastforce
    have "key_outcome V ?b ?k (at_revision expected) (\<lambda>r. Some (v, r)) z w1 w2"
      using js_laws(6) [OF J] z unfolding Key_laws_def at_revision_def by (cases "expected = 0") auto
    moreover from run y Inr z have "w' = w2" "x = (case z of Inl e \<Rightarrow> Inl (casError e (at_pos ''put state '' ns p)) | Inr r \<Rightarrow> Inr r)"
      by (auto simp: js_PutState_def split: sum.splits)
    ultimately show ?thesis using cas_reported [OF V o(1), of ns p "at_revision expected"] by (cases x) fastforce+
  qed
qed

lemma js_DeleteState_contract:
  assumes J: "jetstream_lawful J V"
  shows "DeleteState_contract (js_store J) (js_msg_view V ns) ns"
  unfolding DeleteState_contract_def
proof (intro allI impI)
  fix w p expected x w'
  assume "st_DeleteState (js_store J) w ns p expected = (x, w')"
  then have run: "js_DeleteState J w ns p expected = (x, w')" by (simp add: js_store_def)
  let ?b = "BucketName (StateShard ns)" and ?k = "StateKey ns p" and ?V = "js_msg_view V ns"
  note V = js_laws(1) [OF J]
  obtain g w0 where g: "js_GetState J w ns p = (g, w0)" by fastforce
  obtain y w1 where y: "open_bucket J ns w0 = (y, w1)" by fastforce
  obtain z w2 where z: "js_Delete J w1 ?b ?k (Some expected) = (z, w2)" by fastforce
  note r0 = js_GetState_run(1) [OF J g] and o = open_bucket_run [OF J y]
  have r1: "jv_rely V w w1" by (rule jv_trans [OF V r0 o(1)])
  have ko: "key_outcome V ?b ?k (\<lambda>old. \<exists>v0. old = Some (v0, expected)) (\<lambda>r. None) z w1 w2"
    using js_laws(6) [OF J] z unfolding Key_laws_def by blast
  consider (early) e where "x = Inl e" "w' = w0 \<or> w' = w1"
    | (wrote) "w' = w2" "x = (case z of Inl e \<Rightarrow> Inl (casError e (at_pos ''delete state '' ns p)) | Inr r \<Rightarrow> Inr r)"
    using run g y z by (auto simp: js_DeleteState_def split: sum.splits if_splits)
  then show "case x of Inr r \<Rightarrow> \<exists>v. put_done ?V p (Some (v, expected)) None w w'
    | Inl e \<Rightarrow> mv_rely ?V w w' \<or> \<not> errors_Is e sqs_ErrRevisionMismatch \<and> \<not> errors_Is e sqs_ErrNotFound \<and>
        (\<exists>v. put_done ?V p (Some (v, expected)) None w w')"
  proof cases
    case early
    with r0 r1 show ?thesis by auto
  next
    case wrote
    show ?thesis using cas_reported [OF V r1 ko wrote(2)] unfolding wrote(1) by (cases x) auto
  qed
qed

lemma js_Append_contract:
  assumes J: "jetstream_lawful J V"
  shows "Append_contract (js_store J) (js_msg_view V ns) ns"
  unfolding Append_contract_def
proof (intro allI impI)
  fix w ai x w'
  assume "st_Append (js_store J) w ns ai = (x, w')"
  then have run: "js_Append J w ns ai = (x, w')" by (simp add: js_store_def)
  let ?s = "StreamName (MessageShard ns)" and ?V = "js_msg_view V ns"
  let ?mid = "if ai_IdempotencyKey ai = [] then None else Some (ns_Queue ns @ '':'' @ ai_IdempotencyKey ai)"
  note V = js_laws(1) [OF J]
  obtain y w1 where y: "js_PublishMsg J w (Subject ns) (append_header ns (ai_Meta ai)) (ai_Body ai) ?s ?mid = (y, w1)" by fastforce
  note pl = js_laws(2) [OF J, unfolded Publish_law_def, rule_format, OF y]
  note ap = msg_done_appended [OF V]
  consider (early) e where "x = Inl e" "w' = w" | (err) e e' where "y = Inl e" "x = Inl e'" "w' = w1"
    | (ok) seq dup where "y = Inr (seq, dup)" "x = Inr \<lparr>ar_Position = seq, ar_Duplicate = dup\<rparr>" "w' = w1"
    using run y unfolding js_Append_def by (auto split: option.splits if_splits sum.splits)
  then show "case x of Inr res \<Rightarrow> ar_Position res \<noteq> 0 \<and>
      (if ar_Duplicate res then mv_rely ?V w w' else appended ?V ai (ar_Position res) w w')
    | Inl e \<Rightarrow> mv_rely ?V w w' \<or> (\<exists>p. appended ?V ai p w w')"
  proof cases
    case early
    with jv_refl [OF V] show ?thesis by simp
  next
    case err
    with pl show ?thesis by (auto dest: ap)
  next
    case ok
    with pl show ?thesis by (auto dest: ap split: if_splits)
  qed
qed

text \<open>A range read stays among the other clients' steps.\<close>

lemma readRange_rely:
  "readRange J stream filt fn bound after s w = (x, w') \<Longrightarrow> jetstream_lawful J V \<Longrightarrow> jv_rely V w w'"
proof (induction J stream filt fn bound after s w rule: readRange.induct)
  case (1 J stream filt fn bound after s w)
  note V = js_laws(1) [OF 1(3)]
  obtain y w1 where y: "js_NextFor J w stream filt (after + 1) = (y, w1)" by fastforce
  have r: "jv_rely V w w1"
    using js_laws(7) [OF 1(3)] y unfolding Handle_laws_def read_ok_def by blast
  show ?case
  proof (cases "\<exists>msg cont s'. after < bound \<and> y = Inr msg \<and> after < rw_Sequence msg \<and> rw_Sequence msg \<le> bound \<and>
      fn msg s = Inr (cont, s') \<and> (cont \<or> bound \<le> rw_Sequence msg)")
    case True
    then obtain msg cont s' where m: "after < bound" "y = Inr msg" "after < rw_Sequence msg" "rw_Sequence msg \<le> bound"
      "fn msg s = Inr (cont, s')" "cont \<or> bound \<le> rw_Sequence msg" by blast
    with 1(2) y have "readRange J stream filt fn bound (rw_Sequence msg) s' w1 = (x, w')"
      by (subst (asm) readRange.simps) auto
    with 1(1) [OF m(1) y [symmetric, unfolded m(2)] refl] m 1(3) r show ?thesis by (auto intro: jv_trans [OF V])
  next
    case False
    with 1(2) y have "w' = w \<or> w' = w1" by (subst (asm) readRange.simps) (auto split: if_splits sum.splits prod.splits)
    with r jv_refl [OF V] show ?thesis by auto
  qed
qed

text \<open>The invariant of a scan: positions grow from the start of the range and stay within it.\<close>

definition scan_inv :: "nat \<Rightarrow> nat \<Rightarrow> Change list \<Rightarrow> bool" where
  "scan_inv start after cs \<longleftrightarrow>
     sorted_wrt (<) (start # map ch_Position cs) \<and> start \<le> after \<and>
     list_all (\<lambda>c. ch_Cursor c = ch_Position c \<and> ch_Position c \<le> after) cs"

lemma scan_inv_step:
  assumes "scan_inv start after cs" and "after < rw_Sequence msg" and "scan_step shard limit msg cs = Inr (cont, cs')"
  shows "scan_inv start (rw_Sequence msg) cs'"
  using assms by (auto simp: scan_inv_def scan_step_def Let_def sorted_wrt_append list_all_iff split: sum.splits)
    (meson le_less_trans less_imp_le le_trans)+

lemma scan_inv_later: "scan_inv start after cs \<Longrightarrow> after \<le> after' \<Longrightarrow> scan_inv start after' cs"
  by (auto simp: scan_inv_def list_all_iff)

lemma scan_range:
  "readRange J stream filt (scan_step shard limit) bound after cs w = (Inr (lst, fin, cs'), w') \<Longrightarrow>
   scan_inv start after cs \<Longrightarrow> after \<le> bound \<Longrightarrow> scan_inv start lst cs' \<and> lst \<le> bound \<and> (fin \<longleftrightarrow> lst = bound)"
proof (induction J stream filt "scan_step shard limit" bound after cs w rule: readRange.induct)
  case (1 J stream filt bound after cs w)
  obtain y w1 where y: "js_NextFor J w stream filt (after + 1) = (y, w1)" by fastforce
  show ?case
  proof (cases "after < bound")
    case False
    with 1(2-4) show ?thesis by (auto simp: readRange.simps [of J stream filt _ bound after])
  next
    case True
    show ?thesis
    proof (cases y)
      case (Inl e)
      with True y 1(2-4) show ?thesis
        by (auto simp: readRange.simps [of J stream filt _ bound after] split: if_splits intro: scan_inv_later)
    next
      case (Inr msg)
      show ?thesis
      proof (cases "rw_Sequence msg \<le> after \<or> bound < rw_Sequence msg")
        case out: True
        with True y Inr 1(2-4) show ?thesis
          by (auto simp: readRange.simps [of J stream filt _ bound after] split: if_splits intro: scan_inv_later)
      next
        case False
        then have q: "after < rw_Sequence msg" "rw_Sequence msg \<le> bound" by simp_all
        with 1(2) True y Inr obtain cont cs1 where c: "scan_step shard limit msg cs = Inr (cont, cs1)"
          by (cases "scan_step shard limit msg cs") (auto simp: readRange.simps [of J stream filt _ bound after])
        note i = scan_inv_step [OF 1(3) q(1) c]
        show ?thesis
        proof (cases "\<not> cont \<and> rw_Sequence msg < bound")
          case stop: True
          with 1(2) True y Inr q c i show ?thesis by (auto simp: readRange.simps [of J stream filt _ bound after])
        next
          case go: False
          with 1(2) True y Inr q c have
            "readRange J stream filt (scan_step shard limit) bound (rw_Sequence msg) cs1 w1 = (Inr (lst, fin, cs'), w')"
            by (auto simp: readRange.simps [of J stream filt _ bound after])
          with 1(1) [OF True y [symmetric, unfolded Inr] refl _ _ c refl] q go i show ?thesis by auto
        qed
      qed
    qed
  qed
qed

lemma scan_bound_run:
  assumes J: "jetstream_lawful J V" and run: "scan_bound J shard fr w = (x, w')"
  shows "jv_rely V w w'" and "x = Inr b \<Longrightarrow> sc_Bound fr = 0 \<or> b = sc_Bound fr"
proof -
  obtain y w1 where y: "js_Stream J w (StreamName shard) = (y, w1)" by fastforce
  have "jv_rely V w w1" using js_laws(7) [OF J] y unfolding Handle_laws_def read_ok_def by blast
  with run y jv_refl [OF js_laws(1) [OF J]] show "jv_rely V w w'"
    by (auto simp: scan_bound_def split: if_splits sum.splits)
  show "x = Inr b \<Longrightarrow> sc_Bound fr = 0 \<or> b = sc_Bound fr" using run by (auto simp: scan_bound_def split: if_splits)
qed

lemma js_Scan_contract:
  assumes J: "jetstream_lawful J V"
  shows "Scan_contract (js_store J) (js_msg_view V ns) ns"
  unfolding Scan_contract_def
proof (intro allI impI)
  fix w fr limit x w'
  assume "st_Scan (js_store J) w (MessageShard ns) fr limit = (x, w')"
  then have run: "js_Scan J w (MessageShard ns) fr limit = (x, w')" by (simp add: js_store_def)
  let ?sh = "MessageShard ns"
  note V = js_laws(1) [OF J]
  obtain y w1 where y: "open_stream J (any_queue ?sh ''scan'') w = (y, w1)" by fastforce
  obtain b w2 where b: "scan_bound J ?sh fr w1 = (b, w2)" by fastforce
  note r1 = open_stream_run(1) [OF J y] and sb = scan_bound_run [OF J b]
  have r2: "jv_rely V w w2" by (rule jv_trans [OF V r1 sb(1)])
  consider (early) e where "x = Inl e" "w' = w \<or> w' = w1 \<or> w' = w2"
    | (go) bound where "ValidateScan fr limit = None" "b = Inr bound"
    using run y b by (cases "ValidateScan fr limit"; cases y; cases b) (auto simp: js_Scan_def)
  then show "mv_rely (js_msg_view V ns) w w' \<and>
    (\<forall>page. x = Inr page \<longrightarrow>
       sorted_wrt (<) (sc_After fr # map ch_Position (sp_Changes page)) \<and>
       list_all (\<lambda>c. ch_Cursor c = ch_Position c \<and> ch_Position c \<le> sc_After (sp_Next page)) (sp_Changes page) \<and>
       sc_After (sp_Next page) \<le> sc_Bound (sp_Next page))"
  proof cases
    case early
    with r1 r2 jv_refl [OF V] show ?thesis by auto
  next
    case go
    have ab: "sc_After fr \<le> bound" using go(1) sb(2) [OF go(2)] by (auto simp: ValidateScan_def split: if_splits)
    obtain z w3 where z: "readRange J (StreamName ?sh) (shardFilter ?sh) (scan_step ?sh limit) bound (sc_After fr) [] w2 = (z, w3)"
      by fastforce
    have r3: "jv_rely V w w3" by (rule jv_trans [OF V r2 readRange_rely [OF z J]])
    have i: "scan_inv (sc_After fr) (sc_After fr) []" by (simp add: scan_inv_def)
    show ?thesis
    proof (cases "\<exists>p. x = Inr p")
      case False
      have "w' = w1 \<or> w' = w3" using run y b go z by (cases y; cases z) (auto simp: js_Scan_def)
      with False r1 r3 show ?thesis by auto
    next
      case True
      with run y b go z obtain lst fin cs where
        c: "z = Inr (lst, fin, cs)" "w' = w3" "x = Inr \<lparr>sp_Changes = cs, sp_Next = \<lparr>sc_After = lst, sc_Bound = bound\<rparr>, sp_Done = fin\<rparr>"
        by (cases y; cases z) (auto simp: js_Scan_def)
      from scan_range [OF z [unfolded c(1)] i ab] r3 c show ?thesis by (simp add: scan_inv_def)
    qed
  qed
qed


text \<open>A JetStream in memory: a list of slots per stream, a history and a live flag per key.\<close>

record 'v mjs =
  mj_msgs :: "string \<Rightarrow> raw_msg option list"
  mj_keys :: "string \<Rightarrow> string \<Rightarrow> 'v list \<times> bool"

definition mj_msg :: "'v mjs \<Rightarrow> string \<Rightarrow> nat \<Rightarrow> raw_msg option" where
  "mj_msg w s q = (if 0 < q \<and> q \<le> length (mj_msgs w s) then mj_msgs w s ! (q - 1) else None)"

definition mj_key :: "'v mjs \<Rightarrow> string \<Rightarrow> string \<Rightarrow> ('v \<times> nat) option" where
  "mj_key w b k =
     (case mj_keys w b k of (hs, live) \<Rightarrow> if live \<and> hs \<noteq> [] then Some (last hs, length hs) else None)"

definition mj_hist :: "'v mjs \<Rightarrow> string \<Rightarrow> string \<Rightarrow> nat \<Rightarrow> 'v option" where
  "mj_hist w b k r =
     (if 0 < r \<and> r \<le> length (fst (mj_keys w b k)) then Some (fst (mj_keys w b k) ! (r - 1)) else None)"

definition mj_view :: "('v mjs, 'v) js_view" where
  "mj_view = \<lparr>jv_msg = mj_msg, jv_last = \<lambda>w s. length (mj_msgs w s), jv_key = mj_key, jv_hist = mj_hist, jv_rely = (=)\<rparr>"

definition mj_set :: "string \<Rightarrow> string \<Rightarrow> 'v list \<times> bool \<Rightarrow> 'v mjs \<Rightarrow> 'v mjs" where
  "mj_set b k x w = w\<lparr>mj_keys := (mj_keys w)(b := (mj_keys w b)(k := x))\<rparr>"

definition mj_put :: "'v mjs \<Rightarrow> string \<Rightarrow> string \<Rightarrow> 'v \<Rightarrow> nat \<Rightarrow> nat result \<times> 'v mjs" where
  "mj_put w b k v expected =
     (if (case mj_key w b k of None \<Rightarrow> 0 | Some (_, r) \<Rightarrow> r) = expected then
        (Inr (length (fst (mj_keys w b k)) + 1), mj_set b k (fst (mj_keys w b k) @ [v], True) w)
      else (Inl (Sentinel ErrKeyRevisionMismatch), w))"

definition mj_delete :: "'v mjs \<Rightarrow> string \<Rightarrow> string \<Rightarrow> nat option \<Rightarrow> unit result \<times> 'v mjs" where
  "mj_delete w b k expected =
     (case mj_key w b k of
        None \<Rightarrow> (Inl (Sentinel ErrKeyRevisionMismatch), w)
      | Some (v, r) \<Rightarrow>
          if Some r = expected then (Inr (), mj_set b k (fst (mj_keys w b k), False) w)
          else (Inl (Sentinel ErrKeyRevisionMismatch), w))"

text \<open>The bucket and the key of a key-value subject, for buckets without a dot.\<close>

definition mj_last :: "'v mjs \<Rightarrow> string \<Rightarrow> string \<Rightarrow> (header \<times> 'v \<times> nat) result \<times> 'v mjs" where
  "mj_last w stream subject =
     (case cut_prefix stream ''KV_'' of
        None \<Rightarrow> (Inl (Sentinel ErrMsgNotFound), w)
      | Some b \<Rightarrow>
          (case cut_prefix subject (''$KV.'' @ b @ ''.'') of
             None \<Rightarrow> (Inl (Sentinel ErrMsgNotFound), w)
           | Some k \<Rightarrow>
               (case mj_key w b k of
                  None \<Rightarrow> (Inl (Sentinel ErrMsgNotFound), w)
                | Some (v, r) \<Rightarrow> (Inr (Map.empty, v, r), w))))"

definition mj_next :: "'v mjs \<Rightarrow> string \<Rightarrow> nat \<Rightarrow> raw_msg result" where
  "mj_next w s q =
     (case filter (\<lambda>m. m \<noteq> None \<and> q \<le> rw_Sequence (the m)) (mj_msgs w s) of
        Some m # ms \<Rightarrow> Inr m
      | _ \<Rightarrow> Inl (Sentinel ErrMsgNotFound))"

abbreviation mj_info :: "'v mjs \<Rightarrow> string \<Rightarrow> stream_info" where
  "mj_info w s \<equiv> \<lparr>if_Direct = False, if_MirrorDirect = False, if_LastSeq = length (mj_msgs w s)\<rparr>"

definition mj_js :: "('v mjs, 'v) js" where
  "mj_js = \<lparr>js_PublishMsg = \<lambda>w subj h d s mid.
       (Inr (length (mj_msgs w s) + 1, False),
        w\<lparr>mj_msgs := (mj_msgs w)(s := mj_msgs w s @
          [Some \<lparr>rw_Subject = subj, rw_Sequence = length (mj_msgs w s) + 1, rw_Header = h, rw_Data = d\<rparr>])\<rparr>),
     js_Stream = \<lambda>w s. (Inr (mj_info w s), w), js_KeyValue = \<lambda>w b. (Inr (), w),
     js_GetMsg = \<lambda>w s i q. (case mj_msg w s q of None \<Rightarrow> Inl (Sentinel ErrMsgNotFound) | Some m \<Rightarrow> Inr m, w),
     js_DeleteMsg = \<lambda>w s q.
       (if mj_msg w s q = None then (Inl (Sentinel ErrMsgNotFound), w)
        else (Inr (), w\<lparr>mj_msgs := (mj_msgs w)(s := (mj_msgs w s)[q - 1 := None])\<rparr>)),
     js_Purge = \<lambda>w s f q. (Inl (Sentinel ''unsupported''), w), js_Info = \<lambda>w s. (Inr (mj_info w s), w),
     js_SubjectCount = \<lambda>w s f. (Inr (length (filter (\<lambda>m. map_option rw_Subject m = Some f) (mj_msgs w s))), w),
     js_NextFor = \<lambda>w s f q. (mj_next w s q, w), js_LastFor = mj_last, js_Create = \<lambda>w b k v. mj_put w b k v 0,
     js_Update = \<lambda>w b k v r. if r = 0 then (Inl (Sentinel ErrKeyRevisionMismatch), w) else mj_put w b k v r,
     js_Delete = mj_delete, js_BucketNames = \<lambda>w. (Inr [], w), js_streams = \<lambda>w n. None, js_buckets = \<lambda>w n. False,
     js_keep_stream = \<lambda>n i w. w, js_keep_bucket = \<lambda>n w. w\<rparr>"

lemma mj_view_sel [simp]:
  "jv_msg mj_view = mj_msg" "jv_last mj_view w s = length (mj_msgs w s)" "jv_key mj_view = mj_key" "jv_hist mj_view = mj_hist"
  "jv_rely mj_view = (=)"
  by (simp_all add: mj_view_def)

lemma mj_foreign [simp]:
  "foreign (Sentinel ErrMsgNotFound)" "foreign (Sentinel ErrKeyRevisionMismatch)"
  by (simp_all add: foreign_def sqs_ErrNotFound_def sqs_ErrRevisionMismatch_def)

lemma mj_view_ok: "js_view_ok mj_view"
  by (auto simp: js_view_ok_def mj_msg_def mj_key_def mj_hist_def last_conv_nth split: prod.splits if_splits)

lemma mj_key_step:
  assumes "\<exists>xs. fst x = fst (mj_keys w b k) @ xs"
  shows "key_step mj_view b k (case x of (hs, live) \<Rightarrow> if live \<and> hs \<noteq> [] then Some (last hs, length hs) else None) w (mj_set b k x w)"
  using assms
  by (auto simp: key_step_def mj_key_def mj_hist_def mj_set_def mj_msg_def fun_eq_iff nth_append split: prod.splits)

lemma mj_key_pos: "mj_key w b k = Some (v, r) \<Longrightarrow> 0 < r"
  by (auto simp: mj_key_def split: prod.splits if_splits)

lemma mj_put_done:
  assumes "mj_put w b k v expected = (y, w')"
  shows "w' = w \<and> y = Inl (Sentinel ErrKeyRevisionMismatch) \<or>
    (case mj_key w b k of None \<Rightarrow> 0 | Some (_, r) \<Rightarrow> r) = expected \<and>
    (\<exists>r. y = Inr r \<and> key_done mj_view b k (mj_key w b k) (Some (v, r)) w w')"
  using assms mj_key_step [of "(fst (mj_keys w b k) @ [v], True)" w b k]
  by (auto simp: mj_put_def key_done_def split: if_splits)

lemma mj_delete_done:
  assumes "mj_delete w b k (Some r0) = (y, w')"
  shows "w' = w \<and> y = Inl (Sentinel ErrKeyRevisionMismatch) \<or>
    (\<exists>v. mj_key w b k = Some (v, r0) \<and> y = Inr () \<and> key_done mj_view b k (Some (v, r0)) None w w')"
  using assms mj_key_step [of "(fst (mj_keys w b k), False)" w b k]
  by (auto simp: mj_delete_def key_done_def split: if_splits option.splits)

lemma mj_Publish_law: "Publish_law mj_js mj_view"
proof -
  have "msg_step mj_view s (Suc (length (mj_msgs w s))) (Some m) w (w\<lparr>mj_msgs := (mj_msgs w)(s := mj_msgs w s @ [Some m])\<rparr>)" for w s m
    by (auto simp: msg_step_def mj_msg_def mj_key_def mj_hist_def fun_eq_iff nth_append)
  then show ?thesis by (auto simp: Publish_law_def mj_js_def msg_done_def)
qed

lemma mj_DeleteMsg_law: "DeleteMsg_law mj_js mj_view"
proof -
  have "msg_step mj_view s q None w (w\<lparr>mj_msgs := (mj_msgs w)(s := (mj_msgs w s)[q - 1 := None])\<rparr>)" if "mj_msg w s q \<noteq> None" for w s q
    using that by (auto simp: msg_step_def mj_msg_def mj_key_def mj_hist_def fun_eq_iff nth_list_update split: if_splits)
  then show ?thesis
    by (fastforce simp: DeleteMsg_law_def mj_js_def msg_done_def jv_seen_def split: if_splits)
qed

lemma mj_LastFor_law: "LastFor_law mj_js mj_view"
  by (auto simp: LastFor_law_def mj_js_def mj_last_def kv_subject_def cut_prefix_def go_has_prefix_append jv_seen_def kvRemoved_def
      hd_Get_def hd_Values_def split: option.splits)

lemma mj_Key_laws: "Key_laws mj_js mj_view"
  unfolding Key_laws_def
proof (intro conjI allI impI)
  fix w :: "'v mjs" and b k v x w'
  assume "js_Create mj_js w b k v = (x, w')"
  then have "mj_put w b k v 0 = (x, w')" by (simp add: mj_js_def)
  from mj_put_done [OF this] show "key_outcome mj_view b k (\<lambda>old. old = None) (\<lambda>r. Some (v, r)) x w w'"
    by (cases "mj_key w b k") (auto simp: key_outcome_def dest: mj_key_pos)
next
  fix w :: "'v mjs" and b k v r0 x w'
  assume "js_Update mj_js w b k v r0 = (x, w')"
  then consider "x = Inl (Sentinel ErrKeyRevisionMismatch)" "w' = w" | "0 < r0" "mj_put w b k v r0 = (x, w')"
    by (auto simp: mj_js_def split: if_splits)
  then show "key_outcome mj_view b k (\<lambda>old. \<exists>v0. old = Some (v0, r0)) (\<lambda>r. Some (v, r)) x w w'"
  proof cases
    case 2
    from mj_put_done [OF 2(2)] 2(1) show ?thesis
      by (cases "mj_key w b k") (fastforce simp: key_outcome_def)+
  qed (simp add: key_outcome_def)
next
  fix w :: "'v mjs" and b k r0 x w'
  assume "js_Delete mj_js w b k (Some r0) = (x, w')"
  then have "mj_delete w b k (Some r0) = (x, w')" by (simp add: mj_js_def)
  from mj_delete_done [OF this] show "key_outcome mj_view b k (\<lambda>old. \<exists>v0. old = Some (v0, r0)) (\<lambda>r. None) x w w'"
    by (fastforce simp: key_outcome_def)
qed

lemma mj_lawful: "jetstream_lawful mj_js mj_view"
  using mj_view_ok mj_Publish_law mj_DeleteMsg_law mj_LastFor_law mj_Key_laws
  by (auto simp: jetstream_lawful_def GetMsg_law_def Handle_laws_def read_ok_def mj_js_def mj_next_def jv_seen_def
      split: option.splits list.splits)


section \<open>Names\<close>

lemma valid_queue_dot: "Namespace_Validate ns = None \<Longrightarrow> CHR ''.'' \<notin> set (ns_Queue ns)"
  by (auto simp: valid_namespace list_all_iff isQueueIDRune_def within_def)

lemma itoa_dot: "CHR ''.'' \<notin> set (go_itoa n)"
  using go_itoa_digits [of n] by (auto simp: list_all_iff is_digit_def)

lemma dot_split:
  assumes "a @ CHR ''.'' # b = a' @ CHR ''.'' # b'" and "CHR ''.'' \<notin> set a" and "CHR ''.'' \<notin> set a'"
  shows "a = a' \<and> b = b'"
proof -
  have "takeWhile (\<lambda>c. c \<noteq> CHR ''.'') (a @ CHR ''.'' # b) = a" "takeWhile (\<lambda>c. c \<noteq> CHR ''.'') (a' @ CHR ''.'' # b') = a'"
    using assms(2,3) by (auto simp: takeWhile_append2 takeWhile_tail)
  with assms(1) have "a = a'" by simp
  with assms(1) show ?thesis by simp
qed

text \<open>
  C23. Names never collide and are read back exactly. Two valid queues' state keys are equal only for the
  same message shard, queue and position. The subject and headers an append writes decode to the
  namespace it was given, and a state key decodes to its queue.
\<close>

theorem names_decode:
  assumes "Namespace_Validate ns = None" and "Namespace_Validate ns' = None"
    and "StateShard ns < 2 ^ 32" and "0 < p" and "p < 2 ^ 64"
  shows "(StateKey ns p = StateKey ns' q \<longleftrightarrow> MessageShard ns = MessageShard ns' \<and> ns_Queue ns = ns_Queue ns' \<and> p = q) \<and>
    decodeNamespace (MessageShard ns) (Subject ns) (append_header ns m) = Inr ns \<and>
    decodeStateKey (''q.'' @ go_itoa (MessageShard ns) @ ''.'') (StateKey ns p) = Inr (ns_Queue ns)"
proof (intro conjI iffI)
  note d = valid_queue_dot [OF assms(1)] valid_queue_dot [OF assms(2)]
  assume "StateKey ns p = StateKey ns' q"
  then have "go_itoa (MessageShard ns) @ CHR ''.'' # (ns_Queue ns @ CHR ''.'' # go_itoa p) =
      go_itoa (MessageShard ns') @ CHR ''.'' # (ns_Queue ns' @ CHR ''.'' # go_itoa q)" by (simp add: StateKey_def statePrefix_def)
  from dot_split [OF this itoa_dot itoa_dot] have 1: "MessageShard ns = MessageShard ns'"
    "ns_Queue ns @ CHR ''.'' # go_itoa p = ns_Queue ns' @ CHR ''.'' # go_itoa q" by (simp_all add: go_itoa_inj)
  from dot_split [OF 1(2) d] 1(1) show "MessageShard ns = MessageShard ns'" "ns_Queue ns = ns_Queue ns'" "p = q"
    by (simp_all add: go_itoa_inj)
next
  assume "MessageShard ns = MessageShard ns' \<and> ns_Queue ns = ns_Queue ns' \<and> p = q"
  then show "StateKey ns p = StateKey ns' q" by (simp add: StateKey_def statePrefix_def)
next
  have c: "cut_prefix (Subject ns) (''sqs.m.'' @ go_itoa (MessageShard ns) @ ''.'') = Some (ns_Queue ns)"
    by (simp add: cut_prefix_Some Subject_def)
  have eq: "\<lparr>MessageShard = MessageShard ns, StateShard = StateShard ns, ns_Queue = ns_Queue ns\<rparr> = ns" by simp
  have "go_parse_uint (go_itoa (StateShard ns)) = Some (StateShard ns)"
    using go_parse_uint_itoa [of "StateShard ns"] assms(3) by simp
  then show "decodeNamespace (MessageShard ns) (Subject ns) (append_header ns m) = Inr ns"
    using assms(1,3) unfolding decodeNamespace_def c by (simp add: eq hd_Values_def append_header_def Let_def)
next
  have k: "cut_prefix (StateKey ns p) (''q.'' @ go_itoa (MessageShard ns) @ ''.'') = Some (ns_Queue ns @ CHR ''.'' # go_itoa p)"
    by (simp add: cut_prefix_Some StateKey_def statePrefix_def)
  have v: "Namespace_Validate (any_queue 0 (ns_Queue ns)) = None" using assms(1) by (simp add: valid_namespace)
  have "go_cut (CHR ''.'') (ns_Queue ns @ CHR ''.'' # go_itoa p) = (ns_Queue ns, go_itoa p, True)"
  proof -
    have "x \<noteq> CHR ''.''" if "x \<in> set (ns_Queue ns)" for x using valid_queue_dot [OF assms(1)] that by auto
    then show ?thesis by (simp add: go_cut_def takeWhile_append2 dropWhile_append2)
  qed
  then show "decodeStateKey (''q.'' @ go_itoa (MessageShard ns) @ ''.'') (StateKey ns p) = Inr (ns_Queue ns)"
    using go_parse_uint_itoa [OF assms(5)] assms(4) v unfolding decodeStateKey_def k by simp
qed

theorem names_decode_witness:
  "Namespace_Validate (any_queue 7 ''q'') = None \<and>
   decodeNamespace 7 (Subject (any_queue 7 ''q'')) (append_header (any_queue 7 ''q'') Map.empty) = Inr (any_queue 7 ''q'') \<and>
   StateKey (any_queue 7 ''q'') 5 \<noteq> StateKey (any_queue 7 ''r'') 5"
proof -
  have v: "Namespace_Validate (any_queue 7 ''q'') = None" "Namespace_Validate (any_queue 7 ''r'') = None"
    by (simp_all add: valid_namespace MaxQueueIDLen_def isQueueIDRune_def within_def)
  from names_decode [OF v, of 5 5 Map.empty] v show ?thesis by simp
qed

end
