(* ===== verification/Spec2Isabelle.thy ===== *)
theory Spec2Isabelle
  imports Kvutil_Claims Kvstore_Claims Clustersize Kvbuckets Ipam_Claims StaticPool_Claims VmState_Claims
    VmVolumes_Claims Gpu_Claims Kvlease_Claims Quota_Claims Ratelimit Policyauth Sqs_Claims SqsJetstream_Claims
begin

text \<open>
  Spinifex is a private cloud with the AWS API: gateways accept signed requests, authorize them and
  check quotas; daemons on the nodes run the guests; and every shared record lives in JetStream
  key-value buckets that all gateways and daemons write concurrently. This library models the parts
  in which that concurrency, the life of a guest and the handing out of scarce resources are decided.
  Paths below are relative to \<open>src/spinifex\<close>.

  \<^bold>\<open>Shared vocabulary.\<close> \<open>Prelude\<close> has Go errors as values with the \<open>errors.Is\<close> walk, results, 64-bit
  integers with their wrap-around and decimal printing. Error texts leave out quoted input. \<open>Netip\<close>
  is the part of Go's \<open>net/netip\<close> and \<open>net\<close> the allocators use, with 32-bit addresses as words;
  \<open>Pool\<close> is the contract of an address pool (locale \<open>address_pool\<close>).

  \<^bold>\<open>Records under concurrent writers.\<close>
  \<^item> \<open>Kvutil\<close> (\<open>foundation/state/kvutil/cas.go\<close>). A bucket is a record of its calls on a world state,
    an argument of every operation. \<open>kv_lawful\<close> says what JetStream documents of it: a successful guarded
    write is one atomic change at the given revision, a conflict changes nothing, and before and
    after each call other clients may do what \<open>rely\<close> allows. Any other error may or may not have
    written. \<open>changes\<close> describes a sequence of guarded changes between foreign steps. The locales
    \<open>cas_update\<close> and \<open>cas_record\<close> carry a record invariant from a mutator to the stored record; they
    are interpreted on the allocators. \<open>Membucket\<close> is a concrete lawful bucket, on which the witnesses
    run. \<open>Kvutil_Claims\<close>: atomic updates, exclusive claims, checked deletes, and what an error says
    of the key.
  \<^item> \<open>Clustersize\<close> and \<open>Kvbuckets\<close> (\<open>clustersize.go\<close>, \<open>kvutil.go\<close>, \<open>replicas.go\<close>, \<open>durable.go\<close>,
    \<open>migrate/kv.go\<close>): replica counts, bucket creation and raising, schema versions and migrations.
  \<^item> \<open>Kvstore\<close> (\<open>foundation/state/kvstore\<close>): the typed store with its memoised handle; an operation
    whose stream was lost reopens the bucket and runs a second time. \<open>Kvstore_Claims\<close> says what that
    second run can do.
  \<^item> \<open>Kvlease\<close> (\<open>foundation/state/kvlease\<close>): leader leases. A node is its lease and its renewal
    goroutines; each critical section and each call of the bucket is one step, so that renewals,
    releases and acquisitions interleave. \<open>Kvlease_Claims\<close>: a lease is never stolen, at most one holder is
    current, a free key is acquired, and opening the bucket ends; two lemmas exhibit interleavings
    in which the code misbehaves.

  \<^bold>\<open>Scarce resources.\<close>
  \<^item> \<open>Ipam\<close> (\<open>domains/ec2/vpc/ipam.go\<close>) over \<open>Kvstore\<close>: private addresses of a subnet. \<open>Ipam_Claims\<close>: the
    lowest free address is granted, to one owner only, and the subnet's record stays good under any
    interleaving with nodes that keep it so.
  \<^item> \<open>StaticPool\<close> (\<open>domains/network/external/static_pool.go\<close>, \<open>pool.go\<close>): external addresses and the
    gateway range, over \<open>Kvutil\<close> and \<open>Kvstore\<close>. \<open>StaticPool_Claims\<close>: round robin, exact releases, the gateway
    keeps its address, derived ranges overlap nothing.
  \<^item> \<open>Gpu\<close> (\<open>runtime/compute/gpu\<close>): the pool of passthrough GPUs and MIG slices, split where the code
    drops the mutex. \<open>Gpu_Claims\<close>: no slot is handed out twice, releases are exact, counts agree with
    claims, and the claim that the gap in a release loses.
  \<^item> \<open>Quota\<close> (\<open>domains/admission/quota\<close>): limits, overrides with their seal, the vCPU counter with its
    charges and reconciliation, and the other checks. \<open>Quota_Claims\<close>: the launch gate is exact in
    64-bit integers, a seal is final, a complete sweep undoes no charge.

  \<^bold>\<open>Guests.\<close>
  \<^item> \<open>VmState\<close> (\<open>runtime/compute/vm/state.go\<close>, \<open>crash_recovery.go\<close> and the transitions of
    \<open>runtime/daemon/state.go\<close>): the life cycle and crash recovery. \<open>VmState_Claims\<close>: every run follows the
    transition table, restarts are bounded in number and delay, capacity is balanced.
  \<^item> \<open>VmVolumes\<close> (\<open>volumes.go\<close>, \<open>device_map.go\<close>): hot-plug as a log of the calls made to QEMU, the mounter
    and the metadata service, which answer as arguments of the model. \<open>VmVolumes_Claims\<close>: storage is never
    sealed under a live block node, operations take effect as a whole, ports are distinct, detach
    undoes attach.

  \<^bold>\<open>Queues of messages.\<close> A queue (\<open>domains/sqs/message\<close>) keeps each message as a body, written once, and a state record,
  replaced under its revision; every node may send, receive, delete and sweep at once.
  \<^item> \<open>Gobytes\<close> is the part of Go's byte, base64, UTF-8, SHA-256, HMAC and MD5 packages the queues use, executable.
    \<open>SqsReceipt\<close> (\<open>receipt.go\<close>): handles are accepted exactly when a key of the ring issued them for
    the queue. \<open>SqsAttributes\<close> (\<open>attributes.go\<close>): attributes and their encoding.
  \<^item> \<open>SqsStore\<close> (\<open>store.go\<close>): the store interface is a record of operations, and \<open>store_lawful\<close> is what its comments
    promise, over a view of a queue (\<open>msg_view\<close>) that other nodes change within \<open>mv_rely\<close>. \<open>SqsMemstore\<close> is a concrete lawful
    store, on which the witnesses run.
  \<^item> \<open>SqsSend\<close>, \<open>SqsClaim\<close> and \<open>SqsReceive\<close> (\<open>send.go\<close>; \<open>claim.go\<close>, \<open>delete.go\<close>, \<open>visibility.go\<close>, \<open>sweep.go\<close>; \<open>receive.go\<close>):
    the operations over any store. A world has a clock in milliseconds; the feed, the timer and the contexts of a long
    poll are events of the environment.
  \<^item> \<open>SqsProtocol\<close> and \<open>SqsPolling\<close>: what each operation did to a message, as one guarded change between
    foreign steps, and the protocol (\<open>progress\<close>) all operations keep: a body is never rewritten, while it is there the
    generation of its record does not fall and a tombstone stays. \<open>Sqs_Claims\<close>: a claim takes a visible message, two receives
    have different generations and do not overlap, a deleted message is not received, a sweep removes dead messages only,
    what is received is what was sent, and state records stay well typed.
  \<^item> \<open>SqsJetstream\<close> (\<open>message/jetstream\<close>): the store over JetStream, which is a record of calls with laws
    (\<open>jetstream_lawful\<close>). \<open>SqsJetstream_Claims\<close>: it is a lawful store for every queue, so that all of the above holds of it, and its
    names decode.

  \<^bold>\<open>Requests.\<close>
  \<^item> \<open>Ratelimit\<close> (\<open>ingress/aws/ratelimit/limiter.go\<close>): the lockout of addresses.
  \<^item> \<open>Policyauth\<close> (\<open>runtime/roles/awsgw/policyauth\<close>): authorization, which fails closed. The policy
    language and the IAM service are arguments.

  \<^bold>\<open>Loops.\<close> Retry loops recurse on the number of attempts the code allows (\<open>casAttempts\<close>,
  \<open>ipamCASAttempts\<close>, \<open>sealMaxAttempts\<close> and the like), so no fuel is chosen. The walk over a
  subnet's addresses has a termination proof on the address, and so have \<open>readRange\<close> and \<open>leaderStateKeys\<close> on the sequence
  left to read. Four loops may run forever and are partial
  functions: \<open>sweep_from\<close>, which reads as many pages as the store returns, \<open>longPoll_from\<close>, which the environment ends,
  \<open>nats_bucket_loop\<close>, which waits for a deadline and is proved to return when the clock
  advances, and \<open>range_scan\<close>, whose 32-bit counter wraps at the last address; it is proved to return for
  every range that ends before it.

  \<^bold>\<open>Not modelled.\<close> The request handlers of the services (EC2, ELB, RDS, EKS, ECS, ECR, Lambda, SQS outside its
  messages, Route 53, ACM, IAM, STS and the model-serving service) are decoding of requests around calls of the
  stores modelled here. The drivers of QEMU processes, OVN, DHCP, cloud providers, disks and
  terminals are effects on the host. Wire formats, certificates, metrics and logging are left out,
  as are JetStream itself and JSON: a codec is a pair of functions with \<open>codec_ok\<close>, that what is
  encoded decodes to itself, and a state record of a queue is the map a JSON object stands for. The JetStream store's provisioning and its
  change feed, a consumer with goroutines of its own, are left out; a long poll sees the feed's events.
\<close>

end
